theory Spec2Isabelle
  imports Main
begin

section \<open>Data model of the mutation builder\<close>

text \<open>
  The development embeds \<^verbatim>\<open>pkg/sql/opt/optbuilder/mutation_builder.go\<close>.
  A panic of the Go code is a value \<open>Inl e\<close> of the result type \<open>error + 'a\<close>; the state of
  the builder is passed explicitly and is lost when a step fails, as the statement's plan is.
  Scope ordinals are Go \<^verbatim>\<open>int\<close>s with \<open>-1\<close> for "unset"; column identifiers are
  naturals with \<open>0\<close> for "no column".
\<close>

type_synonym scopeOrdinal = int
type_synonym ColumnID = nat
type_synonym WithID = nat

datatype error =
    BackfillError string
  | CannotWriteToComputedColError string
  | MultipleAssignmentError string
  | UndefinedColumnError string
  | NumColsError nat nat
  | ValuesLenError nat nat
  | ParseError string
  | AssertionFailed string
  | ResolveError
  | PrivilegeError
  | RuntimeIndexError
  | RuntimeNilError

text \<open>\<^verbatim>\<open>types.T\<close> up to \<^verbatim>\<open>Equivalent\<close>: only the family of the type is kept.\<close>

datatype T = Decimal | DecimalArray | OtherT nat

text \<open>\<^verbatim>\<open>tree.Expr\<close>: the DEFAULT specifier, the NULL literal, and any other syntax tree.\<close>

datatype Expr = DefaultVal | DNull | ExprNode string

datatype SelectStatement =
    ParenSelect "Select option"
  | ValuesClause "Expr list list"
  | OtherSelect nat
and Select =
    Select (With: "nat option") (OrderBy: "nat option") (Limit: "nat option") (Sel: SelectStatement)

record Column =
  ColName :: string
  IsComputed :: bool
  HasDefault :: bool
  ComputedExprStr :: string
  DefaultExprStr :: string
  DatumType :: T
  ColTypePrecision :: int
  ColTypeWidth :: int
  IsNullable :: bool

datatype CompositeKeyMatchMethod = MatchSimple | MatchPartial | MatchFull

datatype ReferenceAction = NoAction | Restrict | SetNull | SetDefault | Cascade

text \<open>
  \<^verbatim>\<open>cat.ForeignKeyConstraint\<close>: \<open>FKColumns\<close> lists, per key column, the ordinal in the
  origin table and the ordinal in the referenced table, so that \<^verbatim>\<open>ColumnCount()\<close> is its
  length, \<^verbatim>\<open>OriginColumnOrdinal(_, i)\<close> is \<open>fst (FKColumns fk ! i)\<close> and
  \<^verbatim>\<open>ReferencedColumnOrdinal(_, i)\<close> is \<open>snd (FKColumns fk ! i)\<close>.
\<close>

record ForeignKeyConstraint =
  OriginTableID :: nat
  ReferencedTableID :: nat
  FKColumns :: "(nat \<times> nat) list"
  MatchMethod :: CompositeKeyMatchMethod
  DeleteReferenceAction :: ReferenceAction
  UpdateReferenceAction :: ReferenceAction

text \<open>
  \<^verbatim>\<open>cat.Table\<close>: \<open>Columns\<close> holds every column, mutation columns included, so
  \<^verbatim>\<open>DeletableColumnCount()\<close> is its length; the public columns are the first
  \<open>ColumnCount\<close> ones and the writable ones the first \<open>WritableColumnCount\<close>.
\<close>

record Table =
  TabName :: string
  Columns :: "Column list"
  ColumnCount :: nat
  WritableColumnCount :: nat
  CheckCount :: nat
  OutboundFKs :: "ForeignKeyConstraint list"
  InboundFKs :: "ForeignKeyConstraint list"

definition DeletableColumnCount :: "Table \<Rightarrow> nat" where
  "DeletableColumnCount t = length (Columns t)"

text \<open>\<^verbatim>\<open>mb.tab.Column(ord)\<close>: an ordinal past the last column panics.\<close>

definition tabColumn :: "Table \<Rightarrow> nat \<Rightarrow> error + Column" where
  "tabColumn t ord = (if ord < length (Columns t) then Inr (Columns t ! ord) else Inl RuntimeIndexError)"

text \<open>
  Modelled from the spec: \<^verbatim>\<open>cat.IsMutationColumn\<close> is not in the source file. The spec
  calls these columns "storage-engine-managed mutation-only" columns, and the source says
  that only the first \<^verbatim>\<open>ColumnCount\<close> ordinals are non-mutation columns.
\<close>

definition IsMutationColumn :: "Table \<Rightarrow> nat \<Rightarrow> bool" where
  "IsMutationColumn t ord = (ColumnCount t \<le> ord)"

text \<open>
  Modelled from the spec: \<^verbatim>\<open>opt.TableID\<close> and its methods are not in the source file.
  A table of the metadata owns consecutive column identifiers starting at \<open>firstColID\<close>
  ("a globally unique handle bound to exactly one column").
\<close>

record TableID =
  tabIndex :: nat
  firstColID :: nat

definition ColumnID :: "TableID \<Rightarrow> nat \<Rightarrow> ColumnID" where
  "ColumnID t ord = firstColID t + ord"

text \<open>
  Modelled from the spec: the metadata and the memo are not in the source file. Only their
  counters are kept: \<^verbatim>\<open>AddColumn\<close>, \<^verbatim>\<open>AddTable\<close>, \<^verbatim>\<open>NextUniqueID\<close> and
  \<^verbatim>\<open>NextWithID\<close> each reserve the next identifier, which is never \<open>0\<close>.
\<close>

record Metadata =
  mdNumCols :: nat
  mdNumTables :: nat
  mdCurUniqueID :: nat
  mdCurWithID :: nat

definition AddColumn :: "Metadata \<Rightarrow> ColumnID \<times> Metadata" where
  "AddColumn m = (Suc (mdNumCols m), m\<lparr>mdNumCols := Suc (mdNumCols m)\<rparr>)"

definition AddTable :: "Metadata \<Rightarrow> Table \<Rightarrow> TableID \<times> Metadata" where
  "AddTable m t =
     (\<lparr>tabIndex = Suc (mdNumTables m), firstColID = Suc (mdNumCols m)\<rparr>,
      m\<lparr>mdNumTables := Suc (mdNumTables m), mdNumCols := mdNumCols m + length (Columns t)\<rparr>)"

definition NextUniqueID :: "Metadata \<Rightarrow> nat \<times> Metadata" where
  "NextUniqueID m = (Suc (mdCurUniqueID m), m\<lparr>mdCurUniqueID := Suc (mdCurUniqueID m)\<rparr>)"

definition NextWithID :: "Metadata \<Rightarrow> WithID \<times> Metadata" where
  "NextWithID m = (Suc (mdCurWithID m), m\<lparr>mdCurWithID := Suc (mdCurWithID m)\<rparr>)"

text \<open>
  Scalar and relational expressions as the factory builds them. The factory of the optimizer
  is not in the source file; its \<^verbatim>\<open>Construct...\<close> methods are taken as the constructors
  of these datatypes.
\<close>

datatype ScalarExpr =
    VariableExpr ColumnID
  | NullSingleton
  | ConstExpr int
  | IsNotExpr ScalarExpr ScalarExpr
  | OrExpr ScalarExpr ScalarExpr
  | EqExpr ScalarExpr ScalarExpr
  | FunctionExpr string "ScalarExpr list" T nat

datatype RelExpr =
    WithScanExpr WithID "ColumnID list" "ColumnID list" nat
  | SelectExpr RelExpr "ScalarExpr list"
  | ExceptExpr RelExpr RelExpr "ColumnID list" "ColumnID list" "ColumnID list"
  | ScanExpr TableID "nat list"
  | AntiJoinExpr RelExpr RelExpr "ScalarExpr list"
  | SemiJoinExpr RelExpr RelExpr "ScalarExpr list"

record FKChecksItem =
  Check :: RelExpr
  OriginTable :: TableID
  ReferencedTable :: TableID
  FKOutbound :: bool
  FKOrdinal :: nat
  KeyCols :: "ColumnID list"
  OpName :: string

text \<open>
  A scope column and the scope; \<open>NotNullCols\<close> stands for
  \<^verbatim>\<open>outScope.expr.Relational().NotNullCols\<close>, the only property of the input expression
  that the builder reads.
\<close>

record scopeColumn =
  scName :: string
  scTyp :: T
  scId :: ColumnID
  scScalar :: "ScalarExpr option"

record scope =
  cols :: "scopeColumn list"
  NotNullCols :: "ColumnID set"

text \<open>
  The collaborators reached through \<^verbatim>\<open>mb.b\<close>: the session flag, the catalog (a failed
  resolution carries the \<^verbatim>\<open>isAdding\<close> indication), the privilege check and the parser.
\<close>

datatype DataSourceResult = ResolveOK Table | ResolveFailed bool

record Builder =
  OptimizerFKs :: bool
  ResolveDataSourceByID :: "nat \<Rightarrow> DataSourceResult"
  HasPrivilege :: "nat \<Rightarrow> bool"
  ParseExpr :: "string \<Rightarrow> error + Expr"

text \<open>
  \<^verbatim>\<open>mutationBuilder\<close>. \<open>parsedExprs\<close> is \<open>None\<close> while the Go slice is nil.
  \<open>parseLog\<close> is not a field of the Go struct: it records, in order, the table ordinals
  whose expression text was handed to the parser, so that the number of parses can be stated.
  The scratch field \<^verbatim>\<open>fkCheckHelper\<close> is passed as a value instead.
\<close>

record mutationBuilder =
  bld :: Builder
  md :: Metadata
  opName :: string
  tab :: Table
  tabID :: TableID
  outScope :: scope
  targetColList :: "ColumnID list"
  targetColSet :: "ColumnID set"
  insertOrds :: "scopeOrdinal list"
  fetchOrds :: "scopeOrdinal list"
  updateOrds :: "scopeOrdinal list"
  upsertOrds :: "scopeOrdinal list"
  checkOrds :: "scopeOrdinal list"
  canaryColID :: ColumnID
  parsedExprs :: "Expr option list option"
  parseLog :: "nat list"
  checks :: "FKChecksItem list"
  fkFallback :: bool
  withID :: WithID

section \<open>Column ordinal tracker\<close>

text \<open>\<^verbatim>\<open>init\<close>: every role array has one entry per table column, all unset.\<close>

definition init :: "Builder \<Rightarrow> Metadata \<Rightarrow> string \<Rightarrow> Table \<Rightarrow> mutationBuilder" where
  "init b0 m0 name t =
     (let n = DeletableColumnCount t; (tid, m1) = AddTable m0 t in
      \<lparr>bld = b0, md = m1, opName = name, tab = t, tabID = tid,
       outScope = \<lparr>cols = [], NotNullCols = {}\<rparr>,
       targetColList = [], targetColSet = {},
       insertOrds = replicate n (- 1), fetchOrds = replicate n (- 1),
       updateOrds = replicate n (- 1), upsertOrds = replicate n (- 1),
       checkOrds = replicate (CheckCount t) (- 1),
       canaryColID = 0, parsedExprs = None, parseLog = [],
       checks = [], fkFallback = False, withID = 0\<rparr>)"

text \<open>Reading a Go slice at a table ordinal: out of range panics.\<close>

definition ordAt :: "scopeOrdinal list \<Rightarrow> nat \<Rightarrow> error + scopeOrdinal" where
  "ordAt ords i = (if i < length ords then Inr (ords ! i) else Inl RuntimeIndexError)"

definition scopeOrdToColID :: "mutationBuilder \<Rightarrow> scopeOrdinal \<Rightarrow> error + ColumnID" where
  "scopeOrdToColID mb ord =
     (if ord = - 1 then Inr 0
      else if 0 \<le> ord \<and> nat ord < length (cols (outScope mb))
        then Inr (scId (cols (outScope mb) ! nat ord))
      else Inl RuntimeIndexError)"

definition mapToReturnScopeOrd :: "mutationBuilder \<Rightarrow> nat \<Rightarrow> error + scopeOrdinal" where
  "mapToReturnScopeOrd mb tabOrd =
     (case ordAt (upsertOrds mb) tabOrd of Inl e \<Rightarrow> Inl e | Inr ups \<Rightarrow>
      if ups \<noteq> - 1 then Inr ups else
     (case ordAt (updateOrds mb) tabOrd of Inl e \<Rightarrow> Inl e | Inr upd \<Rightarrow>
      if upd \<noteq> - 1 then Inr upd else
     (case ordAt (fetchOrds mb) tabOrd of Inl e \<Rightarrow> Inl e | Inr fet \<Rightarrow>
      if fet \<noteq> - 1 then Inr fet else
     (case ordAt (insertOrds mb) tabOrd of Inl e \<Rightarrow> Inl e | Inr ins \<Rightarrow>
      if ins \<noteq> - 1 then Inr ins else Inr (- 1)))))"

definition addTargetCol :: "mutationBuilder \<Rightarrow> nat \<Rightarrow> error + mutationBuilder" where
  "addTargetCol mb ord =
     (case tabColumn (tab mb) ord of Inl e \<Rightarrow> Inl e | Inr tabCol \<Rightarrow>
      if IsMutationColumn (tab mb) ord then Inl (BackfillError (ColName tabCol))
      else if IsComputed tabCol then Inl (CannotWriteToComputedColError (ColName tabCol))
      else let colID = ColumnID (tabID mb) ord in
        if colID \<in> targetColSet mb then Inl (MultipleAssignmentError (ColName tabCol))
        else Inr (mb\<lparr>targetColSet := insert colID (targetColSet mb),
                     targetColList := targetColList mb @ [colID]\<rparr>))"

text \<open>
  Modelled from the spec: \<^verbatim>\<open>cat.FindTableColumnByName\<close> is not in the source file; it
  gives the ordinal of the first column of that name, or nothing ("unknown column name").
\<close>

fun FindTableColumnByName :: "Column list \<Rightarrow> string \<Rightarrow> nat option" where
  "FindTableColumnByName [] name = None"
| "FindTableColumnByName (c # cs) name =
     (if ColName c = name then Some 0 else map_option Suc (FindTableColumnByName cs name))"

fun addTargetColsByName :: "mutationBuilder \<Rightarrow> string list \<Rightarrow> error + mutationBuilder" where
  "addTargetColsByName mb [] = Inr mb"
| "addTargetColsByName mb (name # names) =
     (case FindTableColumnByName (Columns (tab mb)) name of
        None \<Rightarrow> Inl (UndefinedColumnError name)
      | Some ord \<Rightarrow>
          (case addTargetCol mb ord of Inl e \<Rightarrow> Inl e | Inr mb' \<Rightarrow> addTargetColsByName mb' names))"

section \<open>Default and computed expressions\<close>

definition checkNumCols :: "mutationBuilder \<Rightarrow> nat \<Rightarrow> nat \<Rightarrow> error + unit" where
  "checkNumCols mb expected actual =
     (if actual \<noteq> expected then Inl (NumColsError actual expected) else Inr ())"

text \<open>
  \<^verbatim>\<open>parseDefaultOrComputedExpr\<close>: the cache is allocated on first use; a cached tree is
  returned without parsing; a column that is neither computed nor defaulted gives NULL and
  leaves no cache entry. \<^verbatim>\<open>tabID.ColumnOrdinal(colID)\<close> is \<open>colID - firstColID\<close>, and an
  identifier below \<open>firstColID\<close> would index the slice negatively.
\<close>

definition parseDefaultOrComputedExpr ::
  "mutationBuilder \<Rightarrow> ColumnID \<Rightarrow> error + (Expr \<times> mutationBuilder)" where
  "parseDefaultOrComputedExpr mb colID =
     (let cache = (case parsedExprs mb of
                     None \<Rightarrow> replicate (DeletableColumnCount (tab mb)) None
                   | Some c \<Rightarrow> c);
          mb1 = mb\<lparr>parsedExprs := Some cache\<rparr>
      in if colID < firstColID (tabID mb) then Inl RuntimeIndexError
         else let ord = colID - firstColID (tabID mb) in
           if length cache \<le> ord then Inl RuntimeIndexError
           else (case cache ! ord of
                   Some e \<Rightarrow> Inr (e, mb1)
                 | None \<Rightarrow>
                    (case tabColumn (tab mb) ord of Inl e \<Rightarrow> Inl e | Inr tabCol \<Rightarrow>
                     if IsComputed tabCol \<or> HasDefault tabCol then
                       (case ParseExpr (bld mb)
                               (if IsComputed tabCol then ComputedExprStr tabCol
                                else DefaultExprStr tabCol) of
                          Inl e \<Rightarrow> Inl e
                        | Inr expr \<Rightarrow>
                            Inr (expr, mb1\<lparr>parsedExprs := Some (cache[ord := Some expr]),
                                           parseLog := parseLog mb @ [ord]\<rparr>))
                     else Inr (DNull, mb1))))"

fun extractValuesInput :: "Select option \<Rightarrow> Expr list list option" where
  "extractValuesInput None = None"
| "extractValuesInput (Some (Select w ob l s)) =
     (if w \<noteq> None \<or> ob \<noteq> None \<or> l \<noteq> None then None
      else (case s of
              ParenSelect p \<Rightarrow> extractValuesInput p
            | ValuesClause rows \<Rightarrow> Some rows
            | OtherSelect x \<Rightarrow> None))"

text \<open>
  The inner loop of \<^verbatim>\<open>replaceDefaultExprs\<close> over one tuple: \<open>newRows\<close> and \<open>newTuple\<close>
  are \<open>None\<close> while the Go slices are nil, and are created at the first DEFAULT.
\<close>

fun replaceTuple ::
  "Expr list list \<Rightarrow> nat \<Rightarrow> Expr list \<Rightarrow> nat \<Rightarrow> Expr list \<Rightarrow>
   Expr list list option \<Rightarrow> Expr list option \<Rightarrow> mutationBuilder \<Rightarrow>
   error + (Expr list list option \<times> Expr list option \<times> mutationBuilder)" where
  "replaceTuple rows irow tuple itup [] newRows newTuple mb = Inr (newRows, newTuple, mb)"
| "replaceTuple rows irow tuple itup (val # rest) newRows newTuple mb =
     (if val = DefaultVal then
        (let newRows1 = (case newRows of None \<Rightarrow> Some (take irow rows) | Some r \<Rightarrow> Some r);
             newTuple1 = (case newTuple of None \<Rightarrow> take itup tuple | Some t \<Rightarrow> t)
         in if length (targetColList mb) \<le> itup then Inl RuntimeIndexError
            else (case parseDefaultOrComputedExpr mb (targetColList mb ! itup) of
                    Inl e \<Rightarrow> Inl e
                  | Inr (val', mb') \<Rightarrow>
                      replaceTuple rows irow tuple (Suc itup) rest newRows1
                        (Some (newTuple1 @ [val'])) mb'))
      else replaceTuple rows irow tuple (Suc itup) rest newRows
             (case newTuple of None \<Rightarrow> None | Some t \<Rightarrow> Some (t @ [val])) mb)"

fun replaceRows ::
  "Expr list list \<Rightarrow> nat \<Rightarrow> nat \<Rightarrow> Expr list list \<Rightarrow> Expr list list option \<Rightarrow>
   mutationBuilder \<Rightarrow> error + (Expr list list option \<times> mutationBuilder)" where
  "replaceRows rows numCols irow [] newRows mb = Inr (newRows, mb)"
| "replaceRows rows numCols irow (tuple # rest) newRows mb =
     (if length tuple \<noteq> numCols then Inl (ValuesLenError numCols (length tuple))
      else (case replaceTuple rows irow tuple 0 tuple newRows None mb of
              Inl e \<Rightarrow> Inl e
            | Inr (newRows1, newTuple, mb1) \<Rightarrow>
                replaceRows rows numCols (Suc irow) rest
                  (case newRows1 of
                     None \<Rightarrow> None
                   | Some nr \<Rightarrow>
                       (case newTuple of Some t \<Rightarrow> Some (nr @ [t]) | None \<Rightarrow> Some (nr @ [tuple])))
                  mb1))"

definition replaceDefaultExprs ::
  "mutationBuilder \<Rightarrow> Select option \<Rightarrow> error + (Select option \<times> mutationBuilder)" where
  "replaceDefaultExprs mb inRows =
     (case extractValuesInput inRows of
        None \<Rightarrow> Inr (inRows, mb)
      | Some rows \<Rightarrow>
          (case rows of
             [] \<Rightarrow> Inl RuntimeIndexError
           | r0 # rs \<Rightarrow>
               (case checkNumCols mb (length (targetColList mb)) (length r0) of
                  Inl e \<Rightarrow> Inl e
                | Inr u \<Rightarrow>
                    (case replaceRows rows (length r0) 0 rows None mb of
                       Inl e \<Rightarrow> Inl e
                     | Inr (newRows, mb') \<Rightarrow>
                         (case newRows of
                            Some nr \<Rightarrow> Inr (Some (Select None None None (ValuesClause nr)), mb')
                          | None \<Rightarrow> Inr (inRows, mb'))))))"

section \<open>Decimal rounding projector\<close>

text \<open>
  \<^verbatim>\<open>findRoundingFunction\<close> gives the index of the overload of
  \<^verbatim>\<open>crdb_internal.round_decimal_values\<close>, or nothing when no rounding is needed.
\<close>

definition findRoundingFunction :: "T \<Rightarrow> int \<Rightarrow> nat option" where
  "findRoundingFunction typ precision =
     (if precision = 0 then None
      else if typ = Decimal then Some 0
      else if typ = DecimalArray then Some 1
      else None)"

definition roundingCall :: "scopeColumn \<Rightarrow> Column \<Rightarrow> nat \<Rightarrow> ScalarExpr" where
  "roundingCall c col overload =
     FunctionExpr ''crdb_internal.round_decimal_values''
       [VariableExpr (scId c), ConstExpr (ColTypeWidth col)] (scTyp c) overload"

text \<open>
  The loop of \<^verbatim>\<open>roundDecimalValues\<close> at table ordinal \<open>i\<close>. The projection scope is
  created lazily as a copy of the current scope. \<^verbatim>\<open>populateSynthesizedColumn\<close> is not in
  the source file: it gives the scope column a fresh identifier and the scalar.
\<close>

fun roundLoop ::
  "bool \<Rightarrow> nat \<Rightarrow> scopeOrdinal list \<Rightarrow> scope option \<Rightarrow> mutationBuilder \<Rightarrow>
   error + (scope option \<times> mutationBuilder)" where
  "roundLoop roundComputedCols i [] ps mb = Inr (ps, mb)"
| "roundLoop roundComputedCols i (ord # rest) ps mb =
     (if ord = - 1 then roundLoop roundComputedCols (Suc i) rest ps mb
      else (case tabColumn (tab mb) i of Inl e \<Rightarrow> Inl e | Inr col \<Rightarrow>
        if IsComputed col \<noteq> roundComputedCols then roundLoop roundComputedCols (Suc i) rest ps mb
        else (case findRoundingFunction (DatumType col) (ColTypePrecision col) of
                None \<Rightarrow> roundLoop roundComputedCols (Suc i) rest ps mb
              | Some overload \<Rightarrow>
                  if \<not> (0 \<le> ord \<and> nat ord < length (cols (outScope mb))) then Inl RuntimeIndexError
                  else
                    (let fn = roundingCall (cols (outScope mb) ! nat ord) col overload;
                         ps1 = (case ps of None \<Rightarrow> outScope mb | Some p \<Rightarrow> p);
                         (newId, md1) = AddColumn (md mb);
                         ps2 = ps1\<lparr>cols := (cols ps1)
                                 [nat ord := (cols ps1 ! nat ord)\<lparr>scId := newId, scScalar := Some fn\<rparr>]\<rparr>
                     in roundLoop roundComputedCols (Suc i) rest (Some ps2) (mb\<lparr>md := md1\<rparr>)))))"

definition roundDecimalValues ::
  "mutationBuilder \<Rightarrow> scopeOrdinal list \<Rightarrow> bool \<Rightarrow> error + mutationBuilder" where
  "roundDecimalValues mb scopeOrds roundComputedCols =
     (case roundLoop roundComputedCols 0 scopeOrds None mb of
        Inl e \<Rightarrow> Inl e
      | Inr (None, mb1) \<Rightarrow> Inr mb1
      | Inr (Some p, mb1) \<Rightarrow> Inr (mb1\<lparr>outScope := p\<rparr>))"

text \<open>
  Modelled from the spec: the callers of \<^verbatim>\<open>roundDecimalValues\<close> (the insert, update and
  upsert builders) are not in the source file. The spec says the projector "runs twice: once
  over non-computed mutated columns, once over computed mutated columns, in that order".
\<close>

definition roundDecimalValuesTwice ::
  "mutationBuilder \<Rightarrow> scopeOrdinal list \<Rightarrow> error + mutationBuilder" where
  "roundDecimalValuesTwice mb scopeOrds =
     (case roundDecimalValues mb scopeOrds False of
        Inl e \<Rightarrow> Inl e
      | Inr mb1 \<Rightarrow> roundDecimalValues mb1 scopeOrds True)"

section \<open>Mutation plan assembler\<close>

record MutationPrivate =
  mpTable :: TableID
  InsertCols :: "ColumnID list"
  FetchCols :: "ColumnID list"
  UpdateCols :: "ColumnID list"
  CanaryCol :: ColumnID
  CheckCols :: "ColumnID list"
  FKFallback :: bool
  WithID :: WithID
  ReturnCols :: "ColumnID list"

text \<open>The closure \<^verbatim>\<open>makeColList\<close>: the list stays nil (\<open>[]\<close>) while every entry is unset.\<close>

fun makeColListLoop ::
  "mutationBuilder \<Rightarrow> nat \<Rightarrow> nat \<Rightarrow> scopeOrdinal list \<Rightarrow> ColumnID list \<Rightarrow> error + ColumnID list" where
  "makeColListLoop mb n i [] colList = Inr colList"
| "makeColListLoop mb n i (ord # rest) colList =
     (if ord \<noteq> - 1 then
        (case scopeOrdToColID mb ord of
           Inl e \<Rightarrow> Inl e
         | Inr cid \<Rightarrow>
             makeColListLoop mb n (Suc i) rest
               ((if colList = [] then replicate n 0 else colList)[i := cid]))
      else makeColListLoop mb n (Suc i) rest colList)"

definition makeColList :: "mutationBuilder \<Rightarrow> scopeOrdinal list \<Rightarrow> error + ColumnID list" where
  "makeColList mb scopeOrds = makeColListLoop mb (length scopeOrds) 0 scopeOrds []"

fun returnColsLoop ::
  "mutationBuilder \<Rightarrow> nat list \<Rightarrow> ColumnID list \<Rightarrow> error + ColumnID list" where
  "returnColsLoop mb [] rc = Inr rc"
| "returnColsLoop mb (i # rest) rc =
     (case mapToReturnScopeOrd mb i of
        Inl e \<Rightarrow> Inl e
      | Inr scopeOrd \<Rightarrow>
          if scopeOrd = - 1 then Inl (AssertionFailed ''column is not available in the mutation input'')
          else if \<not> (0 \<le> scopeOrd \<and> nat scopeOrd < length (cols (outScope mb))) then Inl RuntimeIndexError
          else if length rc \<le> i then Inl RuntimeIndexError
          else returnColsLoop mb rest (rc[i := scId (cols (outScope mb) ! nat scopeOrd)]))"

definition makeMutationPrivate :: "mutationBuilder \<Rightarrow> bool \<Rightarrow> error + MutationPrivate" where
  "makeMutationPrivate mb needResults =
     (case makeColList mb (insertOrds mb) of Inl e \<Rightarrow> Inl e | Inr ins \<Rightarrow>
     (case makeColList mb (fetchOrds mb) of Inl e \<Rightarrow> Inl e | Inr fet \<Rightarrow>
     (case makeColList mb (updateOrds mb) of Inl e \<Rightarrow> Inl e | Inr upd \<Rightarrow>
     (case makeColList mb (checkOrds mb) of Inl e \<Rightarrow> Inl e | Inr chk \<Rightarrow>
      (let private = \<lparr>mpTable = tabID mb, InsertCols = ins, FetchCols = fet, UpdateCols = upd,
                      CanaryCol = canaryColID mb, CheckCols = chk, FKFallback = fkFallback mb,
                      WithID = 0, ReturnCols = []\<rparr>;
           private1 = (if 0 < length (checks mb) then private\<lparr>WithID := withID mb\<rparr> else private)
       in if needResults then
            (case returnColsLoop mb [0..<ColumnCount (tab mb)]
                    (replicate (DeletableColumnCount (tab mb)) 0) of
               Inl e \<Rightarrow> Inl e
             | Inr rc \<Rightarrow> Inr (private1\<lparr>ReturnCols := rc\<rparr>))
          else Inr private1)))))"

section \<open>Referential-integrity check builder\<close>

text \<open>
  \<^verbatim>\<open>fkCheckHelper\<close>; \<open>otherTab\<close> is \<open>None\<close> while the Go interface value is nil. Both
  initialisers first overwrite the helper with a value that holds only the constraint, its
  ordinal and its direction, and return \<open>False\<close> with the helper left so when the catalog
  reports that the other table is being added.
\<close>

record fkCheckHelper =
  fk :: ForeignKeyConstraint
  fkOrdinal :: nat
  fkOutbound :: bool
  otherTab :: "Table option"
  tabOrdinals :: "nat list"
  otherTabOrdinals :: "nat list"

definition fkAt :: "ForeignKeyConstraint list \<Rightarrow> nat \<Rightarrow> error + ForeignKeyConstraint" where
  "fkAt fks i = (if i < length fks then Inr (fks ! i) else Inl RuntimeIndexError)"

definition initWithOutboundFK :: "mutationBuilder \<Rightarrow> nat \<Rightarrow> error + (bool \<times> fkCheckHelper)" where
  "initWithOutboundFK mb i =
     (case fkAt (OutboundFKs (tab mb)) i of Inl e \<Rightarrow> Inl e | Inr f \<Rightarrow>
      (let h = \<lparr>fk = f, fkOrdinal = i, fkOutbound = True, otherTab = None,
                tabOrdinals = [], otherTabOrdinals = []\<rparr>
       in case ResolveDataSourceByID (bld mb) (ReferencedTableID f) of
            ResolveFailed isAdding \<Rightarrow> if isAdding then Inr (False, h) else Inl ResolveError
          | ResolveOK ref \<Rightarrow>
              if \<not> HasPrivilege (bld mb) (ReferencedTableID f) then Inl PrivilegeError
              else Inr (True, h\<lparr>otherTab := Some ref,
                                tabOrdinals := map fst (FKColumns f),
                                otherTabOrdinals := map snd (FKColumns f)\<rparr>)))"

definition initWithInboundFK :: "mutationBuilder \<Rightarrow> nat \<Rightarrow> error + (bool \<times> fkCheckHelper)" where
  "initWithInboundFK mb i =
     (case fkAt (InboundFKs (tab mb)) i of Inl e \<Rightarrow> Inl e | Inr f \<Rightarrow>
      (let h = \<lparr>fk = f, fkOrdinal = i, fkOutbound = False, otherTab = None,
                tabOrdinals = [], otherTabOrdinals = []\<rparr>
       in case ResolveDataSourceByID (bld mb) (OriginTableID f) of
            ResolveFailed isAdding \<Rightarrow> if isAdding then Inr (False, h) else Inl ResolveError
          | ResolveOK ref \<Rightarrow>
              if \<not> HasPrivilege (bld mb) (OriginTableID f) then Inl PrivilegeError
              else Inr (True, h\<lparr>otherTab := Some ref,
                                tabOrdinals := map snd (FKColumns f),
                                otherTabOrdinals := map fst (FKColumns f)\<rparr>)))"

datatype fkInputScanType = fkInputScanNewVals | fkInputScanFetchedVals

definition fkInputCol :: "mutationBuilder \<Rightarrow> fkInputScanType \<Rightarrow> nat \<Rightarrow> error + ColumnID" where
  "fkInputCol mb typ tabOrd =
     (if typ = fkInputScanNewVals then
        (case mapToReturnScopeOrd mb tabOrd of Inl e \<Rightarrow> Inl e | Inr ord \<Rightarrow> scopeOrdToColID mb ord)
      else
        (case ordAt (fetchOrds mb) tabOrd of Inl e \<Rightarrow> Inl e | Inr ord \<Rightarrow> scopeOrdToColID mb ord))"

text \<open>
  The test \<^verbatim>\<open>NotNullCols.Contains(inputCols[i]) || !mb.tab.Column(tabOrd).IsNullable()\<close>;
  the table column is read only when the first disjunct is false.
\<close>

definition fkColNotNull :: "mutationBuilder \<Rightarrow> ColumnID \<Rightarrow> nat \<Rightarrow> error + bool" where
  "fkColNotNull mb inCol tabOrd =
     (if inCol \<in> NotNullCols (outScope mb) then Inr True
      else (case tabColumn (tab mb) tabOrd of Inl e \<Rightarrow> Inl e | Inr col \<Rightarrow> Inr (\<not> IsNullable col)))"

text \<open>
  The loop of \<^verbatim>\<open>makeFKInputScan\<close> over the table ordinals of the key: the input columns,
  the freshly added output columns, and the output columns taken as not null.
\<close>

fun makeFKInputCols ::
  "fkInputScanType \<Rightarrow> nat list \<Rightarrow> mutationBuilder \<Rightarrow>
   error + ((ColumnID list \<times> ColumnID list \<times> ColumnID set) \<times> mutationBuilder)" where
  "makeFKInputCols typ [] mb = Inr (([], [], {}), mb)"
| "makeFKInputCols typ (tabOrd # rest) mb =
     (case fkInputCol mb typ tabOrd of Inl e \<Rightarrow> Inl e | Inr inCol \<Rightarrow>
      if inCol = 0 then Inl (AssertionFailed ''no value for FK column'')
      else (case AddColumn (md mb) of (outCol, md1) \<Rightarrow>
        (case fkColNotNull mb inCol tabOrd of Inl e \<Rightarrow> Inl e | Inr nn \<Rightarrow>
          (case makeFKInputCols typ rest (mb\<lparr>md := md1\<rparr>) of
             Inl e \<Rightarrow> Inl e
           | Inr ((ins, outs, notNull), mb') \<Rightarrow>
               Inr ((inCol # ins, outCol # outs,
                     (if nn then insert outCol notNull else notNull)), mb')))))"

definition makeFKInputScan ::
  "fkCheckHelper \<Rightarrow> fkInputScanType \<Rightarrow> mutationBuilder \<Rightarrow>
   error + ((RelExpr \<times> ColumnID list \<times> ColumnID set) \<times> mutationBuilder)" where
  "makeFKInputScan h typ mb =
     (case makeFKInputCols typ (tabOrdinals h) mb of
        Inl e \<Rightarrow> Inl e
      | Inr ((ins, outs, notNull), mb1) \<Rightarrow>
          (case NextUniqueID (md mb1) of (uid, md2) \<Rightarrow>
             Inr ((WithScanExpr (withID mb1) ins outs uid, outs, notNull), mb1\<lparr>md := md2\<rparr>)))"

text \<open>
  \<^verbatim>\<open>buildOtherTableScan\<close> calls \<^verbatim>\<open>h.otherTab.Name()\<close> first, which is a nil dereference
  when the helper holds no table. \<^verbatim>\<open>addTable\<close> and \<^verbatim>\<open>buildScan\<close> are not in the
  source file: the scan has one column per requested ordinal, in that order.
\<close>

definition buildOtherTableScan ::
  "fkCheckHelper \<Rightarrow> mutationBuilder \<Rightarrow>
   error + ((ColumnID list \<times> RelExpr \<times> TableID) \<times> mutationBuilder)" where
  "buildOtherTableScan h mb =
     (case otherTab h of
        None \<Rightarrow> Inl RuntimeNilError
      | Some t \<Rightarrow>
          (case AddTable (md mb) t of (tid, md1) \<Rightarrow>
             Inr ((map (ColumnID tid) (otherTabOrdinals h), ScanExpr tid (otherTabOrdinals h), tid),
                  mb\<lparr>md := md1\<rparr>)))"

definition isNotNull :: "ColumnID \<Rightarrow> ScalarExpr" where
  "isNotNull c = IsNotExpr (VariableExpr c) NullSingleton"

text \<open>The MATCH FULL condition loop: \<open>None\<close> is the nil condition before the first column.\<close>

fun orChain :: "ScalarExpr option \<Rightarrow> ColumnID list \<Rightarrow> ScalarExpr option" where
  "orChain condition [] = condition"
| "orChain condition (c # rest) =
     orChain (case condition of None \<Rightarrow> Some (isNotNull c)
              | Some cond \<Rightarrow> Some (OrExpr cond (isNotNull c))) rest"

text \<open>The join filters \<open>left[j] = right[j]\<close> for \<open>j < n\<close>; reading past the scan's columns panics.\<close>

definition joinFilters :: "nat \<Rightarrow> ColumnID list \<Rightarrow> ColumnID list \<Rightarrow> error + ScalarExpr list" where
  "joinFilters n leftCols scanCols =
     (if length scanCols < n then Inl RuntimeIndexError
      else Inr (map (\<lambda>j. EqExpr (VariableExpr (leftCols ! j)) (VariableExpr (scanCols ! j))) [0..<n]))"

definition insertionFilter ::
  "CompositeKeyMatchMethod \<Rightarrow> RelExpr \<Rightarrow> ColumnID list \<Rightarrow> ColumnID set \<Rightarrow> error + RelExpr" where
  "insertionFilter m fkInput withScanCols notNullWithScanCols =
     (if card notNullWithScanCols < length withScanCols then
        (case m of
           MatchSimple \<Rightarrow>
             Inr (SelectExpr fkInput
                    (map isNotNull (filter (\<lambda>c. c \<notin> notNullWithScanCols) withScanCols)))
         | MatchFull \<Rightarrow>
             if notNullWithScanCols \<noteq> {} then Inr fkInput
             else (case orChain None withScanCols of
                     None \<Rightarrow> Inl RuntimeNilError
                   | Some condition \<Rightarrow> Inr (SelectExpr fkInput [condition]))
         | MatchPartial \<Rightarrow> Inl (AssertionFailed ''match method not supported''))
      else Inr fkInput)"

text \<open>\<^verbatim>\<open>addInsertionCheck\<close>: the result of \<^verbatim>\<open>initWithOutboundFK\<close> is not looked at.\<close>

definition addInsertionCheck :: "mutationBuilder \<Rightarrow> nat \<Rightarrow> error + mutationBuilder" where
  "addInsertionCheck mb fkOrd =
     (case initWithOutboundFK mb fkOrd of Inl e \<Rightarrow> Inl e | Inr (ok, h) \<Rightarrow>
     (case makeFKInputScan h fkInputScanNewVals mb of
        Inl e \<Rightarrow> Inl e
      | Inr ((fkInput, withScanCols, notNullWithScanCols), mb1) \<Rightarrow>
     (case insertionFilter (MatchMethod (fk h)) fkInput withScanCols notNullWithScanCols of
        Inl e \<Rightarrow> Inl e
      | Inr fkInput1 \<Rightarrow>
     (case buildOtherTableScan h mb1 of
        Inl e \<Rightarrow> Inl e
      | Inr ((scanCols, scanExpr, refTabMeta), mb2) \<Rightarrow>
     (case joinFilters (length withScanCols) withScanCols scanCols of
        Inl e \<Rightarrow> Inl e
      | Inr antiJoinFilters \<Rightarrow>
          Inr (mb2\<lparr>checks := checks mb2 @
                 [\<lparr>Check = AntiJoinExpr fkInput1 scanExpr antiJoinFilters,
                   OriginTable = tabID mb2, ReferencedTable = refTabMeta,
                   FKOutbound = True, FKOrdinal = fkOrd,
                   KeyCols = withScanCols, OpName = opName mb2\<rparr>]\<rparr>))))))"

definition addDeletionCheck ::
  "fkCheckHelper \<Rightarrow> RelExpr \<Rightarrow> ColumnID list \<Rightarrow> mutationBuilder \<Rightarrow> error + mutationBuilder" where
  "addDeletionCheck h deletedRows deleteCols mb =
     (case buildOtherTableScan h mb of
        Inl e \<Rightarrow> Inl e
      | Inr ((scanCols, scanExpr, origTabMeta), mb1) \<Rightarrow>
     (case joinFilters (length deleteCols) deleteCols scanCols of
        Inl e \<Rightarrow> Inl e
      | Inr semiJoinFilters \<Rightarrow>
          Inr (mb1\<lparr>checks := checks mb1 @
                 [\<lparr>Check = SemiJoinExpr deletedRows scanExpr semiJoinFilters,
                   OriginTable = origTabMeta, ReferencedTable = tabID mb1,
                   FKOutbound = False, FKOrdinal = fkOrdinal h,
                   KeyCols = deleteCols, OpName = opName mb1\<rparr>]\<rparr>)))"

fun anyUpdated :: "scopeOrdinal list \<Rightarrow> nat list \<Rightarrow> error + bool" where
  "anyUpdated ords [] = Inr False"
| "anyUpdated ords (ord # rest) =
     (case ordAt ords ord of Inl e \<Rightarrow> Inl e | Inr v \<Rightarrow>
      if v \<noteq> - 1 then Inr True else anyUpdated ords rest)"

definition outboundFKColsUpdated :: "mutationBuilder \<Rightarrow> nat \<Rightarrow> error + bool" where
  "outboundFKColsUpdated mb i =
     (case fkAt (OutboundFKs (tab mb)) i of Inl e \<Rightarrow> Inl e | Inr f \<Rightarrow>
      anyUpdated (updateOrds mb) (map fst (FKColumns f)))"

definition inboundFKColsUpdated :: "mutationBuilder \<Rightarrow> nat \<Rightarrow> error + bool" where
  "inboundFKColsUpdated mb i =
     (case fkAt (InboundFKs (tab mb)) i of Inl e \<Rightarrow> Inl e | Inr f \<Rightarrow>
      anyUpdated (updateOrds mb) (map snd (FKColumns f)))"

definition isRestrict :: "ReferenceAction \<Rightarrow> bool" where
  "isRestrict a = (a = Restrict \<or> a = NoAction)"

subsection \<open>Insert\<close>

fun insertionChecks :: "nat list \<Rightarrow> mutationBuilder \<Rightarrow> error + mutationBuilder" where
  "insertionChecks [] mb = Inr mb"
| "insertionChecks (i # rest) mb =
     (case addInsertionCheck mb i of Inl e \<Rightarrow> Inl e | Inr mb1 \<Rightarrow> insertionChecks rest mb1)"

definition reserveWithID :: "mutationBuilder \<Rightarrow> mutationBuilder" where
  "reserveWithID mb = (case NextWithID (md mb) of (w, md1) \<Rightarrow> mb\<lparr>md := md1, withID := w\<rparr>)"

definition buildFKChecksForInsert :: "mutationBuilder \<Rightarrow> error + mutationBuilder" where
  "buildFKChecksForInsert mb =
     (if length (OutboundFKs (tab mb)) = 0 then Inr mb
      else if \<not> OptimizerFKs (bld mb) then Inr (mb\<lparr>fkFallback := True\<rparr>)
      else insertionChecks [0..<length (OutboundFKs (tab mb))] (reserveWithID mb))"

subsection \<open>Delete\<close>

fun deletionChecks :: "nat list \<Rightarrow> mutationBuilder \<Rightarrow> error + mutationBuilder" where
  "deletionChecks [] mb = Inr mb"
| "deletionChecks (i # rest) mb =
     (case initWithInboundFK mb i of Inl e \<Rightarrow> Inl e | Inr (ok, h) \<Rightarrow>
      if \<not> ok then deletionChecks rest mb
      else if \<not> isRestrict (DeleteReferenceAction (fk h))
        then Inr (mb\<lparr>checks := [], fkFallback := True\<rparr>)
      else (case makeFKInputScan h fkInputScanFetchedVals mb of
              Inl e \<Rightarrow> Inl e
            | Inr ((fkInput, withScanCols, notNull), mb1) \<Rightarrow>
                (case addDeletionCheck h fkInput withScanCols mb1 of
                   Inl e \<Rightarrow> Inl e
                 | Inr mb2 \<Rightarrow> deletionChecks rest mb2)))"

definition buildFKChecksForDelete :: "mutationBuilder \<Rightarrow> error + mutationBuilder" where
  "buildFKChecksForDelete mb =
     (if length (InboundFKs (tab mb)) = 0 then Inr mb
      else if \<not> OptimizerFKs (bld mb) then Inr (mb\<lparr>fkFallback := True\<rparr>)
      else deletionChecks [0..<length (InboundFKs (tab mb))] (reserveWithID mb))"

subsection \<open>Update and upsert\<close>

fun updateInsertionChecks :: "nat list \<Rightarrow> mutationBuilder \<Rightarrow> error + mutationBuilder" where
  "updateInsertionChecks [] mb = Inr mb"
| "updateInsertionChecks (i # rest) mb =
     (case outboundFKColsUpdated mb i of Inl e \<Rightarrow> Inl e | Inr upd \<Rightarrow>
      if upd then
        (case addInsertionCheck mb i of Inl e \<Rightarrow> Inl e | Inr mb1 \<Rightarrow> updateInsertionChecks rest mb1)
      else updateInsertionChecks rest mb)"

text \<open>
  The set difference between the old and the new values of the key:
  \<^verbatim>\<open>ConstructExcept(oldRows, newRows, {LeftCols, RightCols, OutCols})\<close>.
\<close>

definition deletedRowsExcept ::
  "fkCheckHelper \<Rightarrow> mutationBuilder \<Rightarrow>
   error + ((RelExpr \<times> ColumnID list) \<times> mutationBuilder)" where
  "deletedRowsExcept h mb =
     (case makeFKInputScan h fkInputScanFetchedVals mb of
        Inl e \<Rightarrow> Inl e
      | Inr ((oldRows, colsForOldRow, nn1), mb1) \<Rightarrow>
     (case makeFKInputScan h fkInputScanNewVals mb1 of
        Inl e \<Rightarrow> Inl e
      | Inr ((newRows, colsForNewRow, nn2), mb2) \<Rightarrow>
          Inr ((ExceptExpr oldRows newRows colsForOldRow colsForNewRow colsForOldRow,
                colsForOldRow), mb2)))"

text \<open>
  The loop over the inbound foreign keys, which \<^verbatim>\<open>buildFKChecksForUpdate\<close> and
  \<^verbatim>\<open>buildFKChecksForUpsert\<close> both contain with the same body.
\<close>

fun updateDeletionChecks :: "nat list \<Rightarrow> mutationBuilder \<Rightarrow> error + mutationBuilder" where
  "updateDeletionChecks [] mb = Inr mb"
| "updateDeletionChecks (i # rest) mb =
     (case inboundFKColsUpdated mb i of Inl e \<Rightarrow> Inl e | Inr upd \<Rightarrow>
      if \<not> upd then updateDeletionChecks rest mb
      else (case initWithInboundFK mb i of Inl e \<Rightarrow> Inl e | Inr (ok, h) \<Rightarrow>
        if \<not> ok then updateDeletionChecks rest mb
        else if \<not> isRestrict (UpdateReferenceAction (fk h))
          then Inr (mb\<lparr>checks := [], fkFallback := True\<rparr>)
        else (case deletedRowsExcept h mb of
                Inl e \<Rightarrow> Inl e
              | Inr ((deletedRows, colsForOldRow), mb1) \<Rightarrow>
                  (case addDeletionCheck h deletedRows colsForOldRow mb1 of
                     Inl e \<Rightarrow> Inl e
                   | Inr mb2 \<Rightarrow> updateDeletionChecks rest mb2))))"

definition buildFKChecksForUpdate :: "mutationBuilder \<Rightarrow> error + mutationBuilder" where
  "buildFKChecksForUpdate mb =
     (if length (OutboundFKs (tab mb)) = 0 \<and> length (InboundFKs (tab mb)) = 0 then Inr mb
      else if \<not> OptimizerFKs (bld mb) then Inr (mb\<lparr>fkFallback := True\<rparr>)
      else (case updateInsertionChecks [0..<length (OutboundFKs (tab mb))] (reserveWithID mb) of
              Inl e \<Rightarrow> Inl e
            | Inr mb1 \<Rightarrow> updateDeletionChecks [0..<length (InboundFKs (tab mb1))] mb1))"

definition buildFKChecksForUpsert :: "mutationBuilder \<Rightarrow> error + mutationBuilder" where
  "buildFKChecksForUpsert mb =
     (if length (OutboundFKs (tab mb)) = 0 \<and> length (InboundFKs (tab mb)) = 0 then Inr mb
      else if \<not> OptimizerFKs (bld mb) then Inr (mb\<lparr>fkFallback := True\<rparr>)
      else (case insertionChecks [0..<length (OutboundFKs (tab mb))] (reserveWithID mb) of
              Inl e \<Rightarrow> Inl e
            | Inr mb1 \<Rightarrow> updateDeletionChecks [0..<length (InboundFKs (tab mb1))] mb1))"

section \<open>Rows of the check inputs\<close>

text \<open>
  Modelled from the spec: the execution of a plan is not in the source file. A row of the
  buffered mutation input binds column identifiers to values, \<open>None\<close> being NULL. A
  with-scan projects the buffered rows on its input columns; a selection keeps the rows on
  which every filter is true (\<^verbatim>\<open>IS NOT NULL\<close> is true on a non-null value, a disjunction is
  true when a disjunct is, an equality is true on two equal non-null values); an except keeps,
  without duplicates, the left rows that are no right row ("set difference, by value"). Scans
  of other tables and joins need the other table's rows and are not evaluated here.
\<close>

type_synonym Datum = "int option"

definition rowEnv :: "ColumnID list \<Rightarrow> Datum list \<Rightarrow> ColumnID \<Rightarrow> Datum" where
  "rowEnv cs row c = (case map_of (zip cs row) c of Some d \<Rightarrow> d | None \<Rightarrow> None)"

fun filterTrue :: "(ColumnID \<Rightarrow> Datum) \<Rightarrow> ScalarExpr \<Rightarrow> bool" where
  "filterTrue r (IsNotExpr (VariableExpr c) NullSingleton) = (r c \<noteq> None)"
| "filterTrue r (OrExpr a b) = (filterTrue r a \<or> filterTrue r b)"
| "filterTrue r (EqExpr (VariableExpr a) (VariableExpr b)) = (r a \<noteq> None \<and> r a = r b)"
| "filterTrue r e = False"

fun relCols :: "RelExpr \<Rightarrow> ColumnID list" where
  "relCols (WithScanExpr w ins outs u) = outs"
| "relCols (SelectExpr e fs) = relCols e"
| "relCols (ExceptExpr l r lc rc oc) = oc"
| "relCols (ScanExpr t ords) = map (ColumnID t) ords"
| "relCols (AntiJoinExpr l r fs) = relCols l"
| "relCols (SemiJoinExpr l r fs) = relCols l"

fun evalRel :: "(ColumnID \<Rightarrow> Datum) list \<Rightarrow> RelExpr \<Rightarrow> Datum list list option" where
  "evalRel buf (WithScanExpr w ins outs u) = Some (map (\<lambda>r. map r ins) buf)"
| "evalRel buf (SelectExpr e fs) =
     (case evalRel buf e of
        None \<Rightarrow> None
      | Some rows \<Rightarrow> Some (filter (\<lambda>row. list_all (filterTrue (rowEnv (relCols e) row)) fs) rows))"
| "evalRel buf (ExceptExpr l r lc rc oc) =
     (case evalRel buf l of None \<Rightarrow> None | Some ls \<Rightarrow>
     (case evalRel buf r of None \<Rightarrow> None | Some rs \<Rightarrow>
        Some (remdups (filter (\<lambda>row. row \<notin> set (map (\<lambda>x. map (rowEnv (relCols r) x) rc) rs))
                         (map (\<lambda>x. map (rowEnv (relCols l) x) lc) ls)))))"
| "evalRel buf e = None"

section \<open>Invariants and example statements\<close>

text \<open>The role arrays have one entry per table column, as \<^verbatim>\<open>init\<close> allocates them.\<close>

definition wfOrds :: "mutationBuilder \<Rightarrow> bool" where
  "wfOrds mb = (length (insertOrds mb) = DeletableColumnCount (tab mb) \<and>
                length (fetchOrds mb) = DeletableColumnCount (tab mb) \<and>
                length (updateOrds mb) = DeletableColumnCount (tab mb) \<and>
                length (upsertOrds mb) = DeletableColumnCount (tab mb))"

text \<open>The target list has no duplicates and the target set holds the same identifiers.\<close>

definition targetsOK :: "mutationBuilder \<Rightarrow> bool" where
  "targetsOK mb = (targetColSet mb = set (targetColList mb) \<and> distinct (targetColList mb))"

text \<open>
  A table \<open>t(x, y, z)\<close> with a mutation column \<open>w\<close>: \<open>x\<close> is a \<^verbatim>\<open>DECIMAL(10,2)\<close>, \<open>y\<close>
  has the default \<^verbatim>\<open>42\<close>, \<open>z\<close> is computed as \<^verbatim>\<open>x + y\<close> into a \<^verbatim>\<open>DECIMAL(5,1)\<close>.
\<close>

definition exCol :: "string \<Rightarrow> Column" where
  "exCol name = \<lparr>ColName = name, IsComputed = False, HasDefault = False, ComputedExprStr = [],
                 DefaultExprStr = [], DatumType = OtherT 0, ColTypePrecision = 0,
                 ColTypeWidth = 0, IsNullable = True\<rparr>"

definition exTab :: Table where
  "exTab = \<lparr>TabName = ''t'',
            Columns = [(exCol ''x'')\<lparr>DatumType := Decimal, ColTypePrecision := 10, ColTypeWidth := 2\<rparr>,
                       (exCol ''y'')\<lparr>HasDefault := True, DefaultExprStr := ''42''\<rparr>,
                       (exCol ''z'')\<lparr>IsComputed := True, ComputedExprStr := ''x + y'',
                                     DatumType := Decimal, ColTypePrecision := 5, ColTypeWidth := 1\<rparr>,
                       exCol ''w''],
            ColumnCount = 3, WritableColumnCount = 4, CheckCount = 0,
            OutboundFKs = [], InboundFKs = []\<rparr>"

definition exMd :: Metadata where
  "exMd = \<lparr>mdNumCols = 0, mdNumTables = 0, mdCurUniqueID = 0, mdCurWithID = 0\<rparr>"

text \<open>
  A catalog in which table \<open>7\<close> is being added and every other table resolves to \<open>exTab\<close>;
  the parser returns the text as a tree.
\<close>

definition exBuilder :: Builder where
  "exBuilder = \<lparr>OptimizerFKs = True,
                ResolveDataSourceByID = (\<lambda>i. if i = 7 then ResolveFailed True else ResolveOK exTab),
                HasPrivilege = (\<lambda>i. True),
                ParseExpr = (\<lambda>s. Inr (ExprNode s))\<rparr>"

definition exScope :: scope where
  "exScope = \<lparr>cols = map (\<lambda>i. \<lparr>scName = [], scTyp = OtherT 0, scId = i, scScalar = None\<rparr>) [1, 2, 3, 4, 5],
              NotNullCols = {}\<rparr>"

text \<open>
  \<^verbatim>\<open>UPDATE t SET y = 10\<close>: every column is fetched (scope columns 0 to 3) and \<open>y\<close> has
  the update value in scope column 4.
\<close>

definition exUpdate :: mutationBuilder where
  "exUpdate = (init exBuilder exMd ''update'' exTab)
                \<lparr>outScope := exScope, fetchOrds := [0, 1, 2, 3], updateOrds := [- 1, 4, - 1, - 1]\<rparr>"

text \<open>The stored expression text of a column: the computed expression wins over the default.\<close>

definition exprText :: "Column \<Rightarrow> string" where
  "exprText c = (if IsComputed c then ComputedExprStr c else DefaultExprStr c)"

text \<open>
  The state of the cache of parsed expressions: an ordinal has an entry exactly when its text
  was handed to the parser, no ordinal was parsed twice, and an entry is the parser's result
  for the text of a computed or defaulted column.
\<close>

definition cacheOK :: "mutationBuilder \<Rightarrow> bool" where
  "cacheOK mb =
     (distinct (parseLog mb) \<and>
      (case parsedExprs mb of
         None \<Rightarrow> parseLog mb = []
       | Some cache \<Rightarrow>
           length cache = DeletableColumnCount (tab mb) \<and>
           (\<forall>ord < length cache.
              (cache ! ord = None \<longleftrightarrow> ord \<notin> set (parseLog mb)) \<and>
              (\<forall>e. cache ! ord = Some e \<longrightarrow>
                 (IsComputed (Columns (tab mb) ! ord) \<or> HasDefault (Columns (tab mb) ! ord)) \<and>
                 ParseExpr (bld mb) (exprText (Columns (tab mb) ! ord)) = Inr e))))"

text \<open>Only the cache and the parse log differ between the two states.\<close>

definition sameButCache :: "mutationBuilder \<Rightarrow> mutationBuilder \<Rightarrow> bool" where
  "sameButCache mb mb' = (mb' = mb\<lparr>parsedExprs := parsedExprs mb', parseLog := parseLog mb'\<rparr>)"

text \<open>
  The expression that stands for DEFAULT in a column: the parser's tree for the stored text
  of a computed or defaulted column, NULL for any other column.
\<close>

definition defaultExprOf :: "mutationBuilder \<Rightarrow> ColumnID \<Rightarrow> Expr" where
  "defaultExprOf mb colID =
     (let col = Columns (tab mb) ! (colID - firstColID (tabID mb)) in
      if IsComputed col \<or> HasDefault col then
        (case ParseExpr (bld mb) (exprText col) of Inr e \<Rightarrow> e | Inl err \<Rightarrow> DNull)
      else DNull)"

text \<open>A tuple with every top-level DEFAULT replaced, position by position.\<close>

definition replacedTuple :: "mutationBuilder \<Rightarrow> Expr list \<Rightarrow> Expr list" where
  "replacedTuple mb tuple =
     map (\<lambda>(i, v). if v = DefaultVal then defaultExprOf mb (targetColList mb ! i) else v)
       (zip [0..<length tuple] tuple)"

text \<open>
  States reached by a sequence of successful calls of \<^verbatim>\<open>parseDefaultOrComputedExpr\<close>,
  as the statement's builders make them.
\<close>

inductive parseCalls :: "mutationBuilder \<Rightarrow> mutationBuilder \<Rightarrow> bool" where
  parseCalls_refl: "parseCalls mb mb"
| parseCalls_step:
    "parseCalls mb mb1 \<Longrightarrow> parseDefaultOrComputedExpr mb1 c = Inr (e, mb2) \<Longrightarrow> parseCalls mb mb2"

text \<open>\<^verbatim>\<open>INSERT INTO t (x, y) VALUES ...\<close>: the targets are \<open>x\<close> and \<open>y\<close>.\<close>

definition exInsert :: mutationBuilder where
  "exInsert = (init exBuilder exMd ''insert'' exTab)\<lparr>targetColList := [1, 2], targetColSet := {1, 2}\<rparr>"

text \<open>Some tuple of the VALUES rows holds a top-level DEFAULT.\<close>

definition hasDefault :: "Expr list list \<Rightarrow> bool" where
  "hasDefault rows = (\<exists>t \<in> set rows. DefaultVal \<in> set t)"

text \<open>\<^verbatim>\<open>VALUES (1, DEFAULT), (DEFAULT, 2)\<close>.\<close>

definition exValues :: Select where
  "exValues = Select None None None
     (ValuesClause [[ExprNode ''1'', DefaultVal], [DefaultVal, ExprNode ''2'']])"

text \<open>The cache holds the tree \<open>e\<close> for the table ordinal \<open>ord\<close>.\<close>

definition cachedExpr :: "mutationBuilder \<Rightarrow> nat \<Rightarrow> Expr \<Rightarrow> bool" where
  "cachedExpr mb ord e =
     (case parsedExprs mb of None \<Rightarrow> False | Some cache \<Rightarrow> ord < length cache \<and> cache ! ord = Some e)"

text \<open>The example statement after the default of \<open>y\<close> was parsed.\<close>

definition exInsertParsed :: mutationBuilder where
  "exInsertParsed = exInsert\<lparr>parsedExprs := Some [None, Some (ExprNode ''42''), None, None],
                              parseLog := [1]\<rparr>"

text \<open>The declared type is a DECIMAL or DECIMAL array with a limited precision.\<close>

definition needsRounding :: "Column \<Rightarrow> bool" where
  "needsRounding col =
     (ColTypePrecision col \<noteq> 0 \<and> (DatumType col = Decimal \<or> DatumType col = DecimalArray))"

text \<open>
  In a pass over \<open>scopeOrds\<close> with the flag \<open>rcc\<close>, the table column \<open>i\<close> is mutated through
  the scope column \<open>j\<close>, is computed exactly when the flag says so, and needs rounding.
\<close>

definition roundsCol :: "mutationBuilder \<Rightarrow> scopeOrdinal list \<Rightarrow> bool \<Rightarrow> nat \<Rightarrow> nat \<Rightarrow> bool" where
  "roundsCol mb scopeOrds rcc i j =
     (i < length scopeOrds \<and> scopeOrds ! i = int j \<and> i < length (Columns (tab mb)) \<and>
      IsComputed (Columns (tab mb) ! i) = rcc \<and> needsRounding (Columns (tab mb) ! i))"

text \<open>
  The scope column \<open>c'\<close> is \<open>c\<close> wrapped in the rounding function for the table column
  \<open>col\<close>: same name and type, and the scalar is the call on the old column with the
  column's \<^verbatim>\<open>ColTypeWidth\<close> (the declared scale of a DECIMAL) as second argument.
\<close>

definition roundedFrom :: "scopeColumn \<Rightarrow> scopeColumn \<Rightarrow> Column \<Rightarrow> bool" where
  "roundedFrom c' c col =
     (scName c' = scName c \<and> scTyp c' = scTyp c \<and>
      scScalar c' =
        Some (FunctionExpr ''crdb_internal.round_decimal_values''
                [VariableExpr (scId c), ConstExpr (ColTypeWidth col)] (scTyp c)
                (if DatumType col = Decimal then 0 else 1)))"

text \<open>What one pass of the projector does to the scope.\<close>

definition roundingPass ::
  "mutationBuilder \<Rightarrow> scopeOrdinal list \<Rightarrow> bool \<Rightarrow> mutationBuilder \<Rightarrow> bool" where
  "roundingPass mb scopeOrds rcc mb' =
     (tab mb' = tab mb \<and>
      length (cols (outScope mb')) = length (cols (outScope mb)) \<and>
      (\<forall>j < length (cols (outScope mb)).
         if \<exists>i. roundsCol mb scopeOrds rcc i j
         then \<exists>i. roundsCol mb scopeOrds rcc i j \<and>
                  roundedFrom (cols (outScope mb') ! j) (cols (outScope mb) ! j) (Columns (tab mb) ! i)
         else cols (outScope mb') ! j = cols (outScope mb) ! j))"

text \<open>
  \<^verbatim>\<open>INSERT INTO t VALUES (...)\<close> after the computed column was synthesized: \<open>x\<close>, \<open>y\<close> and
  \<open>z\<close> take their values from the scope columns 0, 1 and 2; \<open>w\<close> is not mutated.
\<close>

definition exRound :: mutationBuilder where
  "exRound = (init exBuilder exMd ''insert'' exTab)
               \<lparr>md := exMd\<lparr>mdNumCols := 9\<rparr>,
                outScope := \<lparr>cols = [\<lparr>scName = ''x'', scTyp = Decimal, scId = 5, scScalar = None\<rparr>,
                                      \<lparr>scName = ''y'', scTyp = OtherT 0, scId = 6, scScalar = None\<rparr>,
                                      \<lparr>scName = ''z'', scTyp = Decimal, scId = 7, scScalar = None\<rparr>],
                             NotNullCols = {}\<rparr>,
                insertOrds := [0, 1, 2, - 1]\<rparr>"

text \<open>The example after both rounding passes: \<open>x\<close> is rounded to scale 2, then \<open>z\<close> to scale 1.\<close>

definition exRounded :: mutationBuilder where
  "exRounded = exRound
     \<lparr>md := exMd\<lparr>mdNumCols := 11\<rparr>,
      outScope := \<lparr>cols = [\<lparr>scName = ''x'', scTyp = Decimal, scId = 10,
                              scScalar = Some (FunctionExpr ''crdb_internal.round_decimal_values''
                                                 [VariableExpr 5, ConstExpr 2] Decimal 0)\<rparr>,
                            \<lparr>scName = ''y'', scTyp = OtherT 0, scId = 6, scScalar = None\<rparr>,
                            \<lparr>scName = ''z'', scTyp = Decimal, scId = 11,
                              scScalar = Some (FunctionExpr ''crdb_internal.round_decimal_values''
                                                 [VariableExpr 7, ConstExpr 1] Decimal 0)\<rparr>],
                   NotNullCols = {}\<rparr>\<rparr>"

text \<open>Only the metadata, the check list and the fallback flag differ between the two states.\<close>

definition sameButFK :: "mutationBuilder \<Rightarrow> mutationBuilder \<Rightarrow> bool" where
  "sameButFK mb mb' =
     (mb' = mb\<lparr>md := md mb', checks := checks mb', fkFallback := fkFallback mb'\<rparr>)"

text \<open>
  \<open>scan\<close> is the with-scan that \<^verbatim>\<open>makeFKInputScan\<close> builds over the table ordinals
  \<open>ords\<close>: it reads the buffered input under the statement's binding, its input columns are
  the new or the fetched values of the key columns, its output columns are fresh and
  pairwise different, and \<open>nn\<close> holds the output columns taken as not null.
\<close>

definition inputScanOf ::
  "mutationBuilder \<Rightarrow> fkInputScanType \<Rightarrow> nat list \<Rightarrow> RelExpr \<Rightarrow> ColumnID list \<Rightarrow> ColumnID set \<Rightarrow> bool" where
  "inputScanOf mb typ ords scan outs nn =
     (\<exists>ins uid. scan = WithScanExpr (withID mb) ins outs uid \<and>
        length ins = length ords \<and> length outs = length ords \<and> distinct outs \<and>
        nn \<subseteq> set outs \<and>
        (\<forall>k < length ords.
           fkInputCol mb typ (ords ! k) = Inr (ins ! k) \<and> ins ! k \<noteq> 0 \<and>
           fkColNotNull mb (ins ! k) (ords ! k) = Inr (outs ! k \<in> nn)))"


text \<open>
  A table \<open>child(p, q)\<close> with the foreign key \<open>child(p, q) \<rightarrow> t(x, y)\<close>, \<open>q\<close>
  nullable or not, and an insert into it whose input columns have the identifiers 3 and 4.
\<close>

definition exFK :: ForeignKeyConstraint where
  "exFK = \<lparr>OriginTableID = 1, ReferencedTableID = 2, FKColumns = [(0, 0), (1, 1)],
           MatchMethod = MatchSimple, DeleteReferenceAction = NoAction,
           UpdateReferenceAction = NoAction\<rparr>"

definition exChildTab :: "bool \<Rightarrow> Table" where
  "exChildTab qNullable =
     \<lparr>TabName = ''child'',
      Columns = [exCol ''p'', (exCol ''q'')\<lparr>IsNullable := qNullable\<rparr>],
      ColumnCount = 2, WritableColumnCount = 2, CheckCount = 0,
      OutboundFKs = [exFK], InboundFKs = []\<rparr>"

definition exChildInsert :: "ForeignKeyConstraint \<Rightarrow> bool \<Rightarrow> mutationBuilder" where
  "exChildInsert f qNullable =
     (init exBuilder exMd ''insert'' ((exChildTab qNullable)\<lparr>OutboundFKs := [f]\<rparr>))
       \<lparr>md := \<lparr>mdNumCols = 4, mdNumTables = 1, mdCurUniqueID = 0, mdCurWithID = 0\<rparr>,
        outScope := \<lparr>cols = [\<lparr>scName = ''column1'', scTyp = OtherT 0, scId = 3, scScalar = None\<rparr>,
                              \<lparr>scName = ''column2'', scTyp = OtherT 0, scId = 4, scScalar = None\<rparr>],
                     NotNullCols = {}\<rparr>,
        insertOrds := [0, 1]\<rparr>"

text \<open>The insertion check that \<^verbatim>\<open>addInsertionCheck\<close> builds for the example foreign key.\<close>

definition exInsertionCheck :: "RelExpr \<Rightarrow> FKChecksItem" where
  "exInsertionCheck input =
     \<lparr>Check = AntiJoinExpr input (ScanExpr \<lparr>tabIndex = 2, firstColID = 7\<rparr> [0, 1])
                [EqExpr (VariableExpr 5) (VariableExpr 7), EqExpr (VariableExpr 6) (VariableExpr 8)],
      OriginTable = \<lparr>tabIndex = 1, firstColID = 1\<rparr>,
      ReferencedTable = \<lparr>tabIndex = 2, firstColID = 7\<rparr>,
      FKOutbound = True, FKOrdinal = 0, KeyCols = [5, 6], OpName = ''insert''\<rparr>"

definition exChecked :: "ForeignKeyConstraint \<Rightarrow> bool \<Rightarrow> RelExpr \<Rightarrow> mutationBuilder" where
  "exChecked f qNullable input =
     (exChildInsert f qNullable)
       \<lparr>md := \<lparr>mdNumCols = 10, mdNumTables = 2, mdCurUniqueID = 1, mdCurWithID = 1\<rparr>,
        checks := [exInsertionCheck input], withID := 1\<rparr>"



text \<open>
  The inbound foreign key \<open>i\<close> exists and its origin table resolves; for an update or
  upsert it is relevant when, in addition, one of its referenced columns is in the update role.
\<close>

definition relevantInbound :: "mutationBuilder \<Rightarrow> nat \<Rightarrow> bool" where
  "relevantInbound mb i =
     (i < length (InboundFKs (tab mb)) \<and>
      (\<exists>t. ResolveDataSourceByID (bld mb) (OriginTableID (InboundFKs (tab mb) ! i)) = ResolveOK t))"

definition relevantUpdate :: "mutationBuilder \<Rightarrow> nat \<Rightarrow> bool" where
  "relevantUpdate mb i = (relevantInbound mb i \<and> inboundFKColsUpdated mb i = Inr True)"

text \<open>
  The deletion check of an update for an inbound foreign key: a semi-join whose input is the
  set difference of the with-scan over the fetched values and the with-scan over the new
  values of the referenced columns.
\<close>

definition updateDeletionCheck :: "mutationBuilder \<Rightarrow> FKChecksItem \<Rightarrow> bool" where
  "updateDeletionCheck mb c =
     (\<not> FKOutbound c \<and> relevantUpdate mb (FKOrdinal c) \<and>
      isRestrict (UpdateReferenceAction (InboundFKs (tab mb) ! FKOrdinal c)) \<and>
      (\<exists>oldRows newRows oldCols newCols nn1 nn2 scan fs.
         inputScanOf mb fkInputScanFetchedVals
           (map snd (FKColumns (InboundFKs (tab mb) ! FKOrdinal c))) oldRows oldCols nn1 \<and>
         inputScanOf mb fkInputScanNewVals
           (map snd (FKColumns (InboundFKs (tab mb) ! FKOrdinal c))) newRows newCols nn2 \<and>
         Check c = SemiJoinExpr (ExceptExpr oldRows newRows oldCols newCols oldCols) scan fs \<and>
         KeyCols c = oldCols))"

text \<open>
  A table \<open>parent(k, v)\<close> referenced by two foreign keys: \<open>c1(a) \<rightarrow> parent(k)\<close> with the
  actions NO ACTION, and \<open>c2(a) \<rightarrow> parent(v)\<close> with the actions CASCADE.
\<close>

definition exParentTab :: Table where
  "exParentTab =
     \<lparr>TabName = ''parent'',
      Columns = [(exCol ''k'')\<lparr>IsNullable := False\<rparr>, exCol ''v''],
      ColumnCount = 2, WritableColumnCount = 2, CheckCount = 0,
      OutboundFKs = [],
      InboundFKs = [\<lparr>OriginTableID = 3, ReferencedTableID = 1, FKColumns = [(0, 0)],
                     MatchMethod = MatchSimple, DeleteReferenceAction = NoAction,
                     UpdateReferenceAction = NoAction\<rparr>,
                    \<lparr>OriginTableID = 4, ReferencedTableID = 1, FKColumns = [(0, 1)],
                     MatchMethod = MatchSimple, DeleteReferenceAction = Cascade,
                     UpdateReferenceAction = Cascade\<rparr>]\<rparr>"

text \<open>
  A statement on \<open>parent\<close> that fetches \<open>k\<close> and \<open>v\<close> into the scope columns 0 and 1 and
  has the given update role entries; the scope columns have the identifiers 3 to 6.
\<close>

definition exParent :: "string \<Rightarrow> scopeOrdinal list \<Rightarrow> mutationBuilder" where
  "exParent name upd =
     (init exBuilder exMd name exParentTab)
       \<lparr>md := \<lparr>mdNumCols = 6, mdNumTables = 1, mdCurUniqueID = 0, mdCurWithID = 0\<rparr>,
        outScope := \<lparr>cols = map (\<lambda>i. \<lparr>scName = [], scTyp = OtherT 0, scId = i, scScalar = None\<rparr>)
                              [3, 4, 5, 6],
                     NotNullCols = {}\<rparr>,
        fetchOrds := [0, 1], updateOrds := upd\<rparr>"

text \<open>
  A referenced column of the inbound foreign key \<open>i\<close> is in the update role: for some column
  pair of the key, the entry of \<^verbatim>\<open>updateOrds\<close> at the referenced ordinal is set.
\<close>

definition referencedColUpdated :: "mutationBuilder \<Rightarrow> nat \<Rightarrow> bool" where
  "referencedColUpdated mb i =
     (\<exists>p \<in> set (FKColumns (InboundFKs (tab mb) ! i)).
        snd p < length (updateOrds mb) \<and> updateOrds mb ! snd p \<noteq> - 1)"

text \<open>
  An update of \<open>parent(k, v)\<close> that sets \<open>v\<close> only (new value in scope column 3, identifier 6).
  The table is referenced by \<open>c3(a, b) \<rightarrow> parent(k, v)\<close> with the actions NO ACTION and by
  \<open>c4(a) \<rightarrow> parent(k)\<close> with the actions CASCADE.
\<close>

definition exPairParent :: mutationBuilder where
  "exPairParent =
     (exParent ''update'' [- 1, 3])
       \<lparr>tab := exParentTab
          \<lparr>InboundFKs :=
             [\<lparr>OriginTableID = 3, ReferencedTableID = 1, FKColumns = [(0, 0), (1, 1)],
               MatchMethod = MatchSimple, DeleteReferenceAction = NoAction,
               UpdateReferenceAction = NoAction\<rparr>,
              \<lparr>OriginTableID = 4, ReferencedTableID = 1, FKColumns = [(0, 0)],
               MatchMethod = MatchSimple, DeleteReferenceAction = Cascade,
               UpdateReferenceAction = Cascade\<rparr>]\<rparr>\<rparr>"

text \<open>
  Buffered rows of that update: \<open>k\<close> is column 3, the fetched \<open>v\<close> is column 4 and the new
  \<open>v\<close> is column 6. The first row sets \<open>v\<close> from 2 to 2, the second from 5 to 7.
\<close>

definition exPairRow :: "Datum \<Rightarrow> Datum \<Rightarrow> Datum \<Rightarrow> ColumnID \<Rightarrow> Datum" where
  "exPairRow k v v' c = (if c = 3 then k else if c = 4 then v else if c = 6 then v' else None)"

definition exPairBuf :: "(ColumnID \<Rightarrow> Datum) list" where
  "exPairBuf = [exPairRow (Some 1) (Some 2) (Some 2), exPairRow (Some 1) (Some 5) (Some 7)]"

section \<open>Verified properties\<close>

subsection \<open>Return and priority resolver\<close>

lemma wfOrds_init: "wfOrds (init b0 m0 name t)"
  by (simp add: wfOrds_def init_def Let_def split: prod.splits)

text \<open>
  C1. For a table column ordinal of the statement, \<^verbatim>\<open>mapToReturnScopeOrd\<close> returns the upsert
  entry if it is set, otherwise the update entry if set, otherwise the fetch entry if set,
  otherwise the insert entry if set; it returns unset (\<open>-1\<close>) exactly when none of the four
  roles references the column.
\<close>

theorem mapToReturnScopeOrd_priority:
  assumes "wfOrds mb" and "tabOrd < DeletableColumnCount (tab mb)"
  shows "mapToReturnScopeOrd mb tabOrd =
           Inr (if upsertOrds mb ! tabOrd \<noteq> - 1 then upsertOrds mb ! tabOrd
                else if updateOrds mb ! tabOrd \<noteq> - 1 then updateOrds mb ! tabOrd
                else if fetchOrds mb ! tabOrd \<noteq> - 1 then fetchOrds mb ! tabOrd
                else if insertOrds mb ! tabOrd \<noteq> - 1 then insertOrds mb ! tabOrd
                else - 1)
         \<and> (mapToReturnScopeOrd mb tabOrd = Inr (- 1) \<longleftrightarrow>
              upsertOrds mb ! tabOrd = - 1 \<and> updateOrds mb ! tabOrd = - 1 \<and>
              fetchOrds mb ! tabOrd = - 1 \<and> insertOrds mb ! tabOrd = - 1)"
  using assms by (auto simp: wfOrds_def mapToReturnScopeOrd_def ordAt_def)

lemma wfOrds_exUpdate: "wfOrds exUpdate"
  by (simp add: wfOrds_def exUpdate_def init_def exTab_def DeletableColumnCount_def Let_def
      split: prod.splits)

lemma DeletableColumnCount_exUpdate: "DeletableColumnCount (tab exUpdate) = 4"
  by (simp add: exUpdate_def init_def exTab_def DeletableColumnCount_def Let_def split: prod.splits)

theorem mapToReturnScopeOrd_priority_witness:
  "wfOrds exUpdate \<and> (1::nat) < DeletableColumnCount (tab exUpdate)
   \<and> mapToReturnScopeOrd exUpdate 1 = Inr 4
   \<and> mapToReturnScopeOrd exUpdate 1 \<noteq> Inr (- 1)"
proof -
  have h1: "wfOrds exUpdate" by (rule wfOrds_exUpdate)
  have h2: "(1::nat) < DeletableColumnCount (tab exUpdate)"
    by (simp add: DeletableColumnCount_exUpdate)
  have ords: "upsertOrds exUpdate = [- 1, - 1, - 1, - 1]" "updateOrds exUpdate = [- 1, 4, - 1, - 1]"
    by (simp_all add: exUpdate_def init_def exTab_def DeletableColumnCount_def Let_def
        split: prod.splits)
  from mapToReturnScopeOrd_priority [OF h1 h2] ords h1 h2 show ?thesis by simp
qed

subsection \<open>Target columns\<close>

lemma targetsOK_init: "targetsOK (init b0 m0 name t)"
  by (simp add: targetsOK_def init_def Let_def split: prod.splits)

lemma addTargetCol_targetsOK:
  "targetsOK mb \<Longrightarrow> addTargetCol mb ord = Inr mb' \<Longrightarrow> targetsOK mb'"
  by (auto simp: targetsOK_def addTargetCol_def Let_def split: sum.splits if_splits)

lemma addTargetColsByName_targetsOK:
  "targetsOK mb \<Longrightarrow> addTargetColsByName mb names = Inr mb' \<Longrightarrow> targetsOK mb'"
proof (induction names arbitrary: mb)
  case Nil
  then show ?case by simp
next
  case (Cons name names)
  then show ?case
    by (auto split: option.splits sum.splits dest: addTargetCol_targetsOK)
qed

text \<open>
  C7. \<^verbatim>\<open>addTargetCol\<close>, given a table column ordinal, fails with the backfill
  (protected column) error when the column is a mutation column, with the computed-column
  write error when it is computed, with the multiple-assignment (duplicate target) error when
  its identifier is already in the target set, and otherwise appends the identifier to the
  target list and adds it to the target set. The three tests run in this order, so a later
  failure is reported only when the earlier tests pass. Consequently a target list without
  duplicates stays without duplicates, and the list built from \<^verbatim>\<open>init\<close> by
  \<^verbatim>\<open>addTargetColsByName\<close> has none.
\<close>

theorem addTargetCol_errors_and_distinct:
  assumes "ord < DeletableColumnCount (tab mb)"
  shows "(IsMutationColumn (tab mb) ord \<longrightarrow>
            addTargetCol mb ord = Inl (BackfillError (ColName (Columns (tab mb) ! ord))))
       \<and> (\<not> IsMutationColumn (tab mb) ord \<and> IsComputed (Columns (tab mb) ! ord) \<longrightarrow>
            addTargetCol mb ord =
              Inl (CannotWriteToComputedColError (ColName (Columns (tab mb) ! ord))))
       \<and> (\<not> IsMutationColumn (tab mb) ord \<and> \<not> IsComputed (Columns (tab mb) ! ord) \<and>
            ColumnID (tabID mb) ord \<in> targetColSet mb \<longrightarrow>
            addTargetCol mb ord = Inl (MultipleAssignmentError (ColName (Columns (tab mb) ! ord))))
       \<and> (\<not> IsMutationColumn (tab mb) ord \<and> \<not> IsComputed (Columns (tab mb) ! ord) \<and>
            ColumnID (tabID mb) ord \<notin> targetColSet mb \<longrightarrow>
            addTargetCol mb ord =
              Inr (mb\<lparr>targetColSet := insert (ColumnID (tabID mb) ord) (targetColSet mb),
                      targetColList := targetColList mb @ [ColumnID (tabID mb) ord]\<rparr>))
       \<and> (\<forall>mb'. targetsOK mb \<and> addTargetCol mb ord = Inr mb' \<longrightarrow> targetsOK mb')
       \<and> (\<forall>b0 m0 name t names mb'.
            addTargetColsByName (init b0 m0 name t) names = Inr mb' \<longrightarrow>
            distinct (targetColList mb') \<and> targetColSet mb' = set (targetColList mb'))"
proof -
  have cases: "addTargetCol mb ord =
      (if IsMutationColumn (tab mb) ord then Inl (BackfillError (ColName (Columns (tab mb) ! ord)))
       else if IsComputed (Columns (tab mb) ! ord)
         then Inl (CannotWriteToComputedColError (ColName (Columns (tab mb) ! ord)))
       else if ColumnID (tabID mb) ord \<in> targetColSet mb
         then Inl (MultipleAssignmentError (ColName (Columns (tab mb) ! ord)))
       else Inr (mb\<lparr>targetColSet := insert (ColumnID (tabID mb) ord) (targetColSet mb),
                    targetColList := targetColList mb @ [ColumnID (tabID mb) ord]\<rparr>))"
    using assms by (simp add: addTargetCol_def tabColumn_def DeletableColumnCount_def Let_def)
  have inv: "\<forall>mb'. targetsOK mb \<and> addTargetCol mb ord = Inr mb' \<longrightarrow> targetsOK mb'"
    using addTargetCol_targetsOK by blast
  have run: "\<forall>b0 m0 name t names mb'.
      addTargetColsByName (init b0 m0 name t) names = Inr mb' \<longrightarrow>
      distinct (targetColList mb') \<and> targetColSet mb' = set (targetColList mb')"
    using addTargetColsByName_targetsOK [OF targetsOK_init] by (simp add: targetsOK_def)
  have a: "IsMutationColumn (tab mb) ord \<longrightarrow>
      addTargetCol mb ord = Inl (BackfillError (ColName (Columns (tab mb) ! ord)))"
    by (simp add: cases)
  have b: "\<not> IsMutationColumn (tab mb) ord \<and> IsComputed (Columns (tab mb) ! ord) \<longrightarrow>
      addTargetCol mb ord = Inl (CannotWriteToComputedColError (ColName (Columns (tab mb) ! ord)))"
    by (simp add: cases)
  have c: "\<not> IsMutationColumn (tab mb) ord \<and> \<not> IsComputed (Columns (tab mb) ! ord) \<and>
      ColumnID (tabID mb) ord \<in> targetColSet mb \<longrightarrow>
      addTargetCol mb ord = Inl (MultipleAssignmentError (ColName (Columns (tab mb) ! ord)))"
    by (simp add: cases)
  have d: "\<not> IsMutationColumn (tab mb) ord \<and> \<not> IsComputed (Columns (tab mb) ! ord) \<and>
      ColumnID (tabID mb) ord \<notin> targetColSet mb \<longrightarrow>
      addTargetCol mb ord =
        Inr (mb\<lparr>targetColSet := insert (ColumnID (tabID mb) ord) (targetColSet mb),
                targetColList := targetColList mb @ [ColumnID (tabID mb) ord]\<rparr>)"
    by (simp add: cases)
  show ?thesis
    by (rule conjI [OF a conjI [OF b conjI [OF c conjI [OF d conjI [OF inv run]]]]])
qed

text \<open>
  The witness: \<^verbatim>\<open>UPDATE t SET y = ..., y = ...\<close> targets \<open>y\<close> twice; targeting \<open>z\<close>
  (computed) and \<open>w\<close> (mutation column) fails as well.
\<close>

theorem addTargetCol_errors_and_distinct_witness:
  "(1::nat) < DeletableColumnCount (tab exUpdate)
   \<and> addTargetColsByName exUpdate [''y'', ''y''] = Inl (MultipleAssignmentError ''y'')
   \<and> addTargetColsByName exUpdate [''z''] = Inl (CannotWriteToComputedColError ''z'')
   \<and> addTargetColsByName exUpdate [''w''] = Inl (BackfillError ''w'')
   \<and> addTargetCol exUpdate 1 = Inr (exUpdate\<lparr>targetColSet := {2}, targetColList := [2]\<rparr>)"
proof -
  have h: "(1::nat) < DeletableColumnCount (tab exUpdate)"
    by (simp add: DeletableColumnCount_exUpdate)
  have flds: "tab exUpdate = exTab" "tabID exUpdate = \<lparr>tabIndex = 1, firstColID = 1\<rparr>"
    "targetColSet exUpdate = {}" "targetColList exUpdate = []"
    by (simp_all add: exUpdate_def init_def exMd_def AddTable_def Let_def)
  have one: "addTargetCol exUpdate 1 = Inr (exUpdate\<lparr>targetColSet := {2}, targetColList := [2]\<rparr>)"
    using addTargetCol_errors_and_distinct [OF h] flds
    by (simp add: exTab_def exCol_def IsMutationColumn_def ColumnID_def)
  have two: "addTargetColsByName exUpdate [''y'', ''y''] = Inl (MultipleAssignmentError ''y'')"
    using one flds
    by (simp add: exTab_def exCol_def addTargetCol_def tabColumn_def IsMutationColumn_def
        ColumnID_def Let_def)
  have three: "addTargetColsByName exUpdate [''z''] = Inl (CannotWriteToComputedColError ''z'')"
    using flds
    by (simp add: exTab_def exCol_def addTargetCol_def tabColumn_def IsMutationColumn_def
        ColumnID_def Let_def)
  have four: "addTargetColsByName exUpdate [''w''] = Inl (BackfillError ''w'')"
    using flds
    by (simp add: exTab_def exCol_def addTargetCol_def tabColumn_def IsMutationColumn_def
        ColumnID_def Let_def)
  from h one two three four show ?thesis by simp
qed

subsection \<open>Default and computed expressions\<close>

lemma sameButCache_refl: "sameButCache mb mb"
  by (simp add: sameButCache_def)

lemma sameButCache_trans: "sameButCache a b \<Longrightarrow> sameButCache b c \<Longrightarrow> sameButCache a c"
  by (cases a, cases b, cases c) (simp add: sameButCache_def)

lemma sameButCache_fields:
  assumes "sameButCache mb mb'"
  shows "tab mb' = tab mb" and "tabID mb' = tabID mb" and "bld mb' = bld mb"
    and "targetColList mb' = targetColList mb"
  using assms by (cases mb, cases mb', simp add: sameButCache_def)+

lemma defaultExprOf_cong:
  assumes "sameButCache mb mb'"
  shows "defaultExprOf mb' c = defaultExprOf mb c"
  by (simp add: defaultExprOf_def Let_def sameButCache_fields [OF assms])

lemma replacedTuple_cong:
  assumes "sameButCache mb mb'"
  shows "replacedTuple mb' t = replacedTuple mb t"
  by (simp add: replacedTuple_def case_prod_beta sameButCache_fields [OF assms]
      defaultExprOf_cong [OF assms])

text \<open>One call: the invariant is kept, only the cache changes, the result is the column's expression.\<close>

lemma parse_step:
  assumes ok: "cacheOK mb" and call: "parseDefaultOrComputedExpr mb colID = Inr (e, mb')"
  shows "cacheOK mb' \<and> sameButCache mb mb' \<and> e = defaultExprOf mb colID"
proof -
  define cache where "cache = (case parsedExprs mb of
      None \<Rightarrow> replicate (DeletableColumnCount (tab mb)) None | Some c \<Rightarrow> c)"
  define ord where "ord = colID - firstColID (tabID mb)"
  from call have rng: "firstColID (tabID mb) \<le> colID" "ord < length cache"
    by (auto simp: parseDefaultOrComputedExpr_def Let_def cache_def ord_def split: if_splits)
  have len: "length cache = DeletableColumnCount (tab mb)"
    using ok by (auto simp: cacheOK_def cache_def split: option.splits)
  have ent: "\<forall>i < length cache. (cache ! i = None \<longleftrightarrow> i \<notin> set (parseLog mb)) \<and>
      (\<forall>x. cache ! i = Some x \<longrightarrow>
         (IsComputed (Columns (tab mb) ! i) \<or> HasDefault (Columns (tab mb) ! i)) \<and>
         ParseExpr (bld mb) (exprText (Columns (tab mb) ! i)) = Inr x)"
    using ok by (auto simp: cacheOK_def cache_def split: option.splits)
  have dist: "distinct (parseLog mb)" using ok by (simp add: cacheOK_def)
  have col: "tabColumn (tab mb) ord = Inr (Columns (tab mb) ! ord)"
    using rng len by (simp add: tabColumn_def DeletableColumnCount_def)
  show ?thesis
  proof (cases "cache ! ord")
    case (Some x)
    with call rng have res: "e = x" "mb' = mb\<lparr>parsedExprs := Some cache\<rparr>"
      by (auto simp: parseDefaultOrComputedExpr_def Let_def cache_def ord_def split: if_splits)
    from ent rng Some have "e = defaultExprOf mb colID"
      by (auto simp: res defaultExprOf_def Let_def ord_def)
    moreover have "cacheOK mb'"
      using dist len ent by (simp add: res cacheOK_def)
    moreover have "sameButCache mb mb'" by (simp add: res sameButCache_def)
    ultimately show ?thesis by simp
  next
    case None
    show ?thesis
    proof (cases "IsComputed (Columns (tab mb) ! ord) \<or> HasDefault (Columns (tab mb) ! ord)")
      case False
      with call rng None col have res: "e = DNull" "mb' = mb\<lparr>parsedExprs := Some cache\<rparr>"
        by (auto simp: parseDefaultOrComputedExpr_def Let_def cache_def ord_def split: if_splits)
      from False have "e = defaultExprOf mb colID"
        by (simp add: res defaultExprOf_def Let_def ord_def)
      moreover have "cacheOK mb'"
        using dist len ent by (simp add: res cacheOK_def)
      moreover have "sameButCache mb mb'" by (simp add: res sameButCache_def)
      ultimately show ?thesis by simp
    next
      case True
      with call rng None col have p: "ParseExpr (bld mb) (exprText (Columns (tab mb) ! ord)) = Inr e"
        and res: "mb' = mb\<lparr>parsedExprs := Some (cache[ord := Some e]), parseLog := parseLog mb @ [ord]\<rparr>"
        by (auto simp: parseDefaultOrComputedExpr_def Let_def cache_def ord_def exprText_def
            split: if_splits sum.splits)
      from True p have "e = defaultExprOf mb colID"
        by (simp add: defaultExprOf_def Let_def ord_def)
      moreover have "cacheOK mb'"
        using dist len ent rng None True p
        by (auto simp: res cacheOK_def nth_list_update)
      moreover have "sameButCache mb mb'" by (simp add: res sameButCache_def)
      ultimately show ?thesis by simp
    qed
  qed
qed

lemma replacedTuple_snoc:
  "replacedTuple mb (pre @ [v]) =
     replacedTuple mb pre @
       [if v = DefaultVal then defaultExprOf mb (targetColList mb ! length pre) else v]"
  by (simp add: replacedTuple_def)

lemma replacedTuple_id: "DefaultVal \<notin> set t \<Longrightarrow> replacedTuple mb t = t"
proof (induction t rule: rev_induct)
  case Nil
  then show ?case by (simp add: replacedTuple_def)
next
  case (snoc v t)
  then have "v \<noteq> DefaultVal" and "replacedTuple mb t = t" by auto
  then show ?case by (simp add: replacedTuple_snoc)
qed

lemma length_replacedTuple: "length (replacedTuple mb t) = length t"
  by (simp add: replacedTuple_def)

lemma replacedTuple_nth:
  "i < length t \<Longrightarrow> replacedTuple mb t ! i =
     (if t ! i = DefaultVal then defaultExprOf mb (targetColList mb ! i) else t ! i)"
  by (simp add: replacedTuple_def)

lemma replaceTuple_spec:
  assumes "cacheOK mb" and "tuple = pre @ vals" and "length pre = itup"
    and "newTuple = None \<longrightarrow> DefaultVal \<notin> set pre"
    and "\<forall>t. newTuple = Some t \<longrightarrow> t = replacedTuple mb pre"
    and "replaceTuple rows irow tuple itup vals newRows newTuple mb = Inr (nr, nt, mb')"
  shows "cacheOK mb' \<and> sameButCache mb mb' \<and>
         nt = (if newTuple = None \<and> DefaultVal \<notin> set vals then None
               else Some (replacedTuple mb tuple)) \<and>
         nr = (if newRows = None \<and> DefaultVal \<in> set vals then Some (take irow rows) else newRows)"
  using assms
proof (induction vals arbitrary: pre itup newRows newTuple mb)
  case Nil
  then show ?case
    by (auto simp: sameButCache_refl replacedTuple_id)
next
  case (Cons v vals)
  have tup: "tuple = (pre @ [v]) @ vals" using Cons.prems(2) by simp
  have len: "length (pre @ [v]) = Suc itup" using Cons.prems(3) by simp
  show ?case
  proof (cases "v = DefaultVal")
    case False
    let ?nt = "case newTuple of None \<Rightarrow> None | Some t \<Rightarrow> Some (t @ [v])"
    from Cons.prems(6) False
    have run: "replaceTuple rows irow tuple (Suc itup) vals newRows ?nt mb = Inr (nr, nt, mb')"
      by simp
    have a: "?nt = None \<longrightarrow> DefaultVal \<notin> set (pre @ [v])"
      using Cons.prems(4) False by (auto split: option.splits)
    have b: "\<forall>t. ?nt = Some t \<longrightarrow> t = replacedTuple mb (pre @ [v])"
      using Cons.prems(5) False by (auto simp: replacedTuple_snoc split: option.splits)
    from Cons.IH [OF Cons.prems(1) tup len a b run] False
    show ?thesis by (auto split: option.splits)
  next
    case True
    let ?nr = "case newRows of None \<Rightarrow> Some (take irow rows) | Some r \<Rightarrow> Some r"
    let ?t1 = "case newTuple of None \<Rightarrow> take itup tuple | Some t \<Rightarrow> t"
    from Cons.prems(6) True obtain val' mb1 where
      inr: "itup < length (targetColList mb)"
      and p: "parseDefaultOrComputedExpr mb (targetColList mb ! itup) = Inr (val', mb1)"
      and run: "replaceTuple rows irow tuple (Suc itup) vals ?nr (Some (?t1 @ [val'])) mb1 =
                  Inr (nr, nt, mb')"
      by (auto simp: Let_def split: if_splits sum.splits)
    from parse_step [OF Cons.prems(1) p]
    have ok1: "cacheOK mb1" and same1: "sameButCache mb mb1"
      and v': "val' = defaultExprOf mb (targetColList mb ! itup)" by simp_all
    have t1: "?t1 = replacedTuple mb pre"
      using Cons.prems(2,3,4,5) by (auto simp: replacedTuple_id split: option.splits)
    have b: "\<forall>t. Some (?t1 @ [val']) = Some t \<longrightarrow> t = replacedTuple mb1 (pre @ [v])"
      using t1 v' True Cons.prems(3)
      by (simp add: replacedTuple_cong [OF same1] replacedTuple_snoc
          defaultExprOf_cong [OF same1] sameButCache_fields [OF same1])
    have a: "Some (?t1 @ [val']) = None \<longrightarrow> DefaultVal \<notin> set (pre @ [v])" by simp
    from Cons.IH [OF ok1 tup len a b run]
    have r: "cacheOK mb'" "sameButCache mb1 mb'" "nt = Some (replacedTuple mb1 tuple)"
      "nr = (if ?nr = None \<and> DefaultVal \<in> set vals then Some (take irow rows) else ?nr)"
      by simp_all
    from r same1 True show ?thesis
      by (auto simp: replacedTuple_cong [OF same1] split: option.splits
          intro: sameButCache_trans)
  qed
qed

lemma hasDefault_append: "hasDefault (a @ b) = (hasDefault a \<or> hasDefault b)"
  by (auto simp: hasDefault_def)

lemma hasDefault_single: "hasDefault [t] = (DefaultVal \<in> set t)"
  by (simp add: hasDefault_def)

lemma map_replacedTuple_id: "\<not> hasDefault rows \<Longrightarrow> map (replacedTuple mb) rows = rows"
  by (induction rows) (auto simp: hasDefault_def replacedTuple_id)

lemma replaceRows_spec:
  assumes "cacheOK mb" and "rows = pre @ rest" and "length pre = irow"
    and "newRows = None \<longrightarrow> \<not> hasDefault pre"
    and "\<forall>x. newRows = Some x \<longrightarrow> x = map (replacedTuple mb) pre"
    and "replaceRows rows numCols irow rest newRows mb = Inr (nr, mb')"
  shows "cacheOK mb' \<and> sameButCache mb mb' \<and>
         nr = (if newRows = None \<and> \<not> hasDefault rest then None
               else Some (map (replacedTuple mb) rows)) \<and>
         (\<forall>t \<in> set rest. length t = numCols)"
  using assms
proof (induction rest arbitrary: pre irow newRows mb)
  case Nil
  then show ?case
    by (auto simp: sameButCache_refl hasDefault_def)
next
  case (Cons tuple rest)
  from Cons.prems(6) obtain nr1 nt mb1 where
    len: "length tuple = numCols"
    and tup: "replaceTuple rows irow tuple 0 tuple newRows None mb = Inr (nr1, nt, mb1)"
    and run: "replaceRows rows numCols (Suc irow) rest
                (case nr1 of None \<Rightarrow> None
                 | Some x \<Rightarrow> (case nt of Some t \<Rightarrow> Some (x @ [t]) | None \<Rightarrow> Some (x @ [tuple])))
                mb1 = Inr (nr, mb')"
    by (auto split: if_splits sum.splits)
  from replaceTuple_spec [OF Cons.prems(1) _ _ _ _ tup, of "[]"]
  have ok1: "cacheOK mb1" and same1: "sameButCache mb mb1"
    and nt: "nt = (if DefaultVal \<notin> set tuple then None else Some (replacedTuple mb tuple))"
    and nr1: "nr1 = (if newRows = None \<and> DefaultVal \<in> set tuple then Some (take irow rows)
                     else newRows)"
    by simp_all
  let ?nr2 = "case nr1 of None \<Rightarrow> None
     | Some x \<Rightarrow> (case nt of Some t \<Rightarrow> Some (x @ [t]) | None \<Rightarrow> Some (x @ [tuple]))"
  have rows2: "rows = (pre @ [tuple]) @ rest" using Cons.prems(2) by simp
  have len2: "length (pre @ [tuple]) = Suc irow" using Cons.prems(3) by simp
  have tk: "take irow rows = pre" using Cons.prems(2,3) by simp
  have last: "(case nt of Some t \<Rightarrow> t | None \<Rightarrow> tuple) = replacedTuple mb tuple"
    by (simp add: nt replacedTuple_id)
  have a: "?nr2 = None \<longrightarrow> \<not> hasDefault (pre @ [tuple])"
    using Cons.prems(4) by (auto simp: nr1 nt hasDefault_append hasDefault_single split: option.splits if_splits)
  have b: "\<forall>x. ?nr2 = Some x \<longrightarrow> x = map (replacedTuple mb1) (pre @ [tuple])"
  proof (intro allI impI)
    fix x assume x: "?nr2 = Some x"
    then obtain y where y: "nr1 = Some y" and xy: "x = y @ [replacedTuple mb tuple]"
      using last by (auto split: option.splits)
    have "y = map (replacedTuple mb) pre"
    proof (cases newRows)
      case None
      with y nr1 tk have "y = pre" by (auto split: if_splits)
      moreover from None Cons.prems(4) have "\<not> hasDefault pre" by simp
      ultimately show ?thesis by (simp add: map_replacedTuple_id)
    next
      case (Some z)
      with y nr1 Cons.prems(5) show ?thesis by auto
    qed
    with xy show "x = map (replacedTuple mb1) (pre @ [tuple])"
      by (simp add: replacedTuple_cong [OF same1])
  qed
  from Cons.IH [OF ok1 rows2 len2 a b run]
  have r: "cacheOK mb'" "sameButCache mb1 mb'"
    "nr = (if ?nr2 = None \<and> \<not> hasDefault rest then None else Some (map (replacedTuple mb1) rows))"
    "\<forall>t \<in> set rest. length t = numCols"
    by simp_all
  have none2: "?nr2 = None \<longleftrightarrow> newRows = None \<and> DefaultVal \<notin> set tuple"
    by (auto simp: nr1 nt split: option.splits)
  have hd: "hasDefault (tuple # rest) = (DefaultVal \<in> set tuple \<or> hasDefault rest)"
    by (auto simp: hasDefault_def)
  have "nr = (if newRows = None \<and> \<not> hasDefault (tuple # rest) then None
              else Some (map (replacedTuple mb) rows))"
    unfolding r(3) none2 hd using replacedTuple_cong [OF same1] by auto
  with r len same1 show ?case
    by (auto intro: sameButCache_trans)
qed

lemma replaceDefaultExprs_spec:
  assumes "cacheOK mb" and "replaceDefaultExprs mb inRows = Inr (out, mb')"
  shows "cacheOK mb' \<and> sameButCache mb mb' \<and>
         (case extractValuesInput inRows of
            None \<Rightarrow> out = inRows
          | Some rows \<Rightarrow>
              rows \<noteq> [] \<and> (\<forall>t \<in> set rows. length t = length (targetColList mb)) \<and>
              out = (if hasDefault rows
                     then Some (Select None None None (ValuesClause (map (replacedTuple mb) rows)))
                     else inRows))"
proof (cases "extractValuesInput inRows")
  case None
  with assms show ?thesis
    by (simp add: replaceDefaultExprs_def sameButCache_refl)
next
  case (Some rows)
  define res where "res = replaceRows rows (length (hd rows)) 0 rows None mb"
  have unf: "replaceDefaultExprs mb inRows =
      (if rows = [] then Inl RuntimeIndexError
       else if length (hd rows) \<noteq> length (targetColList mb)
         then Inl (NumColsError (length (hd rows)) (length (targetColList mb)))
       else (case res of
               Inl e \<Rightarrow> Inl e
             | Inr (newRows, mb1) \<Rightarrow>
                 (case newRows of
                    Some x \<Rightarrow> Inr (Some (Select None None None (ValuesClause x)), mb1)
                  | None \<Rightarrow> Inr (inRows, mb1))))"
    unfolding replaceDefaultExprs_def res_def Some checkNumCols_def
    by (cases rows) (simp_all del: replaceRows.simps)
  from assms(2) have ne: "rows \<noteq> []" and n: "length (hd rows) = length (targetColList mb)"
    unfolding unf by (simp_all split: if_splits)
  from assms(2) obtain nr where run: "res = Inr (nr, mb')"
    and out: "out = (case nr of Some x \<Rightarrow> Some (Select None None None (ValuesClause x))
                     | None \<Rightarrow> inRows)"
    unfolding unf using ne n by (cases res) (auto split: option.splits)
  have a: "rows = [] @ rows" and b: "length ([]::Expr list list) = 0" by simp_all
  have c: "(None::Expr list list option) = None \<longrightarrow> \<not> hasDefault []"
    by (simp add: hasDefault_def)
  have d: "\<forall>x. (None::Expr list list option) = Some x \<longrightarrow> x = map (replacedTuple mb) []"
    by simp
  from replaceRows_spec [OF assms(1) a b c d run [unfolded res_def]]
  have r: "cacheOK mb'" "sameButCache mb mb'"
    "nr = (if \<not> hasDefault rows then None else Some (map (replacedTuple mb) rows))"
    "\<forall>t \<in> set rows. length t = length (hd rows)"
    by simp_all
  show ?thesis
    unfolding Some using r ne n out by simp
qed

lemma exInsert_fields:
  "tab exInsert = exTab" "tabID exInsert = \<lparr>tabIndex = 1, firstColID = 1\<rparr>"
  "bld exInsert = exBuilder" "targetColList exInsert = [1, 2]"
  "parsedExprs exInsert = None" "parseLog exInsert = []"
  by (simp_all add: exInsert_def init_def exMd_def AddTable_def Let_def)

lemma cacheOK_exInsert: "cacheOK exInsert"
  by (simp add: cacheOK_def exInsert_fields)

lemma count_list_distinct:
  "distinct xs \<Longrightarrow> count_list xs x = (if x \<in> set xs then 1 else 0)"
  by (induction xs) auto

lemma parse_cached:
  assumes "cachedExpr mb ord e"
  shows "parseDefaultOrComputedExpr mb (ColumnID (tabID mb) ord) = Inr (e, mb)"
proof -
  from assms obtain cache where c: "parsedExprs mb = Some cache" "ord < length cache"
    "cache ! ord = Some e"
    by (auto simp: cachedExpr_def split: option.splits)
  have "mb\<lparr>parsedExprs := Some cache\<rparr> = mb" using c(1) by (cases mb) simp
  with c show ?thesis
    by (simp add: parseDefaultOrComputedExpr_def ColumnID_def Let_def)
qed

lemma parse_keeps:
  assumes "parseDefaultOrComputedExpr mb c = Inr (x, mb')" and "cachedExpr mb i e"
  shows "cachedExpr mb' i e"
  using assms
  by (auto simp: parseDefaultOrComputedExpr_def cachedExpr_def Let_def nth_list_update
      split: option.splits if_splits sum.splits)

lemma parse_caches:
  assumes "cacheOK mb" and "ord < DeletableColumnCount (tab mb)"
    and "IsComputed (Columns (tab mb) ! ord) \<or> HasDefault (Columns (tab mb) ! ord)"
    and "parseDefaultOrComputedExpr mb (ColumnID (tabID mb) ord) = Inr (e, mb')"
  shows "cachedExpr mb' ord e"
  using assms
  by (auto simp: parseDefaultOrComputedExpr_def cachedExpr_def cacheOK_def ColumnID_def Let_def
      tabColumn_def DeletableColumnCount_def
      split: option.splits if_splits sum.splits)

lemma parse_null:
  assumes "cacheOK mb" and "ord < DeletableColumnCount (tab mb)"
    and "\<not> IsComputed (Columns (tab mb) ! ord)" and "\<not> HasDefault (Columns (tab mb) ! ord)"
  shows "\<exists>mb'. parseDefaultOrComputedExpr mb (ColumnID (tabID mb) ord) = Inr (DNull, mb') \<and>
           parseLog mb' = parseLog mb"
proof (cases "parsedExprs mb")
  case None
  with assms show ?thesis
    by (simp add: parseDefaultOrComputedExpr_def ColumnID_def Let_def tabColumn_def
        DeletableColumnCount_def)
next
  case (Some cache)
  with assms have len: "length cache = DeletableColumnCount (tab mb)"
    and none: "cache ! ord = None"
    by (auto simp: cacheOK_def)
  with assms Some show ?thesis
    by (simp add: parseDefaultOrComputedExpr_def ColumnID_def Let_def tabColumn_def
        DeletableColumnCount_def)
qed

lemma parseCalls_inv:
  assumes "parseCalls mb mb'" and "cacheOK mb"
  shows "cacheOK mb' \<and> sameButCache mb mb'"
  using assms
proof (induction rule: parseCalls.induct)
  case (parseCalls_refl mb)
  then show ?case by (simp add: sameButCache_refl)
next
  case (parseCalls_step mb mb1 c e mb2)
  then have a: "cacheOK mb1" "sameButCache mb mb1" by simp_all
  from parse_step [OF a(1) parseCalls_step.hyps(2)] a(2) show ?case
    by (auto intro: sameButCache_trans)
qed

lemma parseCalls_keeps:
  assumes "parseCalls mb mb'" and "cachedExpr mb i e"
  shows "cachedExpr mb' i e"
  using assms
  by (induction rule: parseCalls.induct) (auto intro: parse_keeps)

lemma cacheOK_fresh: "parsedExprs mb = None \<Longrightarrow> parseLog mb = [] \<Longrightarrow> cacheOK mb"
  by (simp add: cacheOK_def)

lemma cacheOK_count: "cacheOK mb \<Longrightarrow> count_list (parseLog mb) i \<le> 1"
  by (simp add: cacheOK_def count_list_distinct)

lemma cachedExpr_count:
  "cacheOK mb \<Longrightarrow> cachedExpr mb i e \<Longrightarrow> count_list (parseLog mb) i = 1"
  by (auto simp: cacheOK_def cachedExpr_def count_list_distinct split: option.splits)

lemma defaultExprOf_null:
  "\<not> IsComputed (Columns (tab mb) ! ord) \<Longrightarrow> \<not> HasDefault (Columns (tab mb) ! ord) \<Longrightarrow>
     defaultExprOf mb (ColumnID (tabID mb) ord) = DNull"
  by (simp add: defaultExprOf_def ColumnID_def)

text \<open>
  C8. On a simple VALUES input (no WITH, ORDER BY or LIMIT; parentheses are looked through),
  \<^verbatim>\<open>replaceDefaultExprs\<close> replaces each DEFAULT at tuple position \<open>i\<close> by the expression of
  the \<open>i\<close>-th target column, which is the tree that \<^verbatim>\<open>parseDefaultOrComputedExpr\<close> returns
  (the parser's tree for the stored default or computed text, never a value); every other
  entry is kept. When no tuple holds a DEFAULT the input itself is returned, and an input that
  is not a simple VALUES clause is returned unchanged.
\<close>

theorem replaceDefaultExprs_replaces_defaults:
  assumes "cacheOK mb" and "replaceDefaultExprs mb inRows = Inr (out, mb')"
  shows "(extractValuesInput inRows = None \<longrightarrow> out = inRows)
       \<and> (\<forall>s. inRows = Some s \<and> (With s \<noteq> None \<or> OrderBy s \<noteq> None \<or> Limit s \<noteq> None) \<longrightarrow>
            out = inRows)
       \<and> (\<forall>rows. extractValuesInput inRows = Some rows \<and> \<not> hasDefault rows \<longrightarrow> out = inRows)
       \<and> (\<forall>rows. extractValuesInput inRows = Some rows \<and> hasDefault rows \<longrightarrow>
            (\<exists>rows'. out = Some (Select None None None (ValuesClause rows')) \<and>
               length rows' = length rows \<and>
               (\<forall>r < length rows. length (rows' ! r) = length (rows ! r) \<and>
                  (\<forall>i < length (rows ! r).
                     rows' ! r ! i =
                       (if rows ! r ! i = DefaultVal then defaultExprOf mb (targetColList mb ! i)
                        else rows ! r ! i)))))
       \<and> (\<forall>c e mb1. parseDefaultOrComputedExpr mb c = Inr (e, mb1) \<longrightarrow> e = defaultExprOf mb c)
       \<and> (\<forall>rows. extractValuesInput (Some (Select None None None (ValuesClause rows))) = Some rows)"
proof -
  note spec = replaceDefaultExprs_spec [OF assms]
  have a: "extractValuesInput inRows = None \<longrightarrow> out = inRows"
    using spec by auto
  have b: "\<forall>s. inRows = Some s \<and> (With s \<noteq> None \<or> OrderBy s \<noteq> None \<or> Limit s \<noteq> None) \<longrightarrow>
      out = inRows"
  proof (intro allI impI)
    fix s assume h: "inRows = Some s \<and> (With s \<noteq> None \<or> OrderBy s \<noteq> None \<or> Limit s \<noteq> None)"
    then have "extractValuesInput inRows = None" by (cases s) auto
    with a show "out = inRows" by simp
  qed
  have c: "\<forall>rows. extractValuesInput inRows = Some rows \<and> \<not> hasDefault rows \<longrightarrow> out = inRows"
    using spec by auto
  have d: "\<forall>rows. extractValuesInput inRows = Some rows \<and> hasDefault rows \<longrightarrow>
      (\<exists>rows'. out = Some (Select None None None (ValuesClause rows')) \<and>
         length rows' = length rows \<and>
         (\<forall>r < length rows. length (rows' ! r) = length (rows ! r) \<and>
            (\<forall>i < length (rows ! r).
               rows' ! r ! i =
                 (if rows ! r ! i = DefaultVal then defaultExprOf mb (targetColList mb ! i)
                  else rows ! r ! i))))"
  proof (intro allI impI)
    fix rows assume h: "extractValuesInput inRows = Some rows \<and> hasDefault rows"
    with spec have out: "out = Some (Select None None None (ValuesClause (map (replacedTuple mb) rows)))"
      by simp
    show "\<exists>rows'. out = Some (Select None None None (ValuesClause rows')) \<and>
         length rows' = length rows \<and>
         (\<forall>r < length rows. length (rows' ! r) = length (rows ! r) \<and>
            (\<forall>i < length (rows ! r).
               rows' ! r ! i =
                 (if rows ! r ! i = DefaultVal then defaultExprOf mb (targetColList mb ! i)
                  else rows ! r ! i)))"
      by (rule exI [of _ "map (replacedTuple mb) rows"])
        (simp add: out length_replacedTuple replacedTuple_nth)
  qed
  have e: "\<forall>c e mb1. parseDefaultOrComputedExpr mb c = Inr (e, mb1) \<longrightarrow> e = defaultExprOf mb c"
    using parse_step [OF assms(1)] by blast
  have f: "\<forall>rows. extractValuesInput (Some (Select None None None (ValuesClause rows))) = Some rows"
    by simp
  show ?thesis by (rule conjI [OF a conjI [OF b conjI [OF c conjI [OF d conjI [OF e f]]]]])
qed

lemma exInsert_replace:
  "replaceDefaultExprs exInsert (Some exValues) =
     Inr (Some (Select None None None
                  (ValuesClause [[ExprNode ''1'', ExprNode ''42''], [DNull, ExprNode ''2'']])),
          exInsertParsed)"
  by (simp add: replaceDefaultExprs_def exValues_def checkNumCols_def parseDefaultOrComputedExpr_def
      exInsert_fields exTab_def exCol_def exBuilder_def exInsertParsed_def
      DeletableColumnCount_def tabColumn_def Let_def)

text \<open>
  The witness: in \<^verbatim>\<open>INSERT INTO t (x, y) VALUES (1, DEFAULT), (DEFAULT, 2)\<close> the DEFAULT for
  \<open>y\<close> becomes the tree of \<^verbatim>\<open>42\<close> and the DEFAULT for \<open>x\<close> becomes NULL.
\<close>

theorem replaceDefaultExprs_replaces_defaults_witness:
  "cacheOK exInsert
   \<and> replaceDefaultExprs exInsert (Some exValues) =
       Inr (Some (Select None None None
                    (ValuesClause [[ExprNode ''1'', ExprNode ''42''], [DNull, ExprNode ''2'']])),
            exInsertParsed)
   \<and> defaultExprOf exInsert (targetColList exInsert ! 1) = ExprNode ''42''
   \<and> defaultExprOf exInsert (targetColList exInsert ! 0) = DNull"
proof -
  have ex: "extractValuesInput (Some exValues) =
      Some [[ExprNode ''1'', DefaultVal], [DefaultVal, ExprNode ''2'']]"
    by (simp add: exValues_def)
  have hd: "hasDefault [[ExprNode ''1'', DefaultVal], [DefaultVal, ExprNode ''2'']]"
    by (simp add: hasDefault_def)
  from replaceDefaultExprs_replaces_defaults [OF cacheOK_exInsert exInsert_replace] ex hd
  obtain rows' where r: "Some (Select None None None
        (ValuesClause [[ExprNode ''1'', ExprNode ''42''], [DNull, ExprNode ''2'']])) =
      Some (Select None None None (ValuesClause rows'))"
    and pos: "\<forall>r < length [[ExprNode ''1'', DefaultVal], [DefaultVal, ExprNode ''2'']].
        length (rows' ! r) = length ([[ExprNode ''1'', DefaultVal], [DefaultVal, ExprNode ''2'']] ! r) \<and>
        (\<forall>i < length ([[ExprNode ''1'', DefaultVal], [DefaultVal, ExprNode ''2'']] ! r).
           rows' ! r ! i =
             (if [[ExprNode ''1'', DefaultVal], [DefaultVal, ExprNode ''2'']] ! r ! i = DefaultVal
              then defaultExprOf exInsert (targetColList exInsert ! i)
              else [[ExprNode ''1'', DefaultVal], [DefaultVal, ExprNode ''2'']] ! r ! i))"
    by blast
  from r have rows': "rows' = [[ExprNode ''1'', ExprNode ''42''], [DNull, ExprNode ''2'']]" by simp
  from pos [rule_format, of 0] have "rows' ! 0 ! 1 = defaultExprOf exInsert (targetColList exInsert ! 1)"
    by simp
  then have y: "defaultExprOf exInsert (targetColList exInsert ! 1) = ExprNode ''42''"
    by (simp add: rows')
  from pos [rule_format, of 1] have "rows' ! 1 ! 0 = defaultExprOf exInsert (targetColList exInsert ! 0)"
    by simp
  then have x: "defaultExprOf exInsert (targetColList exInsert ! 0) = DNull"
    by (simp add: rows')
  from cacheOK_exInsert exInsert_replace x y show ?thesis by simp
qed

text \<open>
  C10. In a state reached from the start of a statement by calls of
  \<^verbatim>\<open>parseDefaultOrComputedExpr\<close>: for a table column that is neither computed nor has a
  default the function returns the NULL literal without parsing, so a DEFAULT specifier for
  such a target column is replaced by NULL; for a computed or defaulted column the returned
  tree is the parser's result for the stored text, every later call for the same column
  returns that tree and leaves the state (and so the parse log) as it is, and no ordinal
  stands in the parse log more than once.
\<close>

theorem parseDefaultOrComputedExpr_null_and_cached:
  assumes "parsedExprs mb0 = None" and "parseLog mb0 = []" and "parseCalls mb0 mb"
    and "ord < DeletableColumnCount (tab mb)"
  shows "(\<not> IsComputed (Columns (tab mb) ! ord) \<and> \<not> HasDefault (Columns (tab mb) ! ord) \<longrightarrow>
            (\<exists>mb'. parseDefaultOrComputedExpr mb (ColumnID (tabID mb) ord) = Inr (DNull, mb') \<and>
                   parseLog mb' = parseLog mb))
       \<and> (\<forall>rows out mb' r i.
            \<not> IsComputed (Columns (tab mb) ! ord) \<and> \<not> HasDefault (Columns (tab mb) ! ord) \<and>
            replaceDefaultExprs mb (Some (Select None None None (ValuesClause rows))) = Inr (out, mb') \<and>
            r < length rows \<and> i < length (rows ! r) \<and> rows ! r ! i = DefaultVal \<and>
            targetColList mb ! i = ColumnID (tabID mb) ord \<longrightarrow>
            (\<exists>rows'. out = Some (Select None None None (ValuesClause rows')) \<and> rows' ! r ! i = DNull))
       \<and> (\<forall>e mb1 mb2.
            (IsComputed (Columns (tab mb) ! ord) \<or> HasDefault (Columns (tab mb) ! ord)) \<and>
            parseDefaultOrComputedExpr mb (ColumnID (tabID mb) ord) = Inr (e, mb1) \<and>
            parseCalls mb1 mb2 \<longrightarrow>
            ParseExpr (bld mb) (exprText (Columns (tab mb) ! ord)) = Inr e \<and>
            parseDefaultOrComputedExpr mb2 (ColumnID (tabID mb) ord) = Inr (e, mb2) \<and>
            count_list (parseLog mb2) ord = 1)
       \<and> (\<forall>i. count_list (parseLog mb) i \<le> 1)"
proof -
  have ok: "cacheOK mb"
    using parseCalls_inv [OF assms(3) cacheOK_fresh [OF assms(1,2)]] by simp
  have a: "\<not> IsComputed (Columns (tab mb) ! ord) \<and> \<not> HasDefault (Columns (tab mb) ! ord) \<longrightarrow>
      (\<exists>mb'. parseDefaultOrComputedExpr mb (ColumnID (tabID mb) ord) = Inr (DNull, mb') \<and>
             parseLog mb' = parseLog mb)"
    using parse_null [OF ok assms(4)] by blast
  have b: "\<forall>rows out mb' r i.
      \<not> IsComputed (Columns (tab mb) ! ord) \<and> \<not> HasDefault (Columns (tab mb) ! ord) \<and>
      replaceDefaultExprs mb (Some (Select None None None (ValuesClause rows))) = Inr (out, mb') \<and>
      r < length rows \<and> i < length (rows ! r) \<and> rows ! r ! i = DefaultVal \<and>
      targetColList mb ! i = ColumnID (tabID mb) ord \<longrightarrow>
      (\<exists>rows'. out = Some (Select None None None (ValuesClause rows')) \<and> rows' ! r ! i = DNull)"
  proof (intro allI impI)
    fix rows out mb' r i
    assume h: "\<not> IsComputed (Columns (tab mb) ! ord) \<and> \<not> HasDefault (Columns (tab mb) ! ord) \<and>
      replaceDefaultExprs mb (Some (Select None None None (ValuesClause rows))) = Inr (out, mb') \<and>
      r < length rows \<and> i < length (rows ! r) \<and> rows ! r ! i = DefaultVal \<and>
      targetColList mb ! i = ColumnID (tabID mb) ord"
    then have hd: "hasDefault rows"
      by (auto simp: hasDefault_def intro!: bexI [of _ "rows ! r"]) (metis nth_mem)
    from h have run: "replaceDefaultExprs mb (Some (Select None None None (ValuesClause rows))) =
        Inr (out, mb')" by simp
    from replaceDefaultExprs_spec [OF ok run] hd
    have out: "out = Some (Select None None None (ValuesClause (map (replacedTuple mb) rows)))"
      by simp
    have "map (replacedTuple mb) rows ! r ! i = DNull"
      using h by (simp add: replacedTuple_nth defaultExprOf_null)
    with out show "\<exists>rows'. out = Some (Select None None None (ValuesClause rows')) \<and>
        rows' ! r ! i = DNull" by blast
  qed
  have c: "\<forall>e mb1 mb2.
      (IsComputed (Columns (tab mb) ! ord) \<or> HasDefault (Columns (tab mb) ! ord)) \<and>
      parseDefaultOrComputedExpr mb (ColumnID (tabID mb) ord) = Inr (e, mb1) \<and>
      parseCalls mb1 mb2 \<longrightarrow>
      ParseExpr (bld mb) (exprText (Columns (tab mb) ! ord)) = Inr e \<and>
      parseDefaultOrComputedExpr mb2 (ColumnID (tabID mb) ord) = Inr (e, mb2) \<and>
      count_list (parseLog mb2) ord = 1"
  proof (intro allI impI)
    fix e mb1 mb2
    assume h: "(IsComputed (Columns (tab mb) ! ord) \<or> HasDefault (Columns (tab mb) ! ord)) \<and>
      parseDefaultOrComputedExpr mb (ColumnID (tabID mb) ord) = Inr (e, mb1) \<and>
      parseCalls mb1 mb2"
    then have cd: "IsComputed (Columns (tab mb) ! ord) \<or> HasDefault (Columns (tab mb) ! ord)"
      and call: "parseDefaultOrComputedExpr mb (ColumnID (tabID mb) ord) = Inr (e, mb1)"
      and later: "parseCalls mb1 mb2" by simp_all
    from parse_step [OF ok call] have ok1: "cacheOK mb1" and same1: "sameButCache mb mb1"
      and e: "e = defaultExprOf mb (ColumnID (tabID mb) ord)" by simp_all
    have c1: "cachedExpr mb1 ord e" by (rule parse_caches [OF ok assms(4) cd call])
    from parseCalls_inv [OF later ok1] have ok2: "cacheOK mb2" and same2: "sameButCache mb1 mb2"
      by simp_all
    have c2: "cachedExpr mb2 ord e" by (rule parseCalls_keeps [OF later c1])
    have tid: "tabID mb2 = tabID mb"
      using sameButCache_fields(2) [OF same1] sameButCache_fields(2) [OF same2] by simp
    have p: "ParseExpr (bld mb) (exprText (Columns (tab mb) ! ord)) = Inr e"
      using c1 ok1 sameButCache_fields(1,3) [OF same1]
      by (auto simp: cachedExpr_def cacheOK_def split: option.splits)
    from parse_cached [OF c2] tid cachedExpr_count [OF ok2 c2] p
    show "ParseExpr (bld mb) (exprText (Columns (tab mb) ! ord)) = Inr e \<and>
      parseDefaultOrComputedExpr mb2 (ColumnID (tabID mb) ord) = Inr (e, mb2) \<and>
      count_list (parseLog mb2) ord = 1" by simp
  qed
  have d: "\<forall>i. count_list (parseLog mb) i \<le> 1"
    using cacheOK_count [OF ok] by simp
  show ?thesis by (rule conjI [OF a conjI [OF b conjI [OF c d]]])
qed

lemma exInsert_parse_y:
  "parseDefaultOrComputedExpr exInsert (ColumnID (tabID exInsert) 1) = Inr (ExprNode ''42'', exInsertParsed)"
  by (simp add: parseDefaultOrComputedExpr_def exInsert_fields exTab_def exCol_def exBuilder_def
      exInsertParsed_def ColumnID_def DeletableColumnCount_def tabColumn_def Let_def)

text \<open>
  The witness: in the example statement the column \<open>x\<close> gives NULL, and the default of
  \<open>y\<close> is parsed by the first call and returned from the cache by the second.
\<close>

theorem parseDefaultOrComputedExpr_null_and_cached_witness:
  "parsedExprs exInsert = None \<and> parseLog exInsert = [] \<and> parseCalls exInsert exInsert
   \<and> (1::nat) < DeletableColumnCount (tab exInsert)
   \<and> (\<exists>mb'. parseDefaultOrComputedExpr exInsert (ColumnID (tabID exInsert) 0) = Inr (DNull, mb') \<and>
             parseLog mb' = [])
   \<and> parseDefaultOrComputedExpr exInsert (ColumnID (tabID exInsert) 1) = Inr (ExprNode ''42'', exInsertParsed)
   \<and> parseDefaultOrComputedExpr exInsertParsed (ColumnID (tabID exInsert) 1) =
       Inr (ExprNode ''42'', exInsertParsed)
   \<and> count_list (parseLog exInsertParsed) 1 = 1"
proof -
  have h1: "parsedExprs exInsert = None" and h2: "parseLog exInsert = []"
    by (simp_all add: exInsert_fields)
  have h3: "parseCalls exInsert exInsert" by (rule parseCalls_refl)
  have n0: "(0::nat) < DeletableColumnCount (tab exInsert)"
    and n1: "(1::nat) < DeletableColumnCount (tab exInsert)"
    by (simp_all add: exInsert_fields exTab_def DeletableColumnCount_def)
  have x: "\<not> IsComputed (Columns (tab exInsert) ! 0) \<and> \<not> HasDefault (Columns (tab exInsert) ! 0)"
    by (simp add: exInsert_fields exTab_def exCol_def)
  have y: "IsComputed (Columns (tab exInsert) ! 1) \<or> HasDefault (Columns (tab exInsert) ! 1)"
    by (simp add: exInsert_fields exTab_def exCol_def)
  from parseDefaultOrComputedExpr_null_and_cached [OF h1 h2 h3 n0] x h2
  have a: "\<exists>mb'. parseDefaultOrComputedExpr exInsert (ColumnID (tabID exInsert) 0) = Inr (DNull, mb') \<and>
      parseLog mb' = []" by simp
  have later: "parseCalls exInsertParsed exInsertParsed" by (rule parseCalls_refl)
  from parseDefaultOrComputedExpr_null_and_cached [OF h1 h2 h3 n1] y exInsert_parse_y later
  have b: "parseDefaultOrComputedExpr exInsertParsed (ColumnID (tabID exInsert) 1) =
        Inr (ExprNode ''42'', exInsertParsed) \<and>
      count_list (parseLog exInsertParsed) 1 = 1" by blast
  from h1 h2 h3 n1 a exInsert_parse_y b show ?thesis by simp
qed

subsection \<open>Decimal rounding projector\<close>

lemma findRoundingFunction_None:
  "findRoundingFunction (DatumType col) (ColTypePrecision col) = None \<longleftrightarrow> \<not> needsRounding col"
  by (auto simp: findRoundingFunction_def needsRounding_def)

lemma findRoundingFunction_Some:
  "findRoundingFunction (DatumType col) (ColTypePrecision col) = Some ov \<Longrightarrow>
     needsRounding col \<and> ov = (if DatumType col = Decimal then 0 else 1)"
  by (auto simp: findRoundingFunction_def needsRounding_def split: if_splits)

lemma ex_less_Suc_shift:
  "(\<exists>k < Suc n. P k) \<longleftrightarrow> (P 0 \<or> (\<exists>k < n. P (Suc k)))"
  by (metis less_Suc_eq_0_disj)

lemma roundLoop_spec:
  assumes "roundLoop rcc i0 ords ps mb = Inr (ps', mb')"
    and "cur = (case ps of None \<Rightarrow> outScope mb | Some p \<Rightarrow> p)"
    and "length (cols cur) = length (cols (outScope mb))"
    and "\<forall>j < length (cols cur). scName (cols cur ! j) = scName (cols (outScope mb) ! j) \<and>
            scTyp (cols cur ! j) = scTyp (cols (outScope mb) ! j)"
  shows "outScope mb' = outScope mb \<and> tab mb' = tab mb \<and>
         length (cols (case ps' of None \<Rightarrow> outScope mb | Some p \<Rightarrow> p)) = length (cols cur) \<and>
         (\<forall>j < length (cols cur).
            if \<exists>k < length ords. ords ! k = int j \<and> i0 + k < length (Columns (tab mb)) \<and>
                  IsComputed (Columns (tab mb) ! (i0 + k)) = rcc \<and>
                  needsRounding (Columns (tab mb) ! (i0 + k))
            then \<exists>k < length ords. ords ! k = int j \<and> i0 + k < length (Columns (tab mb)) \<and>
                  IsComputed (Columns (tab mb) ! (i0 + k)) = rcc \<and>
                  needsRounding (Columns (tab mb) ! (i0 + k)) \<and>
                  roundedFrom (cols (case ps' of None \<Rightarrow> outScope mb | Some p \<Rightarrow> p) ! j)
                    (cols (outScope mb) ! j) (Columns (tab mb) ! (i0 + k))
            else cols (case ps' of None \<Rightarrow> outScope mb | Some p \<Rightarrow> p) ! j = cols cur ! j)"
  using assms
proof (induction ords arbitrary: i0 ps mb cur)
  case Nil
  then show ?case by simp
next
  case (Cons ord rest)
  let ?Q = "\<lambda>i (o'::int) j. o' = int j \<and> i < length (Columns (tab mb)) \<and>
      IsComputed (Columns (tab mb) ! i) = rcc \<and> needsRounding (Columns (tab mb) ! i)"
  have shift: "\<And>j P. (\<exists>k < length (ord # rest). P k) = (P 0 \<or> (\<exists>k < length rest. P (Suc k)))"
    using ex_less_Suc_shift by simp
  let ?fin = "case ps' of None \<Rightarrow> outScope mb | Some p \<Rightarrow> p"
  let ?R = "\<lambda>j k. rest ! k = int j \<and> Suc (i0 + k) < length (Columns (tab mb)) \<and>
      IsComputed (Columns (tab mb) ! Suc (i0 + k)) = rcc \<and>
      needsRounding (Columns (tab mb) ! Suc (i0 + k))"
  let ?goal = "\<lambda>j. if \<exists>k < length (ord # rest). (ord # rest) ! k = int j \<and>
                i0 + k < length (Columns (tab mb)) \<and>
                IsComputed (Columns (tab mb) ! (i0 + k)) = rcc \<and>
                needsRounding (Columns (tab mb) ! (i0 + k))
            then \<exists>k < length (ord # rest). (ord # rest) ! k = int j \<and>
                i0 + k < length (Columns (tab mb)) \<and>
                IsComputed (Columns (tab mb) ! (i0 + k)) = rcc \<and>
                needsRounding (Columns (tab mb) ! (i0 + k)) \<and>
                roundedFrom (cols ?fin ! j) (cols (outScope mb) ! j) (Columns (tab mb) ! (i0 + k))
            else cols ?fin ! j = cols cur ! j"
  have later: "?goal j"
    if "k < length rest" and "?R j k"
      and "roundedFrom (cols ?fin ! j) (cols (outScope mb) ! j) (Columns (tab mb) ! Suc (i0 + k))"
    for j k
    using that unfolding shift by auto
  have first: "?goal j"
    if "\<not> (\<exists>k < length rest. ?R j k)" and "?Q i0 ord j"
      and "roundedFrom (cols ?fin ! j) (cols (outScope mb) ! j) (Columns (tab mb) ! i0)"
    for j
    using that unfolding shift by auto
  have none: "?goal j"
    if "\<not> (\<exists>k < length rest. ?R j k)" and "\<not> ?Q i0 ord j" and "cols ?fin ! j = cols cur ! j"
    for j
    using that unfolding shift by auto
  show ?case
  proof (cases "ord \<noteq> - 1 \<and> i0 < length (Columns (tab mb)) \<and>
      IsComputed (Columns (tab mb) ! i0) = rcc \<and> needsRounding (Columns (tab mb) ! i0)")
    case False
    with Cons.prems(1) have run: "roundLoop rcc (Suc i0) rest ps mb = Inr (ps', mb')"
      by (auto simp: tabColumn_def split: if_splits sum.splits option.splits
          dest: findRoundingFunction_Some)
    have noQ: "\<And>j. \<not> ?Q i0 ord j" using False by auto
    note ih = Cons.IH [OF run Cons.prems(2,3,4)]
    show ?thesis
    proof (intro conjI allI impI)
      show "outScope mb' = outScope mb" using ih by simp
      show "tab mb' = tab mb" using ih by simp
      show "length (cols ?fin) = length (cols cur)" using ih by simp
    next
      fix j assume j: "j < length (cols cur)"
      from ih j have ihj:
        "if \<exists>k < length rest. ?R j k
         then \<exists>k < length rest. ?R j k \<and>
                roundedFrom (cols ?fin ! j) (cols (outScope mb) ! j) (Columns (tab mb) ! Suc (i0 + k))
         else cols ?fin ! j = cols cur ! j"
        by (simp cong: if_cong)
      show "?goal j"
      proof (cases "\<exists>k < length rest. ?R j k")
        case True
        with ihj obtain k where "k < length rest" "?R j k"
          "roundedFrom (cols ?fin ! j) (cols (outScope mb) ! j) (Columns (tab mb) ! Suc (i0 + k))"
          by auto
        then show ?thesis by (rule later)
      next
        case noR: False
        with ihj have "cols ?fin ! j = cols cur ! j" by simp
        with noR noQ [of j] show ?thesis by (intro none) 
      qed
    qed
  next
    case True
    then obtain ov where ov: "findRoundingFunction (DatumType (Columns (tab mb) ! i0))
        (ColTypePrecision (Columns (tab mb) ! i0)) = Some ov"
      using findRoundingFunction_None [of "Columns (tab mb) ! i0"] by auto
    from findRoundingFunction_Some [OF ov]
    have ovv: "ov = (if DatumType (Columns (tab mb) ! i0) = Decimal then 0 else 1)" by simp
    from Cons.prems(1) True ov have rng: "0 \<le> ord" "nat ord < length (cols (outScope mb))"
      by (auto simp: tabColumn_def split: if_splits)
    define ps2 where "ps2 = cur\<lparr>cols := (cols cur)
        [nat ord := (cols cur ! nat ord)\<lparr>scId := fst (AddColumn (md mb)),
           scScalar := Some (roundingCall (cols (outScope mb) ! nat ord) (Columns (tab mb) ! i0) ov)\<rparr>]\<rparr>"
    define mb1 where "mb1 = mb\<lparr>md := snd (AddColumn (md mb))\<rparr>"
    from Cons.prems(1,2) True ov rng
    have run: "roundLoop rcc (Suc i0) rest (Some ps2) mb1 = Inr (ps', mb')"
      by (auto simp: tabColumn_def Let_def ps2_def mb1_def split: prod.splits)
    have f1: "outScope mb1 = outScope mb" "tab mb1 = tab mb" by (simp_all add: mb1_def)
    have c2: "ps2 = (case Some ps2 of None \<Rightarrow> outScope mb1 | Some p \<Rightarrow> p)" by simp
    have l2: "length (cols ps2) = length (cols (outScope mb1))"
      using Cons.prems(3) by (simp add: ps2_def f1)
    have n2: "\<forall>j < length (cols ps2). scName (cols ps2 ! j) = scName (cols (outScope mb1) ! j) \<and>
        scTyp (cols ps2 ! j) = scTyp (cols (outScope mb1) ! j)"
      using Cons.prems(3,4) rng by (auto simp: ps2_def f1 nth_list_update)
    note ih = Cons.IH [OF run c2 l2 n2, unfolded f1]
    have here: "roundedFrom (cols ps2 ! nat ord) (cols (outScope mb) ! nat ord) (Columns (tab mb) ! i0)"
      using Cons.prems(3,4) rng
      by (simp add: ps2_def roundedFrom_def roundingCall_def ovv)
    have other: "\<And>j. j \<noteq> nat ord \<Longrightarrow> cols ps2 ! j = cols cur ! j"
      by (simp add: ps2_def)
    have len: "length (cols ps2) = length (cols cur)" by (simp add: ps2_def)
    have Q0: "\<And>j. ?Q i0 ord j \<longleftrightarrow> j = nat ord" using True rng by auto
    show ?thesis
    proof (intro conjI allI impI)
      show "outScope mb' = outScope mb" using ih by simp
      show "tab mb' = tab mb" using ih by simp
      show "length (cols ?fin) = length (cols cur)" using ih len by simp
    next
      fix j assume j: "j < length (cols cur)"
      from ih j len have ihj:
        "if \<exists>k < length rest. ?R j k
         then \<exists>k < length rest. ?R j k \<and>
                roundedFrom (cols ?fin ! j) (cols (outScope mb) ! j) (Columns (tab mb) ! Suc (i0 + k))
         else cols ?fin ! j = cols ps2 ! j"
        by (simp cong: if_cong)
      show "?goal j"
      proof (cases "\<exists>k < length rest. ?R j k")
        case True
        with ihj obtain k where "k < length rest" "?R j k"
          "roundedFrom (cols ?fin ! j) (cols (outScope mb) ! j) (Columns (tab mb) ! Suc (i0 + k))"
          by auto
        then show ?thesis by (rule later)
      next
        case noR: False
        with ihj have fin: "cols ?fin ! j = cols ps2 ! j" by simp
        show ?thesis
        proof (cases "j = nat ord")
          case True
          with here fin Q0 [of j] noR show ?thesis by (intro first) simp_all
        next
          case False
          with other fin Q0 [of j] noR show ?thesis by (intro none) simp_all
        qed
      qed
    qed
  qed
qed

lemma roundDecimalValues_pass:
  assumes "roundDecimalValues mb scopeOrds rcc = Inr mb'"
  shows "roundingPass mb scopeOrds rcc mb'"
proof -
  from assms obtain ps' mb1 where run: "roundLoop rcc 0 scopeOrds None mb = Inr (ps', mb1)"
    and res: "mb' = (case ps' of None \<Rightarrow> mb1 | Some p \<Rightarrow> mb1\<lparr>outScope := p\<rparr>)"
    by (auto simp: roundDecimalValues_def split: sum.splits option.splits)
  have c: "outScope mb = (case None of None \<Rightarrow> outScope mb | Some p \<Rightarrow> p)" by simp
  note sp = roundLoop_spec [OF run c, simplified]
  have fin: "outScope mb' = (case ps' of None \<Rightarrow> outScope mb | Some p \<Rightarrow> p)"
    using sp by (simp add: res split: option.splits)
  have t: "tab mb' = tab mb" using sp by (simp add: res split: option.splits)
  show ?thesis
    unfolding roundingPass_def roundsCol_def fin using sp t
    by (simp cong: if_cong conj_cong)
qed

text \<open>
  C9. The rounding projector runs twice, first with \<^verbatim>\<open>roundComputedCols = false\<close> and then
  with \<^verbatim>\<open>true\<close>. In a pass, the scope column of a mutated table column is replaced by the
  call of the rounding function on it, with the column's declared scale as argument, exactly
  when the column is computed as the flag says and its declared type is a DECIMAL or DECIMAL
  array of nonzero precision; a scope column that no such table column is mutated through
  (unset entry, zero precision, other type) is left as it is.
\<close>

theorem roundDecimalValues_two_passes:
  assumes "roundDecimalValuesTwice mb scopeOrds = Inr mb2"
  shows "(\<exists>mb1. roundDecimalValues mb scopeOrds False = Inr mb1 \<and>
                roundDecimalValues mb1 scopeOrds True = Inr mb2 \<and>
                roundingPass mb scopeOrds False mb1 \<and> roundingPass mb1 scopeOrds True mb2)
       \<and> (\<forall>rcc mb'. roundDecimalValues mb scopeOrds rcc = Inr mb' \<longrightarrow> roundingPass mb scopeOrds rcc mb')
       \<and> (\<forall>col. findRoundingFunction (DatumType col) (ColTypePrecision col) \<noteq> None \<longleftrightarrow>
                 needsRounding col)"
proof -
  from assms obtain mb1 where p1: "roundDecimalValues mb scopeOrds False = Inr mb1"
    and p2: "roundDecimalValues mb1 scopeOrds True = Inr mb2"
    by (auto simp: roundDecimalValuesTwice_def split: sum.splits)
  have a: "\<exists>mb1. roundDecimalValues mb scopeOrds False = Inr mb1 \<and>
      roundDecimalValues mb1 scopeOrds True = Inr mb2 \<and>
      roundingPass mb scopeOrds False mb1 \<and> roundingPass mb1 scopeOrds True mb2"
    using p1 p2 roundDecimalValues_pass [OF p1] roundDecimalValues_pass [OF p2] by blast
  have b: "\<forall>rcc mb'. roundDecimalValues mb scopeOrds rcc = Inr mb' \<longrightarrow>
      roundingPass mb scopeOrds rcc mb'"
    using roundDecimalValues_pass by blast
  have c: "\<forall>col. findRoundingFunction (DatumType col) (ColTypePrecision col) \<noteq> None \<longleftrightarrow>
      needsRounding col"
    by (simp add: findRoundingFunction_None)
  show ?thesis by (rule conjI [OF a conjI [OF b c]])
qed

lemma exRound_twice: "roundDecimalValuesTwice exRound [0, 1, 2, - 1] = Inr exRounded"
  by (simp add: roundDecimalValuesTwice_def roundDecimalValues_def exRound_def exRounded_def
      init_def exTab_def exCol_def exMd_def AddTable_def AddColumn_def tabColumn_def
      findRoundingFunction_def roundingCall_def DeletableColumnCount_def Let_def)

theorem roundDecimalValues_two_passes_witness:
  "roundDecimalValuesTwice exRound [0, 1, 2, - 1] = Inr exRounded
   \<and> (\<exists>mb1. roundDecimalValues exRound [0, 1, 2, - 1] False = Inr mb1 \<and>
             roundDecimalValues mb1 [0, 1, 2, - 1] True = Inr exRounded \<and>
             roundingPass exRound [0, 1, 2, - 1] False mb1 \<and>
             roundingPass mb1 [0, 1, 2, - 1] True exRounded)
   \<and> scScalar (cols (outScope exRounded) ! 0) =
       Some (FunctionExpr ''crdb_internal.round_decimal_values'' [VariableExpr 5, ConstExpr 2] Decimal 0)
   \<and> scScalar (cols (outScope exRounded) ! 1) = None
   \<and> scScalar (cols (outScope exRounded) ! 2) =
       Some (FunctionExpr ''crdb_internal.round_decimal_values'' [VariableExpr 7, ConstExpr 1] Decimal 0)"
proof -
  from roundDecimalValues_two_passes [OF exRound_twice]
  have a: "\<exists>mb1. roundDecimalValues exRound [0, 1, 2, - 1] False = Inr mb1 \<and>
      roundDecimalValues mb1 [0, 1, 2, - 1] True = Inr exRounded \<and>
      roundingPass exRound [0, 1, 2, - 1] False mb1 \<and>
      roundingPass mb1 [0, 1, 2, - 1] True exRounded" by blast
  have b: "scScalar (cols (outScope exRounded) ! 0) =
      Some (FunctionExpr ''crdb_internal.round_decimal_values'' [VariableExpr 5, ConstExpr 2] Decimal 0)"
    "scScalar (cols (outScope exRounded) ! 1) = None"
    "scScalar (cols (outScope exRounded) ! 2) =
      Some (FunctionExpr ''crdb_internal.round_decimal_values'' [VariableExpr 7, ConstExpr 1] Decimal 0)"
    by (simp_all add: exRounded_def)
  from exRound_twice a b show ?thesis by simp
qed

subsection \<open>Foreign-key checks: frame and shape of the parts\<close>

lemma sameButFK_refl: "sameButFK mb mb"
  by (simp add: sameButFK_def)

lemma sameButFK_trans: "sameButFK a b \<Longrightarrow> sameButFK b c \<Longrightarrow> sameButFK a c"
  by (cases a, cases b, cases c) (simp add: sameButFK_def)

lemma sameButFK_fields:
  assumes "sameButFK mb mb'"
  shows "tab mb' = tab mb" and "tabID mb' = tabID mb" and "bld mb' = bld mb"
    and "withID mb' = withID mb" and "outScope mb' = outScope mb"
    and "insertOrds mb' = insertOrds mb" and "fetchOrds mb' = fetchOrds mb"
    and "updateOrds mb' = updateOrds mb" and "upsertOrds mb' = upsertOrds mb"
    and "opName mb' = opName mb"
  using assms by (cases mb, cases mb', simp add: sameButFK_def)+

lemma sameButFK_md [simp]: "sameButFK mb (mb\<lparr>md := m\<rparr>)"
  by (simp add: sameButFK_def)

lemma sameButFK_md_checks [simp]: "sameButFK mb (mb\<lparr>md := m, checks := c\<rparr>)"
  by (simp add: sameButFK_def)

lemma sameButFK_bail [simp]: "sameButFK mb (mb\<lparr>checks := c, fkFallback := f\<rparr>)"
  by (simp add: sameButFK_def)

text \<open>The readers of the role arrays do not look at the metadata, the checks or the flag.\<close>

lemma mapToReturnScopeOrd_cong:
  assumes "sameButFK mb mb'"
  shows "mapToReturnScopeOrd mb' i = mapToReturnScopeOrd mb i"
  by (simp add: mapToReturnScopeOrd_def sameButFK_fields [OF assms]
      cong: sum.case_cong if_cong DataSourceResult.case_cong)

lemma scopeOrdToColID_cong:
  assumes "sameButFK mb mb'"
  shows "scopeOrdToColID mb' i = scopeOrdToColID mb i"
  by (simp add: scopeOrdToColID_def sameButFK_fields [OF assms]
      cong: sum.case_cong if_cong DataSourceResult.case_cong)

lemma fkInputCol_cong:
  assumes "sameButFK mb mb'"
  shows "fkInputCol mb' typ i = fkInputCol mb typ i"
  by (simp add: fkInputCol_def sameButFK_fields [OF assms] mapToReturnScopeOrd_cong [OF assms]
      scopeOrdToColID_cong [OF assms]
      cong: sum.case_cong if_cong DataSourceResult.case_cong)

lemma fkColNotNull_cong:
  assumes "sameButFK mb mb'"
  shows "fkColNotNull mb' c i = fkColNotNull mb c i"
  by (simp add: fkColNotNull_def sameButFK_fields [OF assms]
      cong: sum.case_cong if_cong DataSourceResult.case_cong)

lemma inboundFKColsUpdated_cong:
  assumes "sameButFK mb mb'"
  shows "inboundFKColsUpdated mb' i = inboundFKColsUpdated mb i"
  by (simp add: inboundFKColsUpdated_def sameButFK_fields [OF assms]
      cong: sum.case_cong if_cong DataSourceResult.case_cong)

lemma outboundFKColsUpdated_cong:
  assumes "sameButFK mb mb'"
  shows "outboundFKColsUpdated mb' i = outboundFKColsUpdated mb i"
  by (simp add: outboundFKColsUpdated_def sameButFK_fields [OF assms]
      cong: sum.case_cong if_cong DataSourceResult.case_cong)

lemma initWithInboundFK_cong:
  assumes "sameButFK mb mb'"
  shows "initWithInboundFK mb' i = initWithInboundFK mb i"
  by (simp add: initWithInboundFK_def sameButFK_fields [OF assms]
      cong: sum.case_cong if_cong DataSourceResult.case_cong)

lemma initWithOutboundFK_cong:
  assumes "sameButFK mb mb'"
  shows "initWithOutboundFK mb' i = initWithOutboundFK mb i"
  by (simp add: initWithOutboundFK_def sameButFK_fields [OF assms]
      cong: sum.case_cong if_cong DataSourceResult.case_cong)

text \<open>The input scan: shape of the result and the change of state.\<close>

lemma makeFKInputCols_spec:
  assumes "makeFKInputCols typ ords mb = Inr ((ins, outs, nn), mb')"
  shows "mb' = mb\<lparr>md := md mb'\<rparr> \<and>
         length ins = length ords \<and>
         outs = map (\<lambda>k. Suc (mdNumCols (md mb) + k)) [0..<length ords] \<and>
         mdNumCols (md mb') = mdNumCols (md mb) + length ords \<and>
         nn \<subseteq> set outs \<and>
         (\<forall>k < length ords. fkInputCol mb typ (ords ! k) = Inr (ins ! k) \<and> ins ! k \<noteq> 0 \<and>
             fkColNotNull mb (ins ! k) (ords ! k) = Inr (outs ! k \<in> nn))"
  using assms
proof (induction ords arbitrary: mb ins outs nn)
  case Nil
  then show ?case by (cases mb) auto
next
  case (Cons ord rest)
  from Cons.prems obtain inCol b ins1 outs1 nn1 where
    ic: "fkInputCol mb typ ord = Inr inCol" and nz: "inCol \<noteq> 0"
    and b: "fkColNotNull mb inCol ord = Inr b"
    and run: "makeFKInputCols typ rest (mb\<lparr>md := snd (AddColumn (md mb))\<rparr>) = Inr ((ins1, outs1, nn1), mb')"
    and res: "ins = inCol # ins1" "outs = fst (AddColumn (md mb)) # outs1"
      "nn = (if b then insert (fst (AddColumn (md mb))) nn1 else nn1)"
    by (auto split: sum.splits if_splits prod.splits)
  let ?mb1 = "mb\<lparr>md := snd (AddColumn (md mb))\<rparr>"
  have same: "sameButFK mb ?mb1" by simp
  note ih = Cons.IH [OF run, unfolded fkInputCol_cong [OF same] fkColNotNull_cong [OF same]]
  have n1: "mdNumCols (md ?mb1) = Suc (mdNumCols (md mb))" by (simp add: AddColumn_def)
  have o1: "fst (AddColumn (md mb)) = Suc (mdNumCols (md mb))" by (simp add: AddColumn_def)
  have outs1: "outs1 = map (\<lambda>k. Suc (Suc (mdNumCols (md mb)) + k)) [0..<length rest]"
    using ih n1 by simp
  have fresh: "Suc (mdNumCols (md mb)) \<notin> set outs1" unfolding outs1 by auto
  have outs: "outs = map (\<lambda>k. Suc (mdNumCols (md mb) + k)) [0..<length (ord # rest)]"
    unfolding res o1 outs1 by (simp add: upt_conv_Cons map_Suc_upt [symmetric] del: upt_Suc)
  have st: "mb' = mb\<lparr>md := md mb'\<rparr>"
  proof -
    have e: "?mb1\<lparr>md := md mb'\<rparr> = mb\<lparr>md := md mb'\<rparr>" by simp
    from ih have "mb' = ?mb1\<lparr>md := md mb'\<rparr>" by blast
    then show ?thesis unfolding e .
  qed
  show ?case
  proof (intro conjI allI impI)
    show "mb' = mb\<lparr>md := md mb'\<rparr>" by (rule st)
    show "length ins = length (ord # rest)" using ih res by simp
    show "outs = map (\<lambda>k. Suc (mdNumCols (md mb) + k)) [0..<length (ord # rest)]" by (rule outs)
    show "mdNumCols (md mb') = mdNumCols (md mb) + length (ord # rest)" using ih n1 by simp
    show "nn \<subseteq> set outs" using ih res by auto
  next
    fix k assume k: "k < length (ord # rest)"
    show "fkInputCol mb typ ((ord # rest) ! k) = Inr (ins ! k)"
      using k ih ic res by (cases k) auto
    show "ins ! k \<noteq> 0" using k ih nz res by (cases k) auto
    show "fkColNotNull mb (ins ! k) ((ord # rest) ! k) = Inr (outs ! k \<in> nn)"
    proof (cases k)
      case 0
      with b res ih fresh o1 show ?thesis by auto
    next
      case (Suc k')
      with k have k': "k' < length rest" by simp
      from ih k' have e: "fkColNotNull mb (ins1 ! k') (rest ! k') = Inr (outs1 ! k' \<in> nn1)" by simp
      have "outs1 ! k' \<noteq> Suc (mdNumCols (md mb))"
        using fresh k' ih by (metis length_map length_upt minus_nat.diff_0 nth_mem outs1)
      with e Suc res o1 show ?thesis by auto
    qed
  qed
qed

lemma sameButFK_md_update:
  "mb' = mb\<lparr>md := m\<rparr> \<Longrightarrow> sameButFK mb mb' \<and> checks mb' = checks mb \<and> fkFallback mb' = fkFallback mb"
  by simp

lemma makeFKInputScan_spec:
  assumes "makeFKInputScan h typ mb = Inr ((scan, outs, nn), mb')"
  shows "inputScanOf mb typ (tabOrdinals h) scan outs nn \<and> sameButFK mb mb' \<and>
         checks mb' = checks mb \<and> fkFallback mb' = fkFallback mb"
proof -
  from assms obtain ins mb1 where
    run: "makeFKInputCols typ (tabOrdinals h) mb = Inr ((ins, outs, nn), mb1)"
    and scan: "scan = WithScanExpr (withID mb1) ins outs (fst (NextUniqueID (md mb1)))"
    and res: "mb' = mb1\<lparr>md := snd (NextUniqueID (md mb1))\<rparr>"
    by (auto simp: makeFKInputScan_def split: sum.splits prod.splits)
  note sp = makeFKInputCols_spec [OF run]
  from sp have m1: "mb1 = mb\<lparr>md := md mb1\<rparr>" by blast
  have w: "withID mb1 = withID mb" by (subst m1) simp
  have st: "mb' = mb\<lparr>md := snd (NextUniqueID (md mb1))\<rparr>"
    unfolding res by (subst m1) simp
  have d: "distinct outs"
    using sp by (simp add: distinct_map inj_on_def)
  have "inputScanOf mb typ (tabOrdinals h) scan outs nn"
    unfolding inputScanOf_def scan w using sp d by auto
  with sameButFK_md_update [OF st] show ?thesis by simp
qed

lemma buildOtherTableScan_spec:
  assumes "buildOtherTableScan h mb = Inr ((scanCols, scanExpr, tid), mb')"
  shows "(\<exists>t m. otherTab h = Some t \<and> mb' = mb\<lparr>md := m\<rparr>) \<and>
         scanCols = map (ColumnID tid) (otherTabOrdinals h) \<and>
         scanExpr = ScanExpr tid (otherTabOrdinals h)"
  using assms by (auto simp: buildOtherTableScan_def split: option.splits prod.splits)

lemma addDeletionCheck_spec:
  assumes "addDeletionCheck h deletedRows deleteCols mb = Inr mb'"
  shows "\<exists>c scan fs. checks mb' = checks mb @ [c] \<and> \<not> FKOutbound c \<and> FKOrdinal c = fkOrdinal h \<and>
           KeyCols c = deleteCols \<and> Check c = SemiJoinExpr deletedRows scan fs \<and>
           sameButFK mb mb' \<and> fkFallback mb' = fkFallback mb \<and> otherTab h \<noteq> None"
proof -
  from assms obtain scanCols scanExpr tid mb1 fs where
    sc: "buildOtherTableScan h mb = Inr ((scanCols, scanExpr, tid), mb1)"
    and res: "mb' = mb1\<lparr>checks := checks mb1 @
                 [\<lparr>Check = SemiJoinExpr deletedRows scanExpr fs,
                   OriginTable = tid, ReferencedTable = tabID mb1,
                   FKOutbound = False, FKOrdinal = fkOrdinal h,
                   KeyCols = deleteCols, OpName = opName mb1\<rparr>]\<rparr>"
    by (auto simp: addDeletionCheck_def split: sum.splits prod.splits)
  from buildOtherTableScan_spec [OF sc] obtain t m where
    m1: "mb1 = mb\<lparr>md := m\<rparr>" and t: "otherTab h = Some t" by blast
  show ?thesis
    unfolding res m1 using t by (simp add: sameButFK_def)
qed

subsection \<open>Rows kept by the filters of an insertion check\<close>

lemma rowEnv_nth:
  "distinct cs \<Longrightarrow> length row = length cs \<Longrightarrow> k < length cs \<Longrightarrow> rowEnv cs row (cs ! k) = row ! k"
  by (simp add: rowEnv_def map_of_zip_nth)

lemma map_rowEnv_id:
  assumes "distinct cs" and "length row = length cs"
  shows "map (rowEnv cs row) cs = row"
  using assms by (auto simp: list_eq_iff_nth_eq rowEnv_nth)

lemma filterTrue_isNotNull [simp]: "filterTrue r (isNotNull c) = (r c \<noteq> None)"
  by (simp add: isNotNull_def)


lemma orChain_None_iff: "orChain (Some a) cs \<noteq> None"
  by (induction cs arbitrary: a) auto


lemma orChain_nonempty: "cs \<noteq> [] \<Longrightarrow> \<exists>cond. orChain None cs = Some cond"
proof (cases cs)
  case Nil
  assume "cs \<noteq> []"
  with Nil show ?thesis by simp
next
  case (Cons a list)
  have "orChain (Some (isNotNull a)) list \<noteq> None" by (rule orChain_None_iff)
  then show ?thesis using Cons by auto
qed







subsection \<open>Insertion checks\<close>

lemma initWithOutboundFK_spec:
  assumes "initWithOutboundFK mb i = Inr (ok, h)"
  shows "i < length (OutboundFKs (tab mb)) \<and> fk h = OutboundFKs (tab mb) ! i \<and> fkOrdinal h = i \<and>
         (ok \<longleftrightarrow> otherTab h \<noteq> None) \<and>
         (ok \<longrightarrow> tabOrdinals h = map fst (FKColumns (fk h)) \<and>
                otherTabOrdinals h = map snd (FKColumns (fk h))) \<and>
         (\<not> ok \<longleftrightarrow> ResolveDataSourceByID (bld mb) (ReferencedTableID (OutboundFKs (tab mb) ! i)) =
                    ResolveFailed True)"
  using assms
  by (auto simp: initWithOutboundFK_def fkAt_def Let_def
      split: sum.splits if_splits DataSourceResult.splits)

lemma initWithInboundFK_spec:
  assumes "initWithInboundFK mb i = Inr (ok, h)"
  shows "i < length (InboundFKs (tab mb)) \<and> fk h = InboundFKs (tab mb) ! i \<and> fkOrdinal h = i \<and>
         (ok \<longleftrightarrow> otherTab h \<noteq> None) \<and>
         (ok \<longrightarrow> tabOrdinals h = map snd (FKColumns (fk h)) \<and>
                otherTabOrdinals h = map fst (FKColumns (fk h))) \<and>
         (\<not> ok \<longleftrightarrow> ResolveDataSourceByID (bld mb) (OriginTableID (InboundFKs (tab mb) ! i)) =
                    ResolveFailed True) \<and>
         (ok \<longleftrightarrow> (\<exists>t. ResolveDataSourceByID (bld mb) (OriginTableID (InboundFKs (tab mb) ! i)) =
                    ResolveOK t))"
  using assms
  by (auto simp: initWithInboundFK_def fkAt_def Let_def
      split: sum.splits if_splits DataSourceResult.splits)

lemma joinFilters_spec:
  "joinFilters n l (map g ords) = Inr fs \<Longrightarrow>
     fs = map (\<lambda>j. EqExpr (VariableExpr (l ! j)) (VariableExpr (g (ords ! j)))) [0..<n]"
  by (auto simp: joinFilters_def split: if_splits)

lemma addInsertionCheck_spec:
  assumes "addInsertionCheck mb i = Inr mb'"
  shows "\<exists>c scan outs nn input tid.
           checks mb' = checks mb @ [c] \<and> FKOutbound c \<and> FKOrdinal c = i \<and> KeyCols c = outs \<and>
           sameButFK mb mb' \<and> fkFallback mb' = fkFallback mb \<and>
           i < length (OutboundFKs (tab mb)) \<and>
           inputScanOf mb fkInputScanNewVals (map fst (FKColumns (OutboundFKs (tab mb) ! i)))
             scan outs nn \<and>
           insertionFilter (MatchMethod (OutboundFKs (tab mb) ! i)) scan outs nn = Inr input \<and>
           Check c = AntiJoinExpr input
                       (ScanExpr tid (map snd (FKColumns (OutboundFKs (tab mb) ! i))))
                       (map (\<lambda>j. EqExpr (VariableExpr (outs ! j))
                                   (VariableExpr (ColumnID tid
                                      (map snd (FKColumns (OutboundFKs (tab mb) ! i)) ! j))))
                          [0..<length outs])"
proof -
  from assms obtain ok h scan outs nn mb1 input scanCols scanExpr tid mb2 fs where
    ini: "initWithOutboundFK mb i = Inr (ok, h)"
    and sc: "makeFKInputScan h fkInputScanNewVals mb = Inr ((scan, outs, nn), mb1)"
    and fl: "insertionFilter (MatchMethod (fk h)) scan outs nn = Inr input"
    and ot: "buildOtherTableScan h mb1 = Inr ((scanCols, scanExpr, tid), mb2)"
    and jf: "joinFilters (length outs) outs scanCols = Inr fs"
    and res: "mb' = mb2\<lparr>checks := checks mb2 @
                 [\<lparr>Check = AntiJoinExpr input scanExpr fs,
                   OriginTable = tabID mb2, ReferencedTable = tid,
                   FKOutbound = True, FKOrdinal = i,
                   KeyCols = outs, OpName = opName mb2\<rparr>]\<rparr>"
    by (auto simp: addInsertionCheck_def split: sum.splits prod.splits)
  note i1 = initWithOutboundFK_spec [OF ini]
  note s1 = makeFKInputScan_spec [OF sc]
  note o1 = buildOtherTableScan_spec [OF ot]
  from o1 obtain t m where t: "otherTab h = Some t" and m2: "mb2 = mb1\<lparr>md := m\<rparr>" by blast
  from i1 t have ok: ok by simp
  with i1 have ords: "tabOrdinals h = map fst (FKColumns (OutboundFKs (tab mb) ! i))"
    "otherTabOrdinals h = map snd (FKColumns (OutboundFKs (tab mb) ! i))"
    "fk h = OutboundFKs (tab mb) ! i" by simp_all
  have "sameButFK mb1 mb'" unfolding res m2 by simp
  with s1 have same2: "sameButFK mb mb'" by (blast intro: sameButFK_trans)
  have fb: "fkFallback mb' = fkFallback mb" unfolding res m2 using s1 by simp
  have ch: "checks mb' = checks mb @
      [\<lparr>Check = AntiJoinExpr input scanExpr fs, OriginTable = tabID mb2, ReferencedTable = tid,
        FKOutbound = True, FKOrdinal = i, KeyCols = outs, OpName = opName mb2\<rparr>]"
    unfolding res m2 using s1 by simp
  have fs: "fs = map (\<lambda>j. EqExpr (VariableExpr (outs ! j))
      (VariableExpr (ColumnID tid (map snd (FKColumns (OutboundFKs (tab mb) ! i)) ! j))))
      [0..<length outs]"
    using jf o1 joinFilters_spec [of "length outs" outs "ColumnID tid" "otherTabOrdinals h" fs]
    by (simp add: ords)
  show ?thesis
    apply (rule exI [of _ "\<lparr>Check = AntiJoinExpr input scanExpr fs, OriginTable = tabID mb2,
        ReferencedTable = tid, FKOutbound = True, FKOrdinal = i, KeyCols = outs,
        OpName = opName mb2\<rparr>"])
    apply (rule exI [of _ scan], rule exI [of _ outs], rule exI [of _ nn],
        rule exI [of _ input], rule exI [of _ tid])
    using ch same2 fb i1 s1 fl o1 fs by (simp add: ords)
qed



lemmas ex_defs = exChecked_def exInsertionCheck_def exChildInsert_def exChildTab_def exFK_def
  exCol_def exBuilder_def exTab_def exMd_def init_def reserveWithID_def
  AddTable_def AddColumn_def NextWithID_def NextUniqueID_def DeletableColumnCount_def

lemmas fk_defs = addInsertionCheck_def initWithOutboundFK_def fkAt_def makeFKInputScan_def
  fkInputCol_def fkColNotNull_def mapToReturnScopeOrd_def ordAt_def scopeOrdToColID_def
  tabColumn_def insertionFilter_def buildOtherTableScan_def joinFilters_def ColumnID_def
  isNotNull_def Let_def

lemma exSimple_run:
  "addInsertionCheck (reserveWithID (exChildInsert exFK True)) 0 =
     Inr (exChecked exFK True
            (SelectExpr (WithScanExpr 1 [3, 4] [5, 6] 1) [isNotNull 5, isNotNull 6]))"
  by (simp add: ex_defs fk_defs)








subsection \<open>The loops over the foreign keys\<close>

lemma inputScanOf_cong:
  assumes "sameButFK mb mb'"
  shows "inputScanOf mb' typ ords scan outs nn = inputScanOf mb typ ords scan outs nn"
  by (simp add: inputScanOf_def fkInputCol_cong [OF assms] fkColNotNull_cong [OF assms]
      sameButFK_fields [OF assms])

lemma relevantUpdate_cong:
  assumes "sameButFK mb mb'"
  shows "relevantUpdate mb' i = relevantUpdate mb i"
  by (simp add: relevantUpdate_def relevantInbound_def inboundFKColsUpdated_cong [OF assms]
      sameButFK_fields [OF assms])

lemma relevantInbound_cong:
  assumes "sameButFK mb mb'"
  shows "relevantInbound mb' i = relevantInbound mb i"
  by (simp add: relevantInbound_def sameButFK_fields [OF assms])

lemma updateDeletionCheck_cong:
  assumes "sameButFK mb mb'"
  shows "updateDeletionCheck mb' c = updateDeletionCheck mb c"
  by (simp add: updateDeletionCheck_def relevantUpdate_cong [OF assms] inputScanOf_cong [OF assms]
      sameButFK_fields [OF assms])

lemma deletedRowsExcept_spec:
  assumes "deletedRowsExcept h mb = Inr ((deleted, dcols), mb')"
  shows "sameButFK mb mb' \<and> checks mb' = checks mb \<and> fkFallback mb' = fkFallback mb \<and>
         (\<exists>oldRows newRows newCols nn1 nn2.
            deleted = ExceptExpr oldRows newRows dcols newCols dcols \<and>
            inputScanOf mb fkInputScanFetchedVals (tabOrdinals h) oldRows dcols nn1 \<and>
            inputScanOf mb fkInputScanNewVals (tabOrdinals h) newRows newCols nn2)"
proof -
  from assms obtain oldRows nn1 mb1 newRows newCols nn2 where
    a: "makeFKInputScan h fkInputScanFetchedVals mb = Inr ((oldRows, dcols, nn1), mb1)"
    and b: "makeFKInputScan h fkInputScanNewVals mb1 = Inr ((newRows, newCols, nn2), mb')"
    and d: "deleted = ExceptExpr oldRows newRows dcols newCols dcols"
    by (auto simp: deletedRowsExcept_def split: sum.splits prod.splits)
  note sa = makeFKInputScan_spec [OF a]
  note sb = makeFKInputScan_spec [OF b]
  from sa have s1: "sameButFK mb mb1" by simp
  from sb have "inputScanOf mb fkInputScanNewVals (tabOrdinals h) newRows newCols nn2"
    by (simp add: inputScanOf_cong [OF s1])
  with sa sb d show ?thesis
    by (auto intro: sameButFK_trans)
qed

text \<open>The loop over the inbound foreign keys of an update or upsert.\<close>

lemma updateDeletionChecks_spec:
  assumes "updateDeletionChecks is mb = Inr mb'"
  shows "sameButFK mb mb' \<and>
         ((checks mb' = [] \<and> fkFallback mb' \<and>
           (\<exists>i \<in> set is. relevantUpdate mb i \<and>
              \<not> isRestrict (UpdateReferenceAction (InboundFKs (tab mb) ! i))))
          \<or> (fkFallback mb' = fkFallback mb \<and>
              (\<forall>i \<in> set is. relevantUpdate mb i \<longrightarrow>
                 isRestrict (UpdateReferenceAction (InboundFKs (tab mb) ! i))) \<and>
              (\<exists>new. checks mb' = checks mb @ new \<and>
                 (\<forall>c \<in> set new. updateDeletionCheck mb c \<and> FKOrdinal c \<in> set is) \<and>
                 (\<forall>i \<in> set is. relevantUpdate mb i \<longrightarrow> (\<exists>c \<in> set new. FKOrdinal c = i)))))"
  using assms
proof (induction "is" arbitrary: mb)
  case Nil
  then show ?case by (simp add: sameButFK_refl)
next
  case (Cons i rest)
  from Cons.prems obtain upd where upd: "inboundFKColsUpdated mb i = Inr upd"
    by (auto split: sum.splits)
  show ?case
  proof (cases upd)
    case False
    with Cons.prems upd have run: "updateDeletionChecks rest mb = Inr mb'" by simp
    have nr: "\<not> relevantUpdate mb i" using upd False by (simp add: relevantUpdate_def)
    from Cons.IH [OF run] nr show ?thesis by auto
  next
    case True
    with Cons.prems upd obtain ok h where ini: "initWithInboundFK mb i = Inr (ok, h)"
      by (auto split: sum.splits)
    note i1 = initWithInboundFK_spec [OF ini]
    show ?thesis
    proof (cases ok)
      case False
      with Cons.prems upd True ini have run: "updateDeletionChecks rest mb = Inr mb'" by simp
      have nr: "\<not> relevantUpdate mb i"
        using i1 False by (simp add: relevantUpdate_def relevantInbound_def)
      from Cons.IH [OF run] nr show ?thesis by auto
    next
      case ok: True
      have rel: "relevantUpdate mb i"
        using i1 ok upd True by (simp add: relevantUpdate_def relevantInbound_def)
      have fkh: "fk h = InboundFKs (tab mb) ! i" using i1 by simp
      show ?thesis
      proof (cases "isRestrict (UpdateReferenceAction (InboundFKs (tab mb) ! i))")
        case False
        with Cons.prems upd True ini ok fkh
        have res: "mb' = mb\<lparr>checks := [], fkFallback := True\<rparr>" by simp
        have "sameButFK mb mb'" unfolding res by simp
        moreover have "checks mb' = [] \<and> fkFallback mb'" unfolding res by simp
        ultimately show ?thesis using rel False by auto
      next
        case restr: True
        with Cons.prems upd True ini ok fkh obtain deleted dcols mb1 mb2 where
          ex: "deletedRowsExcept h mb = Inr ((deleted, dcols), mb1)"
          and ad: "addDeletionCheck h deleted dcols mb1 = Inr mb2"
          and run: "updateDeletionChecks rest mb2 = Inr mb'"
          by (auto split: sum.splits prod.splits)
        note e1 = deletedRowsExcept_spec [OF ex]
        from addDeletionCheck_spec [OF ad] obtain c scan fs where
          c: "checks mb2 = checks mb1 @ [c]" "\<not> FKOutbound c" "FKOrdinal c = fkOrdinal h"
            "KeyCols c = dcols" "Check c = SemiJoinExpr deleted scan fs"
          and s12: "sameButFK mb1 mb2" and f12: "fkFallback mb2 = fkFallback mb1"
          by blast
        have s02: "sameButFK mb mb2" using e1 s12 by (blast intro: sameButFK_trans)
        have ci: "FKOrdinal c = i" using c i1 by simp
        have udc: "updateDeletionCheck mb c"
          unfolding updateDeletionCheck_def ci using c e1 rel restr i1 ok by auto
        have ch2: "checks mb2 = checks mb @ [c]" using c e1 by simp
        have fb2: "fkFallback mb2 = fkFallback mb" using f12 e1 by simp
        note ih = Cons.IH [OF run, unfolded relevantUpdate_cong [OF s02]
            updateDeletionCheck_cong [OF s02] sameButFK_fields(1) [OF s02]]
        from ih have s2': "sameButFK mb2 mb'" by simp
        have same: "sameButFK mb mb'" using s02 s2' by (rule sameButFK_trans)
        from ih consider
          (bail) "checks mb' = []" "fkFallback mb'"
            "\<exists>j \<in> set rest. relevantUpdate mb j \<and>
               \<not> isRestrict (UpdateReferenceAction (InboundFKs (tab mb) ! j))"
          | (cont) new where "fkFallback mb' = fkFallback mb2"
            "\<forall>j \<in> set rest. relevantUpdate mb j \<longrightarrow>
               isRestrict (UpdateReferenceAction (InboundFKs (tab mb) ! j))"
            "checks mb' = checks mb2 @ new"
            "\<forall>c \<in> set new. updateDeletionCheck mb c \<and> FKOrdinal c \<in> set rest"
            "\<forall>j \<in> set rest. relevantUpdate mb j \<longrightarrow> (\<exists>c \<in> set new. FKOrdinal c = j)"
          by blast
        then show ?thesis
        proof cases
          case bail
          with same show ?thesis by auto
        next
          case cont
          have a: "fkFallback mb' = fkFallback mb" using cont(1) fb2 by simp
          have b: "\<forall>j \<in> set (i # rest). relevantUpdate mb j \<longrightarrow>
              isRestrict (UpdateReferenceAction (InboundFKs (tab mb) ! j))"
            using cont(2) restr by simp
          have c1: "checks mb' = checks mb @ (c # new)" using cont(3) ch2 by simp
          have c2: "\<forall>x \<in> set (c # new). updateDeletionCheck mb x \<and> FKOrdinal x \<in> set (i # rest)"
            using cont(4) udc ci by simp
          have c3: "\<forall>j \<in> set (i # rest). relevantUpdate mb j \<longrightarrow>
              (\<exists>x \<in> set (c # new). FKOrdinal x = j)"
            using cont(5) ci by simp
          from same a b c1 c2 c3 show ?thesis by blast
        qed
      qed
    qed
  qed
qed

lemma insertionChecks_spec:
  assumes "insertionChecks is mb = Inr mb'"
  shows "sameButFK mb mb' \<and> fkFallback mb' = fkFallback mb \<and>
         (\<exists>new. checks mb' = checks mb @ new \<and> (\<forall>c \<in> set new. FKOutbound c) \<and>
                map FKOrdinal new = is)"
  using assms
proof (induction "is" arbitrary: mb)
  case Nil
  then show ?case by (simp add: sameButFK_refl)
next
  case (Cons i rest)
  from Cons.prems obtain mb1 where ad: "addInsertionCheck mb i = Inr mb1"
    and run: "insertionChecks rest mb1 = Inr mb'"
    by (auto split: sum.splits)
  from addInsertionCheck_spec [OF ad] obtain c where
    c: "checks mb1 = checks mb @ [c]" "FKOutbound c" "FKOrdinal c = i"
    and s1: "sameButFK mb mb1" and f1: "fkFallback mb1 = fkFallback mb" by blast
  from Cons.IH [OF run] obtain new where
    s2: "sameButFK mb1 mb'" and f2: "fkFallback mb' = fkFallback mb1"
    and n: "checks mb' = checks mb1 @ new" "\<forall>c \<in> set new. FKOutbound c" "map FKOrdinal new = rest"
    by blast
  have "checks mb' = checks mb @ (c # new)" using c n by simp
  moreover have "\<forall>x \<in> set (c # new). FKOutbound x" using c n by simp
  moreover have "map FKOrdinal (c # new) = i # rest" using c n by simp
  ultimately show ?case
    using sameButFK_trans [OF s1 s2] f1 f2 by metis
qed

lemma updateInsertionChecks_spec:
  assumes "updateInsertionChecks is mb = Inr mb'"
  shows "sameButFK mb mb' \<and> fkFallback mb' = fkFallback mb \<and>
         (\<exists>new. checks mb' = checks mb @ new \<and> (\<forall>c \<in> set new. FKOutbound c))"
  using assms
proof (induction "is" arbitrary: mb)
  case Nil
  then show ?case by (simp add: sameButFK_refl)
next
  case (Cons i rest)
  from Cons.prems obtain upd where upd: "outboundFKColsUpdated mb i = Inr upd"
    by (auto split: sum.splits)
  show ?case
  proof (cases upd)
    case False
    with Cons.prems upd have "updateInsertionChecks rest mb = Inr mb'" by simp
    from Cons.IH [OF this] show ?thesis .
  next
    case True
    with Cons.prems upd obtain mb1 where ad: "addInsertionCheck mb i = Inr mb1"
      and run: "updateInsertionChecks rest mb1 = Inr mb'"
      by (auto split: sum.splits)
    from addInsertionCheck_spec [OF ad] obtain c where
      c: "checks mb1 = checks mb @ [c]" "FKOutbound c"
      and s1: "sameButFK mb mb1" and f1: "fkFallback mb1 = fkFallback mb" by blast
    from Cons.IH [OF run] obtain new where
      s2: "sameButFK mb1 mb'" and f2: "fkFallback mb' = fkFallback mb1"
      and n: "checks mb' = checks mb1 @ new" "\<forall>c \<in> set new. FKOutbound c"
      by blast
    have "checks mb' = checks mb @ (c # new)" using c n by simp
    moreover have "\<forall>x \<in> set (c # new). FKOutbound x" using c n by simp
    ultimately show ?thesis
      using sameButFK_trans [OF s1 s2] f1 f2 by metis
  qed
qed

text \<open>The loop over the inbound foreign keys of a delete.\<close>

lemma deletionChecks_spec:
  assumes "deletionChecks is mb = Inr mb'"
  shows "sameButFK mb mb' \<and>
         ((checks mb' = [] \<and> fkFallback mb' \<and>
           (\<exists>i \<in> set is. relevantInbound mb i \<and>
              \<not> isRestrict (DeleteReferenceAction (InboundFKs (tab mb) ! i))))
          \<or> (fkFallback mb' = fkFallback mb \<and>
              (\<forall>i \<in> set is. relevantInbound mb i \<longrightarrow>
                 isRestrict (DeleteReferenceAction (InboundFKs (tab mb) ! i))) \<and>
              (\<exists>new. checks mb' = checks mb @ new \<and>
                 (\<forall>c \<in> set new. \<not> FKOutbound c \<and> FKOrdinal c \<in> set is) \<and>
                 (\<forall>i \<in> set is. relevantInbound mb i \<longrightarrow> (\<exists>c \<in> set new. FKOrdinal c = i)))))"
  using assms
proof (induction "is" arbitrary: mb)
  case Nil
  then show ?case by (simp add: sameButFK_refl)
next
  case (Cons i rest)
  from Cons.prems obtain ok h where ini: "initWithInboundFK mb i = Inr (ok, h)"
    by (auto split: sum.splits)
  note i1 = initWithInboundFK_spec [OF ini]
  show ?case
  proof (cases ok)
    case False
    with Cons.prems ini have run: "deletionChecks rest mb = Inr mb'" by simp
    have nr: "\<not> relevantInbound mb i" using i1 False by (simp add: relevantInbound_def)
    from Cons.IH [OF run] nr show ?thesis by auto
  next
    case ok: True
    have rel: "relevantInbound mb i" using i1 ok by (simp add: relevantInbound_def)
    have fkh: "fk h = InboundFKs (tab mb) ! i" using i1 by simp
    show ?thesis
    proof (cases "isRestrict (DeleteReferenceAction (InboundFKs (tab mb) ! i))")
      case False
      with Cons.prems ini ok fkh
      have res: "mb' = mb\<lparr>checks := [], fkFallback := True\<rparr>" by simp
      have "sameButFK mb mb'" unfolding res by simp
      moreover have "checks mb' = [] \<and> fkFallback mb'" unfolding res by simp
      ultimately show ?thesis using rel False by auto
    next
      case restr: True
      with Cons.prems ini ok fkh obtain fkInput dcols nn mb1 mb2 where
        sc: "makeFKInputScan h fkInputScanFetchedVals mb = Inr ((fkInput, dcols, nn), mb1)"
        and ad: "addDeletionCheck h fkInput dcols mb1 = Inr mb2"
        and run: "deletionChecks rest mb2 = Inr mb'"
        by (auto split: sum.splits prod.splits)
      note e1 = makeFKInputScan_spec [OF sc]
      from addDeletionCheck_spec [OF ad] obtain c where
        c: "checks mb2 = checks mb1 @ [c]" "\<not> FKOutbound c" "FKOrdinal c = fkOrdinal h"
        and s12: "sameButFK mb1 mb2" and f12: "fkFallback mb2 = fkFallback mb1"
        by blast
      have s02: "sameButFK mb mb2" using e1 s12 by (blast intro: sameButFK_trans)
      have ci: "FKOrdinal c = i" using c i1 by simp
      have ch2: "checks mb2 = checks mb @ [c]" using c e1 by simp
      have fb2: "fkFallback mb2 = fkFallback mb" using f12 e1 by simp
      note ih = Cons.IH [OF run, unfolded relevantInbound_cong [OF s02]
          sameButFK_fields(1) [OF s02]]
      from ih have s2': "sameButFK mb2 mb'" by simp
      have same: "sameButFK mb mb'" using s02 s2' by (rule sameButFK_trans)
      from ih consider
        (bail) "checks mb' = []" "fkFallback mb'"
          "\<exists>j \<in> set rest. relevantInbound mb j \<and>
             \<not> isRestrict (DeleteReferenceAction (InboundFKs (tab mb) ! j))"
        | (cont) new where "fkFallback mb' = fkFallback mb2"
          "\<forall>j \<in> set rest. relevantInbound mb j \<longrightarrow>
             isRestrict (DeleteReferenceAction (InboundFKs (tab mb) ! j))"
          "checks mb' = checks mb2 @ new"
          "\<forall>c \<in> set new. \<not> FKOutbound c \<and> FKOrdinal c \<in> set rest"
          "\<forall>j \<in> set rest. relevantInbound mb j \<longrightarrow> (\<exists>c \<in> set new. FKOrdinal c = j)"
        by blast
      then show ?thesis
      proof cases
        case bail
        with same show ?thesis by auto
      next
        case cont
        have a: "fkFallback mb' = fkFallback mb" using cont(1) fb2 by simp
        have b: "\<forall>j \<in> set (i # rest). relevantInbound mb j \<longrightarrow>
            isRestrict (DeleteReferenceAction (InboundFKs (tab mb) ! j))"
          using cont(2) restr by simp
        have c1: "checks mb' = checks mb @ (c # new)" using cont(3) ch2 by simp
        have c2: "\<forall>x \<in> set (c # new). \<not> FKOutbound x \<and> FKOrdinal x \<in> set (i # rest)"
          using cont(4) c ci by simp
        have c3: "\<forall>j \<in> set (i # rest). relevantInbound mb j \<longrightarrow>
            (\<exists>x \<in> set (c # new). FKOrdinal x = j)"
          using cont(5) ci by simp
        from same a b c1 c2 c3 show ?thesis by blast
      qed
    qed
  qed
qed

text \<open>Reserving the binding changes the metadata and the binding only.\<close>

lemma reserveWithID_fields:
  "tab (reserveWithID mb) = tab mb" "bld (reserveWithID mb) = bld mb"
  "checks (reserveWithID mb) = checks mb" "fkFallback (reserveWithID mb) = fkFallback mb"
  "withID (reserveWithID mb) \<noteq> 0" "updateOrds (reserveWithID mb) = updateOrds mb"
  by (simp_all add: reserveWithID_def NextWithID_def)

lemma reserveWithID_relevant:
  "relevantInbound (reserveWithID mb) i = relevantInbound mb i"
  "relevantUpdate (reserveWithID mb) i = relevantUpdate mb i"
  "inboundFKColsUpdated (reserveWithID mb) i = inboundFKColsUpdated mb i"
  by (simp_all add: relevantInbound_def relevantUpdate_def inboundFKColsUpdated_def
      reserveWithID_fields cong: sum.case_cong)

lemma makeMutationPrivate_spec:
  assumes "makeMutationPrivate mb needResults = Inr p"
  shows "WithID p = (if checks mb = [] then 0 else withID mb) \<and> FKFallback p = fkFallback mb"
  using assms
  by (auto simp: makeMutationPrivate_def Let_def split: sum.splits if_splits)

text \<open>Each builder returns the state as it is, sets the fallback flag only, or reserves the
  binding and then changes the metadata, the checks and the flag only.\<close>

lemma if_chain:
  assumes "(if a then Inr x else if b then Inr y else r) = Inr z"
  shows "a \<and> z = x \<or> \<not> a \<and> b \<and> z = y \<or> \<not> a \<and> \<not> b \<and> r = Inr z"
  using assms by (auto split: if_splits)

lemma case_chain:
  assumes "(case r of Inl e \<Rightarrow> Inl e | Inr v \<Rightarrow> g v) = Inr z"
  shows "\<exists>v. r = Inr v \<and> g v = Inr z"
  using assms by (cases r) simp_all

lemma buildFKChecksForInsert_cases:
  assumes "buildFKChecksForInsert mb = Inr mb'"
  shows "mb' = mb \<or> mb' = mb\<lparr>fkFallback := True\<rparr> \<or> sameButFK (reserveWithID mb) mb'"
proof -
  from if_chain [OF assms [unfolded buildFKChecksForInsert_def]]
  consider "mb' = mb" | "mb' = mb\<lparr>fkFallback := True\<rparr>"
    | "insertionChecks [0..<length (OutboundFKs (tab mb))] (reserveWithID mb) = Inr mb'"
    by blast
  then show ?thesis
  proof cases
    case 1
    then show ?thesis by (rule disjI1)
  next
    case 2
    then show ?thesis by (rule disjI2 [OF disjI1])
  next
    case 3
    from insertionChecks_spec [OF 3] have "sameButFK (reserveWithID mb) mb'" by (rule conjunct1)
    then show ?thesis by (rule disjI2 [OF disjI2])
  qed
qed

lemma buildFKChecksForDelete_run:
  assumes "buildFKChecksForDelete mb = Inr mb'"
  shows "mb' = mb \<and> InboundFKs (tab mb) = [] \<or>
         mb' = mb\<lparr>fkFallback := True\<rparr> \<and> \<not> OptimizerFKs (bld mb) \<or>
         deletionChecks [0..<length (InboundFKs (tab mb))] (reserveWithID mb) = Inr mb'"
proof -
  from if_chain [OF assms [unfolded buildFKChecksForDelete_def]]
  consider "length (InboundFKs (tab mb)) = 0" "mb' = mb"
    | "\<not> OptimizerFKs (bld mb)" "mb' = mb\<lparr>fkFallback := True\<rparr>"
    | "deletionChecks [0..<length (InboundFKs (tab mb))] (reserveWithID mb) = Inr mb'"
    by blast
  then show ?thesis
  proof cases
    case 1
    from 1(1) have "InboundFKs (tab mb) = []" by simp
    with 1(2) show ?thesis by blast
  next
    case 2
    then show ?thesis by blast
  next
    case 3
    then show ?thesis by blast
  qed
qed

lemma buildFKChecksForDelete_cases:
  assumes "buildFKChecksForDelete mb = Inr mb'"
  shows "mb' = mb \<or> mb' = mb\<lparr>fkFallback := True\<rparr> \<or> sameButFK (reserveWithID mb) mb'"
  using buildFKChecksForDelete_run [OF assms] deletionChecks_spec by blast

lemma buildFKChecksForUpdate_run:
  assumes "buildFKChecksForUpdate mb = Inr mb'"
  shows "mb' = mb \<and> InboundFKs (tab mb) = [] \<or>
         mb' = mb\<lparr>fkFallback := True\<rparr> \<and> \<not> OptimizerFKs (bld mb) \<or>
         (\<exists>mb1. updateInsertionChecks [0..<length (OutboundFKs (tab mb))] (reserveWithID mb) = Inr mb1 \<and>
                updateDeletionChecks [0..<length (InboundFKs (tab mb))] mb1 = Inr mb')"
proof -
  from if_chain [OF assms [unfolded buildFKChecksForUpdate_def]]
  consider "length (OutboundFKs (tab mb)) = 0 \<and> length (InboundFKs (tab mb)) = 0" "mb' = mb"
    | "\<not> OptimizerFKs (bld mb)" "mb' = mb\<lparr>fkFallback := True\<rparr>"
    | "(case updateInsertionChecks [0..<length (OutboundFKs (tab mb))] (reserveWithID mb) of
          Inl e \<Rightarrow> Inl e
        | Inr mb1 \<Rightarrow> updateDeletionChecks [0..<length (InboundFKs (tab mb1))] mb1) = Inr mb'"
    by blast
  then show ?thesis
  proof cases
    case 1
    from 1(1) have "InboundFKs (tab mb) = []" by simp
    with 1(2) show ?thesis by blast
  next
    case 2
    then show ?thesis by blast
  next
    case 3
    from case_chain [OF 3] obtain mb1 where
      a: "updateInsertionChecks [0..<length (OutboundFKs (tab mb))] (reserveWithID mb) = Inr mb1"
      and b: "updateDeletionChecks [0..<length (InboundFKs (tab mb1))] mb1 = Inr mb'"
      by blast
    from updateInsertionChecks_spec [OF a] have "sameButFK (reserveWithID mb) mb1" by (rule conjunct1)
    from sameButFK_fields(1) [OF this] have "tab mb1 = tab mb" by (simp add: reserveWithID_fields)
    with b have "updateDeletionChecks [0..<length (InboundFKs (tab mb))] mb1 = Inr mb'" by simp
    with a show ?thesis by blast
  qed
qed

lemma buildFKChecksForUpsert_run:
  assumes "buildFKChecksForUpsert mb = Inr mb'"
  shows "mb' = mb \<and> InboundFKs (tab mb) = [] \<or>
         mb' = mb\<lparr>fkFallback := True\<rparr> \<and> \<not> OptimizerFKs (bld mb) \<or>
         (\<exists>mb1. insertionChecks [0..<length (OutboundFKs (tab mb))] (reserveWithID mb) = Inr mb1 \<and>
                updateDeletionChecks [0..<length (InboundFKs (tab mb))] mb1 = Inr mb')"
proof -
  from if_chain [OF assms [unfolded buildFKChecksForUpsert_def]]
  consider "length (OutboundFKs (tab mb)) = 0 \<and> length (InboundFKs (tab mb)) = 0" "mb' = mb"
    | "\<not> OptimizerFKs (bld mb)" "mb' = mb\<lparr>fkFallback := True\<rparr>"
    | "(case insertionChecks [0..<length (OutboundFKs (tab mb))] (reserveWithID mb) of
          Inl e \<Rightarrow> Inl e
        | Inr mb1 \<Rightarrow> updateDeletionChecks [0..<length (InboundFKs (tab mb1))] mb1) = Inr mb'"
    by blast
  then show ?thesis
  proof cases
    case 1
    from 1(1) have "InboundFKs (tab mb) = []" by simp
    with 1(2) show ?thesis by blast
  next
    case 2
    then show ?thesis by blast
  next
    case 3
    from case_chain [OF 3] obtain mb1 where
      a: "insertionChecks [0..<length (OutboundFKs (tab mb))] (reserveWithID mb) = Inr mb1"
      and b: "updateDeletionChecks [0..<length (InboundFKs (tab mb1))] mb1 = Inr mb'"
      by blast
    from insertionChecks_spec [OF a] have "sameButFK (reserveWithID mb) mb1" by (rule conjunct1)
    from sameButFK_fields(1) [OF this] have "tab mb1 = tab mb" by (simp add: reserveWithID_fields)
    with b have "updateDeletionChecks [0..<length (InboundFKs (tab mb))] mb1 = Inr mb'" by simp
    with a show ?thesis by blast
  qed
qed

lemma buildFKChecksForUpdate_cases:
  assumes "buildFKChecksForUpdate mb = Inr mb'"
  shows "mb' = mb \<or> mb' = mb\<lparr>fkFallback := True\<rparr> \<or> sameButFK (reserveWithID mb) mb'"
proof -
  from buildFKChecksForUpdate_run [OF assms] consider "mb' = mb" | "mb' = mb\<lparr>fkFallback := True\<rparr>"
    | mb1 where "updateInsertionChecks [0..<length (OutboundFKs (tab mb))] (reserveWithID mb) = Inr mb1"
      "updateDeletionChecks [0..<length (InboundFKs (tab mb))] mb1 = Inr mb'"
    by blast
  then show ?thesis
  proof cases
    case 3
    from updateInsertionChecks_spec [OF 3(1)] updateDeletionChecks_spec [OF 3(2)]
    have "sameButFK (reserveWithID mb) mb1" "sameButFK mb1 mb'" by simp_all
    then show ?thesis by (blast intro: sameButFK_trans)
  qed simp_all
qed

lemma buildFKChecksForUpsert_cases:
  assumes "buildFKChecksForUpsert mb = Inr mb'"
  shows "mb' = mb \<or> mb' = mb\<lparr>fkFallback := True\<rparr> \<or> sameButFK (reserveWithID mb) mb'"
proof -
  from buildFKChecksForUpsert_run [OF assms] consider "mb' = mb" | "mb' = mb\<lparr>fkFallback := True\<rparr>"
    | mb1 where "insertionChecks [0..<length (OutboundFKs (tab mb))] (reserveWithID mb) = Inr mb1"
      "updateDeletionChecks [0..<length (InboundFKs (tab mb))] mb1 = Inr mb'"
    by blast
  then show ?thesis
  proof cases
    case 3
    from insertionChecks_spec [OF 3(1)] updateDeletionChecks_spec [OF 3(2)]
    have "sameButFK (reserveWithID mb) mb1" "sameButFK mb1 mb'" by simp_all
    then show ?thesis by (blast intro: sameButFK_trans)
  qed simp_all
qed

subsection \<open>The binding identifier of the plan\<close>

lemma exInsert_build:
  "buildFKChecksForInsert (exChildInsert exFK True) =
     Inr (exChecked exFK True
            (SelectExpr (WithScanExpr 1 [3, 4] [5, 6] 1) [isNotNull 5, isNotNull 6]))"
proof -
  have "length (OutboundFKs (tab (exChildInsert exFK True))) = 1"
    by (simp add: ex_defs Let_def)
  moreover have "OptimizerFKs (bld (exChildInsert exFK True))"
    by (simp add: ex_defs Let_def)
  ultimately show ?thesis
    by (simp add: buildFKChecksForInsert_def exSimple_run)
qed

lemma makeMutationPrivate_run:
  assumes "makeColList mb (insertOrds mb) = Inr ins" and "makeColList mb (fetchOrds mb) = Inr fet"
    and "makeColList mb (updateOrds mb) = Inr upd" and "makeColList mb (checkOrds mb) = Inr chk"
  shows "makeMutationPrivate mb False =
     Inr \<lparr>mpTable = tabID mb, InsertCols = ins, FetchCols = fet, UpdateCols = upd,
          CanaryCol = canaryColID mb, CheckCols = chk, FKFallback = fkFallback mb,
          WithID = (if checks mb = [] then 0 else withID mb), ReturnCols = []\<rparr>"
  by (simp add: makeMutationPrivate_def assms Let_def)

lemma exInsert_private:
  "makeMutationPrivate (exChecked exFK True
       (SelectExpr (WithScanExpr 1 [3, 4] [5, 6] 1) [isNotNull 5, isNotNull 6])) False =
     Inr \<lparr>mpTable = \<lparr>tabIndex = 1, firstColID = 1\<rparr>, InsertCols = [3, 4], FetchCols = [],
          UpdateCols = [], CanaryCol = 0, CheckCols = [], FKFallback = False, WithID = 1,
          ReturnCols = []\<rparr>"
proof -
  let ?mb = "exChecked exFK True
       (SelectExpr (WithScanExpr 1 [3, 4] [5, 6] 1) [isNotNull 5, isNotNull 6])"
  have "makeColList ?mb (insertOrds ?mb) = Inr [3, 4]" "makeColList ?mb (fetchOrds ?mb) = Inr []"
    "makeColList ?mb (updateOrds ?mb) = Inr []" "makeColList ?mb (checkOrds ?mb) = Inr []"
    by (simp_all add: makeColList_def scopeOrdToColID_def ex_defs Let_def)
  from makeMutationPrivate_run [OF this] show ?thesis
    by (simp add: ex_defs Let_def)
qed

lemma exDelete_build:
  "buildFKChecksForDelete (exParent ''delete'' [- 1, - 1]) =
     Inr ((exParent ''delete'' [- 1, - 1])
            \<lparr>md := \<lparr>mdNumCols = 11, mdNumTables = 2, mdCurUniqueID = 1, mdCurWithID = 1\<rparr>,
             checks := [], fkFallback := True, withID := 1\<rparr>)"
  by (simp add: buildFKChecksForDelete_def exParent_def exParentTab_def ex_defs fk_defs
      initWithInboundFK_def addDeletionCheck_def isRestrict_def upt_rec)

lemma exDelete_private:
  "makeMutationPrivate ((exParent ''delete'' [- 1, - 1])
            \<lparr>md := \<lparr>mdNumCols = 11, mdNumTables = 2, mdCurUniqueID = 1, mdCurWithID = 1\<rparr>,
             checks := [], fkFallback := True, withID := 1\<rparr>) False =
     Inr \<lparr>mpTable = \<lparr>tabIndex = 1, firstColID = 1\<rparr>, InsertCols = [], FetchCols = [3, 4],
          UpdateCols = [], CanaryCol = 0, CheckCols = [], FKFallback = True, WithID = 0,
          ReturnCols = []\<rparr>"
proof -
  let ?mb = "(exParent ''delete'' [- 1, - 1])
            \<lparr>md := \<lparr>mdNumCols = 11, mdNumTables = 2, mdCurUniqueID = 1, mdCurWithID = 1\<rparr>,
             checks := [], fkFallback := True, withID := 1\<rparr>"
  have "makeColList ?mb (insertOrds ?mb) = Inr []" "makeColList ?mb (fetchOrds ?mb) = Inr [3, 4]"
    "makeColList ?mb (updateOrds ?mb) = Inr []" "makeColList ?mb (checkOrds ?mb) = Inr []"
    by (simp_all add: makeColList_def scopeOrdToColID_def exParent_def exParentTab_def ex_defs Let_def)
  from makeMutationPrivate_run [OF this] show ?thesis
    by (simp add: exParent_def exParentTab_def ex_defs Let_def)
qed

text \<open>
  C5. After any of the four builders of foreign-key checks has run from a state without checks,
  the plan private that \<^verbatim>\<open>makeMutationPrivate\<close> builds carries a binding identifier
  (\<open>WithID\<close> is not 0) if and only if the list of checks is not empty. When it is not empty
  the identifier is the one the builder reserved, the successor of the metadata's counter;
  when it is empty the identifier of the plan is 0, whatever the builder reserved.
\<close>

theorem makeMutationPrivate_withID:
  assumes "f = buildFKChecksForInsert \<or> f = buildFKChecksForDelete \<or>
           f = buildFKChecksForUpdate \<or> f = buildFKChecksForUpsert"
    and "checks mb = []"
    and "f mb = Inr mb'"
    and "makeMutationPrivate mb' needResults = Inr p"
  shows "(WithID p \<noteq> 0 \<longleftrightarrow> checks mb' \<noteq> []) \<and>
         (checks mb' \<noteq> [] \<longrightarrow> WithID p = withID mb' \<and> withID mb' = Suc (mdCurWithID (md mb))) \<and>
         (checks mb' = [] \<longrightarrow> WithID p = 0)"
proof -
  from assms(1,3) have cs: "mb' = mb \<or> mb' = mb\<lparr>fkFallback := True\<rparr> \<or>
      sameButFK (reserveWithID mb) mb'"
    using buildFKChecksForInsert_cases buildFKChecksForDelete_cases
      buildFKChecksForUpdate_cases buildFKChecksForUpsert_cases by blast
  note p = makeMutationPrivate_spec [OF assms(4)]
  show ?thesis
  proof (cases "checks mb' = []")
    case True
    with p show ?thesis by simp
  next
    case False
    with cs assms(2) have "sameButFK (reserveWithID mb) mb'" by auto
    from sameButFK_fields(4) [OF this]
    have "withID mb' = Suc (mdCurWithID (md mb))"
      by (simp add: reserveWithID_def NextWithID_def)
    with p False show ?thesis by simp
  qed
qed

theorem makeMutationPrivate_withID_witness:
  "(\<exists>mb' p. buildFKChecksForInsert (exChildInsert exFK True) = Inr mb' \<and>
            makeMutationPrivate mb' False = Inr p \<and>
            length (checks mb') = 1 \<and> withID mb' = 1 \<and> WithID p = 1) \<and>
   (\<exists>mb' p. buildFKChecksForDelete (exParent ''delete'' [- 1, - 1]) = Inr mb' \<and>
            makeMutationPrivate mb' False = Inr p \<and>
            checks mb' = [] \<and> withID mb' = 1 \<and> WithID p = 0 \<and> FKFallback p)"
proof -
  have c1: "checks (exChildInsert exFK True) = []"
    by (simp add: ex_defs Let_def)
  have c2: "checks (exParent ''delete'' [- 1, - 1]) = []"
    by (simp add: exParent_def ex_defs Let_def)
  have l: "length (checks (exChecked exFK True
       (SelectExpr (WithScanExpr 1 [3, 4] [5, 6] 1) [isNotNull 5, isNotNull 6]))) = 1"
    by (simp add: exChecked_def)
  have w: "withID (exChecked exFK True
       (SelectExpr (WithScanExpr 1 [3, 4] [5, 6] 1) [isNotNull 5, isNotNull 6])) = 1"
    by (simp add: exChecked_def)
  from makeMutationPrivate_withID [of buildFKChecksForInsert, OF _ c1 exInsert_build exInsert_private] l
  have a: "WithID \<lparr>mpTable = \<lparr>tabIndex = 1, firstColID = 1\<rparr>, InsertCols = [3, 4], FetchCols = [],
          UpdateCols = [], CanaryCol = 0, CheckCols = [], FKFallback = False, WithID = 1,
          ReturnCols = []\<rparr> = 1" by simp
  from makeMutationPrivate_withID [of buildFKChecksForDelete, OF _ c2 exDelete_build exDelete_private]
  have b: "WithID \<lparr>mpTable = \<lparr>tabIndex = 1, firstColID = 1\<rparr>, InsertCols = [], FetchCols = [3, 4],
          UpdateCols = [], CanaryCol = 0, CheckCols = [], FKFallback = True, WithID = 0,
          ReturnCols = []\<rparr> = 0" by simp
  have A: "\<exists>mb' p. buildFKChecksForInsert (exChildInsert exFK True) = Inr mb' \<and>
            makeMutationPrivate mb' False = Inr p \<and>
            length (checks mb') = 1 \<and> withID mb' = 1 \<and> WithID p = 1"
    using exInsert_build exInsert_private l w a by blast
  have B: "\<exists>mb' p. buildFKChecksForDelete (exParent ''delete'' [- 1, - 1]) = Inr mb' \<and>
            makeMutationPrivate mb' False = Inr p \<and>
            checks mb' = [] \<and> withID mb' = 1 \<and> WithID p = 0 \<and> FKFallback p"
    apply (rule exI, rule exI)
    apply (rule conjI [OF exDelete_build conjI [OF exDelete_private]])
    using b by simp
  from A B show ?thesis by (rule conjI)
qed

subsection \<open>A foreign key to a table that is being added\<close>

text \<open>
  C6. An insert into \<open>child\<close> whose only foreign key references table 7, which the catalog
  reports as being added. \<^verbatim>\<open>initWithOutboundFK\<close> returns \<open>False\<close> and leaves the helper
  without the other table and without ordinals; \<^verbatim>\<open>addInsertionCheck\<close> does not read the
  result, builds the with-scan over no columns and dereferences the missing table in
  \<^verbatim>\<open>buildOtherTableScan\<close>, so the builder ends in a runtime panic rather than with no
  check. On the inbound side the same catalog answer is skipped: a delete from \<open>parent\<close>
  whose only inbound foreign key comes from table 7 returns the state with the binding
  reserved and no check.
\<close>

theorem addInsertionCheck_table_being_added:
  "ResolveDataSourceByID (bld (exChildInsert (exFK\<lparr>ReferencedTableID := 7\<rparr>) True)) 7 =
     ResolveFailed True
   \<and> initWithOutboundFK (reserveWithID (exChildInsert (exFK\<lparr>ReferencedTableID := 7\<rparr>) True)) 0 =
       Inr (False, \<lparr>fk = exFK\<lparr>ReferencedTableID := 7\<rparr>, fkOrdinal = 0, fkOutbound = True,
                    otherTab = None, tabOrdinals = [], otherTabOrdinals = []\<rparr>)
   \<and> addInsertionCheck (reserveWithID (exChildInsert (exFK\<lparr>ReferencedTableID := 7\<rparr>) True)) 0 =
       Inl RuntimeNilError
   \<and> buildFKChecksForInsert (exChildInsert (exFK\<lparr>ReferencedTableID := 7\<rparr>) True) =
       Inl RuntimeNilError
   \<and> buildFKChecksForDelete
         ((exParent ''delete'' [- 1, - 1])
            \<lparr>tab := exParentTab\<lparr>InboundFKs :=
               [exFK\<lparr>OriginTableID := 7, ReferencedTableID := 1, FKColumns := [(0, 0)]\<rparr>]\<rparr>\<rparr>) =
       Inr (reserveWithID
              ((exParent ''delete'' [- 1, - 1])
                 \<lparr>tab := exParentTab\<lparr>InboundFKs :=
                    [exFK\<lparr>OriginTableID := 7, ReferencedTableID := 1, FKColumns := [(0, 0)]\<rparr>]\<rparr>\<rparr>))
   \<and> checks (reserveWithID
              ((exParent ''delete'' [- 1, - 1])
                 \<lparr>tab := exParentTab\<lparr>InboundFKs :=
                    [exFK\<lparr>OriginTableID := 7, ReferencedTableID := 1, FKColumns := [(0, 0)]\<rparr>]\<rparr>\<rparr>)) = []"
proof -
  let ?mb = "exChildInsert (exFK\<lparr>ReferencedTableID := 7\<rparr>) True"
  let ?pb = "(exParent ''delete'' [- 1, - 1])
            \<lparr>tab := exParentTab\<lparr>InboundFKs :=
               [exFK\<lparr>OriginTableID := 7, ReferencedTableID := 1, FKColumns := [(0, 0)]\<rparr>]\<rparr>\<rparr>"
  have a: "ResolveDataSourceByID (bld ?mb) 7 = ResolveFailed True"
    by (simp add: ex_defs Let_def)
  have b: "initWithOutboundFK (reserveWithID ?mb) 0 =
       Inr (False, \<lparr>fk = exFK\<lparr>ReferencedTableID := 7\<rparr>, fkOrdinal = 0, fkOutbound = True,
                    otherTab = None, tabOrdinals = [], otherTabOrdinals = []\<rparr>)"
    by (simp add: ex_defs fk_defs)
  have c: "addInsertionCheck (reserveWithID ?mb) 0 = Inl RuntimeNilError"
    by (simp add: ex_defs fk_defs)
  have "length (OutboundFKs (tab ?mb)) = 1" "OptimizerFKs (bld ?mb)"
    by (simp_all add: ex_defs Let_def)
  then have d: "buildFKChecksForInsert ?mb = Inl RuntimeNilError"
    by (simp add: buildFKChecksForInsert_def c)
  define pb where "pb = (exParent ''delete'' [- 1, - 1])
            \<lparr>tab := exParentTab\<lparr>InboundFKs :=
               [exFK\<lparr>OriginTableID := 7, ReferencedTableID := 1, FKColumns := [(0, 0)]\<rparr>]\<rparr>\<rparr>"
  have i: "initWithInboundFK (reserveWithID pb) 0 =
      Inr (False, \<lparr>fk = exFK\<lparr>OriginTableID := 7, ReferencedTableID := 1, FKColumns := [(0, 0)]\<rparr>,
                   fkOrdinal = 0, fkOutbound = False,
                   otherTab = None, tabOrdinals = [], otherTabOrdinals = []\<rparr>)"
    by (simp add: pb_def exParent_def exParentTab_def ex_defs fk_defs initWithInboundFK_def)
  have "length (InboundFKs (tab pb)) = 1" "OptimizerFKs (bld pb)"
    by (simp_all add: pb_def exParent_def exParentTab_def ex_defs Let_def)
  then have "buildFKChecksForDelete pb = Inr (reserveWithID pb)"
    by (simp add: buildFKChecksForDelete_def i)
  then have e: "buildFKChecksForDelete ?pb = Inr (reserveWithID ?pb)"
    unfolding pb_def .
  have f: "checks (reserveWithID ?pb) = []"
    by (simp add: exParent_def ex_defs Let_def)
  from a b c d e f show ?thesis by (intro conjI)
qed

subsection \<open>Actions other than RESTRICT and NO ACTION\<close>

lemma deletionChecks_bail:
  assumes run: "deletionChecks [0..<length (InboundFKs (tab mb))] (reserveWithID mb) = Inr mb'"
    and rel: "relevantInbound mb i"
    and act: "\<not> isRestrict (DeleteReferenceAction (InboundFKs (tab mb) ! i))"
  shows "checks mb' = [] \<and> fkFallback mb'"
proof -
  from rel have i: "i \<in> set [0..<length (InboundFKs (tab mb))]"
    by (simp add: relevantInbound_def)
  note sp = deletionChecks_spec [OF run, unfolded reserveWithID_relevant reserveWithID_fields]
  show ?thesis
  proof (rule ccontr)
    assume "\<not> ?thesis"
    with sp have "\<forall>j \<in> set [0..<length (InboundFKs (tab mb))]. relevantInbound mb j \<longrightarrow>
        isRestrict (DeleteReferenceAction (InboundFKs (tab mb) ! j))" by blast
    with i rel act show False by blast
  qed
qed

lemma updateDeletionChecks_bail:
  assumes run: "updateDeletionChecks [0..<length (InboundFKs (tab mb))] mb1 = Inr mb'"
    and same: "sameButFK (reserveWithID mb) mb1"
    and rel: "relevantUpdate mb i"
    and act: "\<not> isRestrict (UpdateReferenceAction (InboundFKs (tab mb) ! i))"
  shows "checks mb' = [] \<and> fkFallback mb'"
proof -
  from rel have i: "i \<in> set [0..<length (InboundFKs (tab mb))]"
    by (simp add: relevantUpdate_def relevantInbound_def)
  have t: "tab mb1 = tab mb"
    using sameButFK_fields(1) [OF same] by (simp add: reserveWithID_fields)
  have r: "\<And>j. relevantUpdate mb1 j = relevantUpdate mb j"
    using relevantUpdate_cong [OF same] by (simp add: reserveWithID_relevant)
  note sp = updateDeletionChecks_spec [OF run, unfolded r t]
  show ?thesis
  proof (rule ccontr)
    assume "\<not> ?thesis"
    with sp have "\<forall>j \<in> set [0..<length (InboundFKs (tab mb))]. relevantUpdate mb j \<longrightarrow>
        isRestrict (UpdateReferenceAction (InboundFKs (tab mb) ! j))" by blast
    with i rel act show False by blast
  qed
qed

lemma exUpdate_build:
  "buildFKChecksForUpdate (exParent ''update'' [2, 3]) =
     Inr ((exParent ''update'' [2, 3])
            \<lparr>md := \<lparr>mdNumCols = 12, mdNumTables = 2, mdCurUniqueID = 2, mdCurWithID = 1\<rparr>,
             checks := [], fkFallback := True, withID := 1\<rparr>)"
  by (simp add: buildFKChecksForUpdate_def deletedRowsExcept_def inboundFKColsUpdated_def
      exParent_def exParentTab_def ex_defs fk_defs
      initWithInboundFK_def addDeletionCheck_def isRestrict_def upt_rec)

text \<open>
  C4. A builder of foreign-key checks runs from a state without checks and returns. If the
  statement is a delete and some inbound foreign key whose origin table resolves has a delete
  action other than RESTRICT and NO ACTION, or the statement is an update or an upsert and
  some inbound foreign key whose origin table resolves and one of whose referenced columns is
  in the update role has an update action other than RESTRICT and NO ACTION, then the list of
  checks of the result is empty, whatever was built for the foreign keys before it, the
  fallback flag is set, and every plan private built from the result has the fallback flag
  and no binding identifier.
\<close>

theorem cascade_action_abandons_checks:
  assumes "f = buildFKChecksForDelete \<and>
             (\<exists>i. relevantInbound mb i \<and>
                  \<not> isRestrict (DeleteReferenceAction (InboundFKs (tab mb) ! i))) \<or>
           (f = buildFKChecksForUpdate \<or> f = buildFKChecksForUpsert) \<and>
             (\<exists>i. relevantUpdate mb i \<and>
                  \<not> isRestrict (UpdateReferenceAction (InboundFKs (tab mb) ! i)))"
    and "checks mb = []"
    and "f mb = Inr mb'"
  shows "checks mb' = [] \<and> fkFallback mb' \<and>
         (\<forall>needResults p. makeMutationPrivate mb' needResults = Inr p \<longrightarrow>
            FKFallback p \<and> WithID p = 0)"
proof -
  have bail: "checks mb' = [] \<and> fkFallback mb'"
  proof -
    from assms(1) consider
      (del) i where "f = buildFKChecksForDelete" "relevantInbound mb i"
        "\<not> isRestrict (DeleteReferenceAction (InboundFKs (tab mb) ! i))"
      | (upd) i where "f = buildFKChecksForUpdate" "relevantUpdate mb i"
        "\<not> isRestrict (UpdateReferenceAction (InboundFKs (tab mb) ! i))"
      | (ups) i where "f = buildFKChecksForUpsert" "relevantUpdate mb i"
        "\<not> isRestrict (UpdateReferenceAction (InboundFKs (tab mb) ! i))"
      by blast
    then show ?thesis
    proof cases
      case del
      from del(2) have ne: "InboundFKs (tab mb) \<noteq> []" by (auto simp: relevantInbound_def)
      from assms(3) del(1) have "buildFKChecksForDelete mb = Inr mb'" by simp
      from buildFKChecksForDelete_run [OF this] ne consider
        "mb' = mb\<lparr>fkFallback := True\<rparr>"
        | "deletionChecks [0..<length (InboundFKs (tab mb))] (reserveWithID mb) = Inr mb'"
        by blast
      then show ?thesis
      proof cases
        case 1
        with assms(2) show ?thesis by simp
      next
        case 2
        from deletionChecks_bail [OF 2 del(2,3)] show ?thesis .
      qed
    next
      case upd
      from upd(2) have ne: "InboundFKs (tab mb) \<noteq> []"
        by (auto simp: relevantUpdate_def relevantInbound_def)
      from assms(3) upd(1) have "buildFKChecksForUpdate mb = Inr mb'" by simp
      from buildFKChecksForUpdate_run [OF this] ne consider
        "mb' = mb\<lparr>fkFallback := True\<rparr>"
        | mb1 where
          "updateInsertionChecks [0..<length (OutboundFKs (tab mb))] (reserveWithID mb) = Inr mb1"
          "updateDeletionChecks [0..<length (InboundFKs (tab mb))] mb1 = Inr mb'"
        by blast
      then show ?thesis
      proof cases
        case 1
        with assms(2) show ?thesis by simp
      next
        case 2
        from updateInsertionChecks_spec [OF 2(1)] have "sameButFK (reserveWithID mb) mb1"
          by (rule conjunct1)
        from updateDeletionChecks_bail [OF 2(2) this upd(2,3)] show ?thesis .
      qed
    next
      case ups
      from ups(2) have ne: "InboundFKs (tab mb) \<noteq> []"
        by (auto simp: relevantUpdate_def relevantInbound_def)
      from assms(3) ups(1) have "buildFKChecksForUpsert mb = Inr mb'" by simp
      from buildFKChecksForUpsert_run [OF this] ne consider
        "mb' = mb\<lparr>fkFallback := True\<rparr>"
        | mb1 where
          "insertionChecks [0..<length (OutboundFKs (tab mb))] (reserveWithID mb) = Inr mb1"
          "updateDeletionChecks [0..<length (InboundFKs (tab mb))] mb1 = Inr mb'"
        by blast
      then show ?thesis
      proof cases
        case 1
        with assms(2) show ?thesis by simp
      next
        case 2
        from insertionChecks_spec [OF 2(1)] have "sameButFK (reserveWithID mb) mb1"
          by (rule conjunct1)
        from updateDeletionChecks_bail [OF 2(2) this ups(2,3)] show ?thesis .
      qed
    qed
  qed
  have "FKFallback p \<and> WithID p = 0" if "makeMutationPrivate mb' needResults = Inr p"
    for needResults p
    using makeMutationPrivate_spec [OF that] bail by simp
  with bail show ?thesis by blast
qed

theorem cascade_action_abandons_checks_witness:
  "buildFKChecksForDelete (exParent ''delete'' [- 1, - 1]) =
     Inr ((exParent ''delete'' [- 1, - 1])
            \<lparr>md := \<lparr>mdNumCols = 11, mdNumTables = 2, mdCurUniqueID = 1, mdCurWithID = 1\<rparr>,
             checks := [], fkFallback := True, withID := 1\<rparr>)
   \<and> relevantInbound (exParent ''delete'' [- 1, - 1]) 1
   \<and> DeleteReferenceAction (InboundFKs (tab (exParent ''delete'' [- 1, - 1])) ! 1) = Cascade
   \<and> buildFKChecksForUpdate (exParent ''update'' [2, 3]) =
     Inr ((exParent ''update'' [2, 3])
            \<lparr>md := \<lparr>mdNumCols = 12, mdNumTables = 2, mdCurUniqueID = 2, mdCurWithID = 1\<rparr>,
             checks := [], fkFallback := True, withID := 1\<rparr>)
   \<and> relevantUpdate (exParent ''update'' [2, 3]) 1
   \<and> UpdateReferenceAction (InboundFKs (tab (exParent ''update'' [2, 3])) ! 1) = Cascade
   \<and> FKFallback \<lparr>mpTable = \<lparr>tabIndex = 1, firstColID = 1\<rparr>, InsertCols = [], FetchCols = [3, 4],
          UpdateCols = [], CanaryCol = 0, CheckCols = [], FKFallback = True, WithID = 0,
          ReturnCols = []\<rparr>"
proof -
  let ?d = "exParent ''delete'' [- 1, - 1]"
  let ?u = "exParent ''update'' [2, 3]"
  have r1: "relevantInbound ?d 1"
    by (simp add: relevantInbound_def exParent_def exParentTab_def ex_defs Let_def)
  have a1: "DeleteReferenceAction (InboundFKs (tab ?d) ! 1) = Cascade"
    by (simp add: exParent_def exParentTab_def ex_defs Let_def)
  have r2: "relevantUpdate ?u 1"
    by (simp add: relevantUpdate_def relevantInbound_def inboundFKColsUpdated_def
        fkAt_def ordAt_def exParent_def exParentTab_def ex_defs Let_def)
  have a2: "UpdateReferenceAction (InboundFKs (tab ?u) ! 1) = Cascade"
    by (simp add: exParent_def exParentTab_def ex_defs Let_def)
  have c1: "checks ?d = []"
    by (simp add: exParent_def ex_defs Let_def)
  have h1: "buildFKChecksForDelete = buildFKChecksForDelete \<and>
             (\<exists>i. relevantInbound ?d i \<and>
                  \<not> isRestrict (DeleteReferenceAction (InboundFKs (tab ?d) ! i))) \<or>
           (buildFKChecksForDelete = buildFKChecksForUpdate \<or>
            buildFKChecksForDelete = buildFKChecksForUpsert) \<and>
             (\<exists>i. relevantUpdate ?d i \<and>
                  \<not> isRestrict (UpdateReferenceAction (InboundFKs (tab ?d) ! i)))"
    using r1 a1 by (auto simp: isRestrict_def)
  from cascade_action_abandons_checks [OF h1 c1 exDelete_build] exDelete_private
  have p: "FKFallback \<lparr>mpTable = \<lparr>tabIndex = 1, firstColID = 1\<rparr>, InsertCols = [], FetchCols = [3, 4],
          UpdateCols = [], CanaryCol = 0, CheckCols = [], FKFallback = True, WithID = 0,
          ReturnCols = []\<rparr>" by blast
  from exDelete_build r1 a1 exUpdate_build r2 a2 p show ?thesis by (intro conjI)
qed

subsection \<open>Deletion checks of an update\<close>

lemma evalRel_except:
  assumes "distinct oldCols" and "length oldIns = length oldCols"
    and "distinct newCols" and "length newIns = length newCols"
  shows "evalRel buf (ExceptExpr (WithScanExpr w1 oldIns oldCols u1)
                        (WithScanExpr w2 newIns newCols u2) oldCols newCols oldCols) =
         Some (remdups (filter (\<lambda>row. row \<notin> set (map (\<lambda>r. map r newIns) buf))
                          (map (\<lambda>r. map r oldIns) buf)))"
proof -
  have a: "map (\<lambda>x. map (rowEnv oldCols x) oldCols) (map (\<lambda>r. map r oldIns) buf) =
           map (\<lambda>r. map r oldIns) buf"
    using assms(1,2) by (simp add: map_rowEnv_id)
  have b: "map (\<lambda>x. map (rowEnv newCols x) newCols) (map (\<lambda>r. map r newIns) buf) =
           map (\<lambda>r. map r newIns) buf"
    using assms(3,4) by (simp add: map_rowEnv_id)
  show ?thesis
    unfolding evalRel.simps relCols.simps option.case a b ..
qed

lemma except_rows_set:
  "set (remdups (filter (\<lambda>row. row \<notin> set (map (\<lambda>r. map r newIns) buf))
                    (map (\<lambda>r. map r oldIns) buf))) =
   (\<lambda>r. map r oldIns) ` set buf - (\<lambda>r. map r newIns) ` set buf"
  by auto

lemma except_rows_noop:
  assumes "\<forall>r \<in> set buf. map r oldIns = map r newIns"
  shows "remdups (filter (\<lambda>row. row \<notin> set (map (\<lambda>r. map r newIns) buf))
                    (map (\<lambda>r. map r oldIns) buf)) = []"
proof -
  have "set (remdups (filter (\<lambda>row. row \<notin> set (map (\<lambda>r. map r newIns) buf))
                    (map (\<lambda>r. map r oldIns) buf))) = {}"
    unfolding except_rows_set using assms by auto
  then show ?thesis by (simp only: set_empty)
qed

lemma fkInputCol_reserveWithID:
  "fkInputCol (reserveWithID mb) typ i = fkInputCol mb typ i"
  by (simp add: fkInputCol_def reserveWithID_def NextWithID_def mapToReturnScopeOrd_def
      scopeOrdToColID_def cong: sum.case_cong if_cong)


text \<open>What the deletion check of an update is, read on the state before the binding was
  reserved, with the rows that its input produces.\<close>

lemma updateDeletionCheck_reserved:
  assumes "updateDeletionCheck (reserveWithID mb) c"
  shows "relevantUpdate mb (FKOrdinal c) \<and>
     isRestrict (UpdateReferenceAction (InboundFKs (tab mb) ! FKOrdinal c)) \<and>
     (\<exists>deleted oldIns newIns oldCols newCols u1 u2 scan fs.
        deleted = ExceptExpr (WithScanExpr (withID (reserveWithID mb)) oldIns oldCols u1)
                    (WithScanExpr (withID (reserveWithID mb)) newIns newCols u2)
                    oldCols newCols oldCols \<and>
        Check c = SemiJoinExpr deleted scan fs \<and> KeyCols c = oldCols \<and>
        length oldIns = length (FKColumns (InboundFKs (tab mb) ! FKOrdinal c)) \<and>
        length newIns = length (FKColumns (InboundFKs (tab mb) ! FKOrdinal c)) \<and>
        (\<forall>k < length (FKColumns (InboundFKs (tab mb) ! FKOrdinal c)).
           fkInputCol mb fkInputScanFetchedVals
             (snd (FKColumns (InboundFKs (tab mb) ! FKOrdinal c) ! k)) = Inr (oldIns ! k) \<and>
           fkInputCol mb fkInputScanNewVals
             (snd (FKColumns (InboundFKs (tab mb) ! FKOrdinal c) ! k)) = Inr (newIns ! k)) \<and>
        (\<forall>buf. evalRel buf deleted =
           Some (remdups (filter (\<lambda>row. row \<notin> set (map (\<lambda>r. map r newIns) buf))
                            (map (\<lambda>r. map r oldIns) buf)))) \<and>
        (\<forall>buf rows. evalRel buf deleted = Some rows \<longrightarrow>
           set rows = (\<lambda>r. map r oldIns) ` set buf - (\<lambda>r. map r newIns) ` set buf) \<and>
        (\<forall>buf rows r. evalRel buf deleted = Some rows \<and> r \<in> set buf \<and>
           map r oldIns = map r newIns \<longrightarrow> map r oldIns \<notin> set rows))"
proof -
  let ?R = "reserveWithID mb"
  let ?fks = "FKColumns (InboundFKs (tab mb) ! FKOrdinal c)"
  note u = assms [unfolded updateDeletionCheck_def reserveWithID_relevant reserveWithID_fields]
  from u have rel: "relevantUpdate mb (FKOrdinal c)"
    and act: "isRestrict (UpdateReferenceAction (InboundFKs (tab mb) ! FKOrdinal c))"
    by blast+
  from u obtain oldRows newRows oldCols newCols nn1 nn2 scan fs where
    o: "inputScanOf ?R fkInputScanFetchedVals (map snd ?fks) oldRows oldCols nn1"
    and n: "inputScanOf ?R fkInputScanNewVals (map snd ?fks) newRows newCols nn2"
    and ck: "Check c = SemiJoinExpr (ExceptExpr oldRows newRows oldCols newCols oldCols) scan fs"
    and kc: "KeyCols c = oldCols"
    by blast
  from o obtain oldIns u1 where
    o1: "oldRows = WithScanExpr (withID ?R) oldIns oldCols u1"
    and o2: "length oldIns = length ?fks" and o3: "length oldCols = length ?fks"
    and o4: "distinct oldCols"
    and o5: "\<forall>k < length ?fks. fkInputCol ?R fkInputScanFetchedVals (map snd ?fks ! k) = Inr (oldIns ! k)"
    unfolding inputScanOf_def length_map by blast
  from n obtain newIns u2 where
    n1: "newRows = WithScanExpr (withID ?R) newIns newCols u2"
    and n2: "length newIns = length ?fks" and n3: "length newCols = length ?fks"
    and n4: "distinct newCols"
    and n5: "\<forall>k < length ?fks. fkInputCol ?R fkInputScanNewVals (map snd ?fks ! k) = Inr (newIns ! k)"
    unfolding inputScanOf_def length_map by blast
  define deleted where "deleted = ExceptExpr (WithScanExpr (withID ?R) oldIns oldCols u1)
                    (WithScanExpr (withID ?R) newIns newCols u2) oldCols newCols oldCols"
  have ck': "Check c = SemiJoinExpr deleted scan fs"
    unfolding deleted_def using ck o1 n1 by simp
  have cols: "\<forall>k < length ?fks.
           fkInputCol mb fkInputScanFetchedVals (snd (?fks ! k)) = Inr (oldIns ! k) \<and>
           fkInputCol mb fkInputScanNewVals (snd (?fks ! k)) = Inr (newIns ! k)"
  proof (intro allI impI)
    fix k assume k: "k < length ?fks"
    from o5 n5 k show "fkInputCol mb fkInputScanFetchedVals (snd (?fks ! k)) = Inr (oldIns ! k) \<and>
           fkInputCol mb fkInputScanNewVals (snd (?fks ! k)) = Inr (newIns ! k)"
      by (simp add: fkInputCol_reserveWithID)
  qed
  have ev: "evalRel buf deleted =
           Some (remdups (filter (\<lambda>row. row \<notin> set (map (\<lambda>r. map r newIns) buf))
                            (map (\<lambda>r. map r oldIns) buf)))" for buf
    unfolding deleted_def
    by (rule evalRel_except) (simp_all add: o2 o3 o4 n2 n3 n4)
  have st: "set rows = (\<lambda>r. map r oldIns) ` set buf - (\<lambda>r. map r newIns) ` set buf"
    if "evalRel buf deleted = Some rows" for buf rows
  proof -
    from that ev [of buf] have "rows = remdups (filter (\<lambda>row. row \<notin> set (map (\<lambda>r. map r newIns) buf))
                            (map (\<lambda>r. map r oldIns) buf))" by simp
    then show ?thesis by (simp only: except_rows_set)
  qed
  have noop: "map r oldIns \<notin> set rows"
    if "evalRel buf deleted = Some rows \<and> r \<in> set buf \<and> map r oldIns = map r newIns"
    for buf rows r
  proof -
    from that st [of buf rows]
    have "set rows = (\<lambda>r. map r oldIns) ` set buf - (\<lambda>r. map r newIns) ` set buf"
      and "map r oldIns \<in> (\<lambda>r. map r newIns) ` set buf" by auto
    then show ?thesis by simp
  qed
  have ex: "\<exists>deleted oldIns newIns oldCols newCols u1 u2 scan fs.
        deleted = ExceptExpr (WithScanExpr (withID ?R) oldIns oldCols u1)
                    (WithScanExpr (withID ?R) newIns newCols u2)
                    oldCols newCols oldCols \<and>
        Check c = SemiJoinExpr deleted scan fs \<and> KeyCols c = oldCols \<and>
        length oldIns = length ?fks \<and> length newIns = length ?fks \<and>
        (\<forall>k < length ?fks.
           fkInputCol mb fkInputScanFetchedVals (snd (?fks ! k)) = Inr (oldIns ! k) \<and>
           fkInputCol mb fkInputScanNewVals (snd (?fks ! k)) = Inr (newIns ! k)) \<and>
        (\<forall>buf. evalRel buf deleted =
           Some (remdups (filter (\<lambda>row. row \<notin> set (map (\<lambda>r. map r newIns) buf))
                            (map (\<lambda>r. map r oldIns) buf)))) \<and>
        (\<forall>buf rows. evalRel buf deleted = Some rows \<longrightarrow>
           set rows = (\<lambda>r. map r oldIns) ` set buf - (\<lambda>r. map r newIns) ` set buf) \<and>
        (\<forall>buf rows r. evalRel buf deleted = Some rows \<and> r \<in> set buf \<and>
           map r oldIns = map r newIns \<longrightarrow> map r oldIns \<notin> set rows)"
    apply (rule exI [of _ deleted], rule exI [of _ oldIns], rule exI [of _ newIns])
    apply (rule exI [of _ oldCols], rule exI [of _ newCols], rule exI [of _ u1])
    apply (rule exI [of _ u2], rule exI [of _ scan], rule exI [of _ fs])
    apply (intro conjI allI impI)
            apply (rule deleted_def)
           apply (rule ck')
          apply (rule kc)
         apply (rule o2)
        apply (rule n2)
       apply (rule cols [rule_format, THEN conjunct1], assumption)
      apply (rule cols [rule_format, THEN conjunct2], assumption)
     apply (rule ev)
     apply (erule st)
    apply (erule noop)
    done
  from rel act ex show ?thesis by (intro conjI)
qed

text \<open>
  The checks of an update, with the update role read through the answer of
  \<^verbatim>\<open>inboundFKColsUpdated\<close>.
\<close>

lemma buildFKChecksForUpdate_checks_spec:
  assumes "checks mb = []" and "buildFKChecksForUpdate mb = Inr mb'"
  shows
   "(\<forall>c \<in> set (checks mb'). \<not> FKOutbound c \<longrightarrow>
       relevantUpdate mb (FKOrdinal c) \<and>
       isRestrict (UpdateReferenceAction (InboundFKs (tab mb) ! FKOrdinal c)) \<and>
       (\<exists>deleted oldIns newIns oldCols newCols u1 u2 scan fs.
          deleted = ExceptExpr (WithScanExpr (withID mb') oldIns oldCols u1)
                      (WithScanExpr (withID mb') newIns newCols u2)
                      oldCols newCols oldCols \<and>
          Check c = SemiJoinExpr deleted scan fs \<and> KeyCols c = oldCols \<and>
          length oldIns = length (FKColumns (InboundFKs (tab mb) ! FKOrdinal c)) \<and>
          length newIns = length (FKColumns (InboundFKs (tab mb) ! FKOrdinal c)) \<and>
          (\<forall>k < length (FKColumns (InboundFKs (tab mb) ! FKOrdinal c)).
             fkInputCol mb fkInputScanFetchedVals
               (snd (FKColumns (InboundFKs (tab mb) ! FKOrdinal c) ! k)) = Inr (oldIns ! k) \<and>
             fkInputCol mb fkInputScanNewVals
               (snd (FKColumns (InboundFKs (tab mb) ! FKOrdinal c) ! k)) = Inr (newIns ! k)) \<and>
          (\<forall>buf. evalRel buf deleted =
             Some (remdups (filter (\<lambda>row. row \<notin> set (map (\<lambda>r. map r newIns) buf))
                              (map (\<lambda>r. map r oldIns) buf)))) \<and>
          (\<forall>buf rows. evalRel buf deleted = Some rows \<longrightarrow>
             set rows = (\<lambda>r. map r oldIns) ` set buf - (\<lambda>r. map r newIns) ` set buf) \<and>
          (\<forall>buf rows r. evalRel buf deleted = Some rows \<and> r \<in> set buf \<and>
             map r oldIns = map r newIns \<longrightarrow> map r oldIns \<notin> set rows))) \<and>
    (OptimizerFKs (bld mb) \<and>
     (\<forall>j. relevantUpdate mb j \<longrightarrow>
          isRestrict (UpdateReferenceAction (InboundFKs (tab mb) ! j))) \<longrightarrow>
       (\<forall>i. relevantUpdate mb i \<longrightarrow>
          (\<exists>c \<in> set (checks mb'). \<not> FKOutbound c \<and> FKOrdinal c = i))) \<and>
    (\<forall>i c. inboundFKColsUpdated mb i = Inr False \<and> c \<in> set (checks mb') \<and> \<not> FKOutbound c \<longrightarrow>
       FKOrdinal c \<noteq> i)"
proof -
  let ?n = "length (InboundFKs (tab mb))"
  let ?A = "\<lambda>c :: FKChecksItem. relevantUpdate mb (FKOrdinal c) \<and>
       isRestrict (UpdateReferenceAction (InboundFKs (tab mb) ! FKOrdinal c)) \<and>
       (\<exists>deleted oldIns newIns oldCols newCols u1 u2 scan fs.
          deleted = ExceptExpr (WithScanExpr (withID mb') oldIns oldCols u1)
                      (WithScanExpr (withID mb') newIns newCols u2)
                      oldCols newCols oldCols \<and>
          Check c = SemiJoinExpr deleted scan fs \<and> KeyCols c = oldCols \<and>
          length oldIns = length (FKColumns (InboundFKs (tab mb) ! FKOrdinal c)) \<and>
          length newIns = length (FKColumns (InboundFKs (tab mb) ! FKOrdinal c)) \<and>
          (\<forall>k < length (FKColumns (InboundFKs (tab mb) ! FKOrdinal c)).
             fkInputCol mb fkInputScanFetchedVals
               (snd (FKColumns (InboundFKs (tab mb) ! FKOrdinal c) ! k)) = Inr (oldIns ! k) \<and>
             fkInputCol mb fkInputScanNewVals
               (snd (FKColumns (InboundFKs (tab mb) ! FKOrdinal c) ! k)) = Inr (newIns ! k)) \<and>
          (\<forall>buf. evalRel buf deleted =
             Some (remdups (filter (\<lambda>row. row \<notin> set (map (\<lambda>r. map r newIns) buf))
                              (map (\<lambda>r. map r oldIns) buf)))) \<and>
          (\<forall>buf rows. evalRel buf deleted = Some rows \<longrightarrow>
             set rows = (\<lambda>r. map r oldIns) ` set buf - (\<lambda>r. map r newIns) ` set buf) \<and>
          (\<forall>buf rows r. evalRel buf deleted = Some rows \<and> r \<in> set buf \<and>
             map r oldIns = map r newIns \<longrightarrow> map r oldIns \<notin> set rows))"
  define good where "good = (\<lambda>c. ?A c)"
  have rng: "i < ?n" if "relevantUpdate mb i" for i
    using that by (simp add: relevantUpdate_def relevantInbound_def)
  have notupd: "\<not> relevantUpdate mb i" if "inboundFKColsUpdated mb i = Inr False" for i
    using that by (simp add: relevantUpdate_def)
  have main: "(\<forall>c \<in> set (checks mb'). \<not> FKOutbound c \<longrightarrow> good c) \<and>
    (OptimizerFKs (bld mb) \<and>
     (\<forall>j. relevantUpdate mb j \<longrightarrow>
          isRestrict (UpdateReferenceAction (InboundFKs (tab mb) ! j))) \<longrightarrow>
       (\<forall>i. relevantUpdate mb i \<longrightarrow>
          (\<exists>c \<in> set (checks mb'). \<not> FKOutbound c \<and> FKOrdinal c = i)))"
  proof -
    from buildFKChecksForUpdate_run [OF assms(2)] consider
      (none) "mb' = mb" "InboundFKs (tab mb) = []"
      | (off) "mb' = mb\<lparr>fkFallback := True\<rparr>" "\<not> OptimizerFKs (bld mb)"
      | (run) mb1 where
        "updateInsertionChecks [0..<length (OutboundFKs (tab mb))] (reserveWithID mb) = Inr mb1"
        "updateDeletionChecks [0..<?n] mb1 = Inr mb'"
      by blast
    then show ?thesis
    proof cases
      case none
      from none(2) rng have "\<not> relevantUpdate mb i" for i by fastforce
      moreover from none(1) assms(1) have "checks mb' = []" by simp
      ultimately show ?thesis by simp
    next
      case off
      from off(1) assms(1) have "checks mb' = []" by simp
      with off(2) show ?thesis by simp
    next
      case run
      from updateInsertionChecks_spec [OF run(1)] obtain new1 where
        s1: "sameButFK (reserveWithID mb) mb1"
        and c1: "checks mb1 = new1" and o1: "\<forall>c \<in> set new1. FKOutbound c"
        by (auto simp: reserveWithID_fields assms(1))
      have t: "tab mb1 = tab mb"
        using sameButFK_fields(1) [OF s1] by (simp add: reserveWithID_fields)
      have r: "\<And>j. relevantUpdate mb1 j = relevantUpdate mb j"
        using relevantUpdate_cong [OF s1] by (simp add: reserveWithID_relevant)
      have u: "\<And>c. updateDeletionCheck mb1 c = updateDeletionCheck (reserveWithID mb) c"
        by (rule updateDeletionCheck_cong [OF s1])
      note sp = updateDeletionChecks_spec [OF run(2), unfolded r t u c1]
      from sp have s2: "sameButFK mb1 mb'" by (rule conjunct1)
      have w: "withID (reserveWithID mb) = withID mb'"
        using sameButFK_fields(4) [OF s1] sameButFK_fields(4) [OF s2] by simp
      from sp consider
        (bail) "checks mb' = []"
          "\<exists>i \<in> set [0..<?n]. relevantUpdate mb i \<and>
             \<not> isRestrict (UpdateReferenceAction (InboundFKs (tab mb) ! i))"
        | (cont) new2 where "checks mb' = new1 @ new2"
          "\<forall>c \<in> set new2. updateDeletionCheck (reserveWithID mb) c \<and> FKOrdinal c \<in> set [0..<?n]"
          "\<forall>i \<in> set [0..<?n]. relevantUpdate mb i \<longrightarrow> (\<exists>c \<in> set new2. FKOrdinal c = i)"
        by blast
      then show ?thesis
      proof cases
        case bail
        from bail(2) have "\<not> (\<forall>j. relevantUpdate mb j \<longrightarrow>
            isRestrict (UpdateReferenceAction (InboundFKs (tab mb) ! j)))" by blast
        moreover from bail(1) have "\<forall>c \<in> set (checks mb'). \<not> FKOutbound c \<longrightarrow> good c" by simp
        ultimately show ?thesis by blast
      next
        case cont
        have g: "good c" if "c \<in> set (checks mb')" "\<not> FKOutbound c" for c
        proof -
          from that cont(1) o1 have "c \<in> set new2" by auto
          with cont(2) have "updateDeletionCheck (reserveWithID mb) c" by blast
          from updateDeletionCheck_reserved [OF this] show ?thesis
            unfolding good_def w .
        qed
        have e: "\<exists>c \<in> set (checks mb'). \<not> FKOutbound c \<and> FKOrdinal c = i"
          if "relevantUpdate mb i" for i
        proof -
          from rng [OF that] have "i \<in> set [0..<?n]" by simp
          with cont(3) that obtain c where c: "c \<in> set new2" "FKOrdinal c = i" by blast
          from cont(2) c(1) have "updateDeletionCheck (reserveWithID mb) c" by blast
          then have "\<not> FKOutbound c" by (simp add: updateDeletionCheck_def)
          with c cont(1) show ?thesis by auto
        qed
        from g e show ?thesis by blast
      qed
    qed
  qed
  from main have a: "\<forall>c \<in> set (checks mb'). \<not> FKOutbound c \<longrightarrow> ?A c"
    unfolding good_def by (rule conjunct1)
  from main have b: "OptimizerFKs (bld mb) \<and>
     (\<forall>j. relevantUpdate mb j \<longrightarrow>
          isRestrict (UpdateReferenceAction (InboundFKs (tab mb) ! j))) \<longrightarrow>
       (\<forall>i. relevantUpdate mb i \<longrightarrow>
          (\<exists>c \<in> set (checks mb'). \<not> FKOutbound c \<and> FKOrdinal c = i))"
    by (rule conjunct2)
  have c: "\<forall>i c. inboundFKColsUpdated mb i = Inr False \<and> c \<in> set (checks mb') \<and> \<not> FKOutbound c \<longrightarrow>
       FKOrdinal c \<noteq> i"
  proof (intro allI impI)
    fix i c
    assume h: "inboundFKColsUpdated mb i = Inr False \<and> c \<in> set (checks mb') \<and> \<not> FKOutbound c"
    from main h have "good c" by blast
    then have "relevantUpdate mb (FKOrdinal c)" unfolding good_def by (rule conjunct1)
    with notupd h show "FKOrdinal c \<noteq> i" by blast
  qed
  from a b c show ?thesis by (intro conjI)
qed

lemma anyUpdated_Inr:
  assumes "anyUpdated ords xs = Inr b"
  shows "b = (\<exists>x \<in> set xs. x < length ords \<and> ords ! x \<noteq> - 1)"
  using assms
proof (induction xs)
  case Nil
  then show ?case by simp
next
  case (Cons x xs)
  show ?case
  proof (cases "x < length ords")
    case False
    with Cons.prems show ?thesis by (simp add: ordAt_def)
  next
    case True
    show ?thesis
    proof (cases "ords ! x = - 1")
      case True
      with \<open>x < length ords\<close> Cons.prems have "anyUpdated ords xs = Inr b"
        by (simp add: ordAt_def)
      from Cons.IH [OF this] True show ?thesis by simp
    next
      case False
      with \<open>x < length ords\<close> Cons.prems have "b" by (simp add: ordAt_def)
      with False \<open>x < length ords\<close> show ?thesis by auto
    qed
  qed
qed

lemma anyUpdated_in_range:
  assumes "\<forall>x \<in> set xs. x < length ords"
  shows "anyUpdated ords xs = Inr (\<exists>x \<in> set xs. ords ! x \<noteq> - 1)"
  using assms by (induction xs) (auto simp: ordAt_def)

text \<open>What \<^verbatim>\<open>inboundFKColsUpdated\<close> answers, on the update role entries.\<close>

lemma inboundFKColsUpdated_Inr:
  assumes "inboundFKColsUpdated mb i = Inr b"
  shows "i < length (InboundFKs (tab mb)) \<and> b = referencedColUpdated mb i"
proof -
  from assms have i: "i < length (InboundFKs (tab mb))"
    by (auto simp: inboundFKColsUpdated_def fkAt_def split: if_splits)
  with assms have "anyUpdated (updateOrds mb) (map snd (FKColumns (InboundFKs (tab mb) ! i))) = Inr b"
    by (simp add: inboundFKColsUpdated_def fkAt_def)
  from anyUpdated_Inr [OF this] have "b = referencedColUpdated mb i"
    by (simp add: referencedColUpdated_def)
  with i show ?thesis by simp
qed

lemma inboundFKColsUpdated_in_range:
  assumes "i < length (InboundFKs (tab mb))"
    and "\<forall>p \<in> set (FKColumns (InboundFKs (tab mb) ! i)). snd p < length (updateOrds mb)"
  shows "inboundFKColsUpdated mb i =
         Inr (\<exists>p \<in> set (FKColumns (InboundFKs (tab mb) ! i)). updateOrds mb ! snd p \<noteq> - 1)"
proof -
  from assms(2) have "\<forall>x \<in> set (map snd (FKColumns (InboundFKs (tab mb) ! i))).
      x < length (updateOrds mb)" by simp
  from anyUpdated_in_range [OF this] assms(1) show ?thesis
    by (simp add: inboundFKColsUpdated_def fkAt_def)
qed

lemma relevantUpdate_data:
  assumes "relevantUpdate mb i"
  shows "relevantInbound mb i \<and> referencedColUpdated mb i"
proof -
  from assms have a: "relevantInbound mb i" and b: "inboundFKColsUpdated mb i = Inr True"
    by (simp_all add: relevantUpdate_def)
  from inboundFKColsUpdated_Inr [OF b] a show ?thesis by simp
qed

lemma relevantUpdate_of_data:
  assumes "relevantInbound mb i" and "referencedColUpdated mb i"
    and "inboundFKColsUpdated mb i = Inr b"
  shows "relevantUpdate mb i"
proof -
  from inboundFKColsUpdated_Inr [OF assms(3)] assms(2) have "b" by simp
  with assms(1,3) show ?thesis by (simp add: relevantUpdate_def)
qed

text \<open>A run of the loop that returns has either met a key with another action or asked
  \<^verbatim>\<open>inboundFKColsUpdated\<close> about every key, with an answer.\<close>

lemma updateDeletionChecks_visits:
  assumes "updateDeletionChecks is mb = Inr mb'"
  shows "(\<exists>i \<in> set is. relevantUpdate mb i \<and>
            \<not> isRestrict (UpdateReferenceAction (InboundFKs (tab mb) ! i))) \<or>
         (\<forall>i \<in> set is. \<exists>b. inboundFKColsUpdated mb i = Inr b)"
  using assms
proof (induction "is" arbitrary: mb)
  case Nil
  then show ?case by simp
next
  case (Cons i rest)
  from Cons.prems obtain upd where upd: "inboundFKColsUpdated mb i = Inr upd"
    by (auto split: sum.splits)
  have step: ?case if "(\<exists>j \<in> set rest. relevantUpdate mb j \<and>
            \<not> isRestrict (UpdateReferenceAction (InboundFKs (tab mb) ! j))) \<or>
         (\<forall>j \<in> set rest. \<exists>b. inboundFKColsUpdated mb j = Inr b)"
    using that upd by auto
  show ?case
  proof (cases upd)
    case False
    with Cons.prems upd have "updateDeletionChecks rest mb = Inr mb'" by simp
    from Cons.IH [OF this] show ?thesis by (rule step)
  next
    case True
    with Cons.prems upd obtain ok h where ini: "initWithInboundFK mb i = Inr (ok, h)"
      by (auto split: sum.splits)
    note i1 = initWithInboundFK_spec [OF ini]
    show ?thesis
    proof (cases ok)
      case False
      with Cons.prems upd True ini have "updateDeletionChecks rest mb = Inr mb'" by simp
      from Cons.IH [OF this] show ?thesis by (rule step)
    next
      case ok: True
      have rel: "relevantUpdate mb i"
        using i1 ok upd True by (simp add: relevantUpdate_def relevantInbound_def)
      have fkh: "fk h = InboundFKs (tab mb) ! i" using i1 by simp
      show ?thesis
      proof (cases "isRestrict (UpdateReferenceAction (InboundFKs (tab mb) ! i))")
        case False
        with rel show ?thesis by simp
      next
        case restr: True
        with Cons.prems upd True ini ok fkh obtain deleted dcols mb1 mb2 where
          ex: "deletedRowsExcept h mb = Inr ((deleted, dcols), mb1)"
          and ad: "addDeletionCheck h deleted dcols mb1 = Inr mb2"
          and run: "updateDeletionChecks rest mb2 = Inr mb'"
          by (auto split: sum.splits prod.splits)
        from deletedRowsExcept_spec [OF ex] have s01: "sameButFK mb mb1" by (rule conjunct1)
        from addDeletionCheck_spec [OF ad] have s12: "sameButFK mb1 mb2" by blast
        have s02: "sameButFK mb mb2" using s01 s12 by (rule sameButFK_trans)
        note ih = Cons.IH [OF run, unfolded relevantUpdate_cong [OF s02]
            inboundFKColsUpdated_cong [OF s02] sameButFK_fields(1) [OF s02]]
        from ih show ?thesis by (rule step)
      qed
    qed
  qed
qed

lemma buildFKChecksForUpdate_visits:
  assumes "buildFKChecksForUpdate mb = Inr mb'" and "OptimizerFKs (bld mb)"
    and "i < length (InboundFKs (tab mb))"
  shows "(\<exists>j. relevantUpdate mb j \<and>
            \<not> isRestrict (UpdateReferenceAction (InboundFKs (tab mb) ! j))) \<or>
         (\<exists>b. inboundFKColsUpdated mb i = Inr b)"
proof -
  from assms(3) have ne: "InboundFKs (tab mb) \<noteq> []" by auto
  from buildFKChecksForUpdate_run [OF assms(1)] ne assms(2) obtain mb1 where
    a: "updateInsertionChecks [0..<length (OutboundFKs (tab mb))] (reserveWithID mb) = Inr mb1"
    and b: "updateDeletionChecks [0..<length (InboundFKs (tab mb))] mb1 = Inr mb'"
    by blast
  from updateInsertionChecks_spec [OF a] have s1: "sameButFK (reserveWithID mb) mb1"
    by (rule conjunct1)
  have t: "tab mb1 = tab mb"
    using sameButFK_fields(1) [OF s1] by (simp add: reserveWithID_fields)
  have r: "\<And>j. relevantUpdate mb1 j = relevantUpdate mb j"
    using relevantUpdate_cong [OF s1] by (simp add: reserveWithID_relevant)
  have u: "\<And>j. inboundFKColsUpdated mb1 j = inboundFKColsUpdated mb j"
    using inboundFKColsUpdated_cong [OF s1] by (simp add: reserveWithID_relevant)
  note v = updateDeletionChecks_visits [OF b, unfolded r t u]
  from assms(3) have "i \<in> set [0..<length (InboundFKs (tab mb))]" by simp
  with v show ?thesis by blast
qed

lemma exPair_build:
  "buildFKChecksForUpdate exPairParent =
     Inr (exPairParent
            \<lparr>md := \<lparr>mdNumCols = 14, mdNumTables = 2, mdCurUniqueID = 2, mdCurWithID = 1\<rparr>,
             checks := [\<lparr>Check = SemiJoinExpr
                           (ExceptExpr (WithScanExpr 1 [3, 4] [7, 8] 1)
                              (WithScanExpr 1 [3, 6] [9, 10] 2) [7, 8] [9, 10] [7, 8])
                           (ScanExpr \<lparr>tabIndex = 2, firstColID = 11\<rparr> [0, 1])
                           [EqExpr (VariableExpr 7) (VariableExpr 11),
                            EqExpr (VariableExpr 8) (VariableExpr 12)],
                         OriginTable = \<lparr>tabIndex = 2, firstColID = 11\<rparr>,
                         ReferencedTable = \<lparr>tabIndex = 1, firstColID = 1\<rparr>,
                         FKOutbound = False, FKOrdinal = 0, KeyCols = [7, 8],
                         OpName = ''update''\<rparr>],
             withID := 1\<rparr>)"
  by (simp add: buildFKChecksForUpdate_def deletedRowsExcept_def inboundFKColsUpdated_def
      exPairParent_def exParent_def exParentTab_def ex_defs fk_defs
      initWithInboundFK_def addDeletionCheck_def isRestrict_def upt_rec)

lemma exPairBuf_except:
  "evalRel exPairBuf (ExceptExpr (WithScanExpr 1 [3, 4] [7, 8] 1)
                        (WithScanExpr 1 [3, 6] [9, 10] 2) [7, 8] [9, 10] [7, 8]) =
     Some [[Some 1, Some 5]]"
  by (simp add: exPairBuf_def exPairRow_def rowEnv_def)

text \<open>
  C3. An update's builder of foreign-key checks runs from a state without checks and returns.
  An inbound foreign key has a referenced column in the update role when the entry of
  \<^verbatim>\<open>updateOrds\<close> at the referenced ordinal of one of its column pairs is set, whichever pair
  it is (\<open>referencedColUpdated\<close>). Every check of the result that is not an insertion check
  belongs to an inbound foreign key whose origin table resolves, which has a referenced column
  in the update role and whose update action is RESTRICT or NO ACTION; it is a semi-join whose
  input is the except of the with-scan over the fetched values of the referenced columns and
  the with-scan over their new values, both reading the buffered input under the statement's
  binding. On any buffered rows that except returns, without duplicates, the old keys that are
  no new key, so the old key of a row whose new key equals its old key is not returned. When
  optimizer checks are enabled and no resolving foreign key with a referenced column in the
  update role has another action, each of them has its check. A foreign key none of whose
  referenced columns is in the update role has no check.
\<close>

theorem buildFKChecksForUpdate_deletion_checks:
  assumes "checks mb = []" and "buildFKChecksForUpdate mb = Inr mb'"
  shows
   "(\<forall>c \<in> set (checks mb'). \<not> FKOutbound c \<longrightarrow>
       relevantInbound mb (FKOrdinal c) \<and> referencedColUpdated mb (FKOrdinal c) \<and>
       isRestrict (UpdateReferenceAction (InboundFKs (tab mb) ! FKOrdinal c)) \<and>
       (\<exists>deleted oldIns newIns oldCols newCols u1 u2 scan fs.
          deleted = ExceptExpr (WithScanExpr (withID mb') oldIns oldCols u1)
                      (WithScanExpr (withID mb') newIns newCols u2)
                      oldCols newCols oldCols \<and>
          Check c = SemiJoinExpr deleted scan fs \<and> KeyCols c = oldCols \<and>
          length oldIns = length (FKColumns (InboundFKs (tab mb) ! FKOrdinal c)) \<and>
          length newIns = length (FKColumns (InboundFKs (tab mb) ! FKOrdinal c)) \<and>
          (\<forall>k < length (FKColumns (InboundFKs (tab mb) ! FKOrdinal c)).
             fkInputCol mb fkInputScanFetchedVals
               (snd (FKColumns (InboundFKs (tab mb) ! FKOrdinal c) ! k)) = Inr (oldIns ! k) \<and>
             fkInputCol mb fkInputScanNewVals
               (snd (FKColumns (InboundFKs (tab mb) ! FKOrdinal c) ! k)) = Inr (newIns ! k)) \<and>
          (\<forall>buf. evalRel buf deleted =
             Some (remdups (filter (\<lambda>row. row \<notin> set (map (\<lambda>r. map r newIns) buf))
                              (map (\<lambda>r. map r oldIns) buf)))) \<and>
          (\<forall>buf rows. evalRel buf deleted = Some rows \<longrightarrow>
             set rows = (\<lambda>r. map r oldIns) ` set buf - (\<lambda>r. map r newIns) ` set buf) \<and>
          (\<forall>buf rows r. evalRel buf deleted = Some rows \<and> r \<in> set buf \<and>
             map r oldIns = map r newIns \<longrightarrow> map r oldIns \<notin> set rows))) \<and>
    (OptimizerFKs (bld mb) \<and>
     (\<forall>j. relevantInbound mb j \<and> referencedColUpdated mb j \<longrightarrow>
          isRestrict (UpdateReferenceAction (InboundFKs (tab mb) ! j))) \<longrightarrow>
       (\<forall>i. relevantInbound mb i \<and> referencedColUpdated mb i \<longrightarrow>
          (\<exists>c \<in> set (checks mb'). \<not> FKOutbound c \<and> FKOrdinal c = i))) \<and>
    (\<forall>i c. \<not> referencedColUpdated mb i \<and> c \<in> set (checks mb') \<and> \<not> FKOutbound c \<longrightarrow>
       FKOrdinal c \<noteq> i)"
proof -
  note sp = buildFKChecksForUpdate_checks_spec [OF assms]
  note sp1 = sp [THEN conjunct1, rule_format]
  note sp2 = sp [THEN conjunct2, THEN conjunct1, rule_format]
  have a: "relevantInbound mb (FKOrdinal c) \<and> referencedColUpdated mb (FKOrdinal c) \<and>
       isRestrict (UpdateReferenceAction (InboundFKs (tab mb) ! FKOrdinal c)) \<and>
       (\<exists>deleted oldIns newIns oldCols newCols u1 u2 scan fs.
          deleted = ExceptExpr (WithScanExpr (withID mb') oldIns oldCols u1)
                      (WithScanExpr (withID mb') newIns newCols u2)
                      oldCols newCols oldCols \<and>
          Check c = SemiJoinExpr deleted scan fs \<and> KeyCols c = oldCols \<and>
          length oldIns = length (FKColumns (InboundFKs (tab mb) ! FKOrdinal c)) \<and>
          length newIns = length (FKColumns (InboundFKs (tab mb) ! FKOrdinal c)) \<and>
          (\<forall>k < length (FKColumns (InboundFKs (tab mb) ! FKOrdinal c)).
             fkInputCol mb fkInputScanFetchedVals
               (snd (FKColumns (InboundFKs (tab mb) ! FKOrdinal c) ! k)) = Inr (oldIns ! k) \<and>
             fkInputCol mb fkInputScanNewVals
               (snd (FKColumns (InboundFKs (tab mb) ! FKOrdinal c) ! k)) = Inr (newIns ! k)) \<and>
          (\<forall>buf. evalRel buf deleted =
             Some (remdups (filter (\<lambda>row. row \<notin> set (map (\<lambda>r. map r newIns) buf))
                              (map (\<lambda>r. map r oldIns) buf)))) \<and>
          (\<forall>buf rows. evalRel buf deleted = Some rows \<longrightarrow>
             set rows = (\<lambda>r. map r oldIns) ` set buf - (\<lambda>r. map r newIns) ` set buf) \<and>
          (\<forall>buf rows r. evalRel buf deleted = Some rows \<and> r \<in> set buf \<and>
             map r oldIns = map r newIns \<longrightarrow> map r oldIns \<notin> set rows))"
    if c: "c \<in> set (checks mb')" "\<not> FKOutbound c" for c
  proof -
    note g = sp1 [OF c]
    from g have "relevantUpdate mb (FKOrdinal c)" by (rule conjunct1)
    from relevantUpdate_data [OF this]
    have d: "relevantInbound mb (FKOrdinal c)" "referencedColUpdated mb (FKOrdinal c)"
      by simp_all
    show ?thesis by (rule conjI [OF d(1) conjI [OF d(2) g [THEN conjunct2]]])
  qed
  have b: "\<exists>c \<in> set (checks mb'). \<not> FKOutbound c \<and> FKOrdinal c = i"
    if on: "OptimizerFKs (bld mb) \<and>
       (\<forall>j. relevantInbound mb j \<and> referencedColUpdated mb j \<longrightarrow>
          isRestrict (UpdateReferenceAction (InboundFKs (tab mb) ! j)))"
      and i: "relevantInbound mb i \<and> referencedColUpdated mb i" for i
  proof -
    have restr: "\<forall>j. relevantUpdate mb j \<longrightarrow>
        isRestrict (UpdateReferenceAction (InboundFKs (tab mb) ! j))"
      using on relevantUpdate_data by blast
    from i have "i < length (InboundFKs (tab mb))" by (simp add: relevantInbound_def)
    from buildFKChecksForUpdate_visits [OF assms(2) on [THEN conjunct1] this] restr
    obtain b where "inboundFKColsUpdated mb i = Inr b" by blast
    from relevantUpdate_of_data [OF i [THEN conjunct1] i [THEN conjunct2] this]
    have "relevantUpdate mb i" .
    from sp2 [OF conjI [OF on [THEN conjunct1] restr] this] show ?thesis .
  qed
  have c: "FKOrdinal c \<noteq> i"
    if h: "\<not> referencedColUpdated mb i \<and> c \<in> set (checks mb') \<and> \<not> FKOutbound c" for i c
  proof -
    from h have "c \<in> set (checks mb')" "\<not> FKOutbound c" by simp_all
    from a [OF this] have "referencedColUpdated mb (FKOrdinal c)" by simp
    with h show ?thesis by blast
  qed
  show ?thesis
    apply (rule conjI)
     apply (rule ballI, rule impI)
     apply (erule (1) a)
    apply (rule conjI)
     apply (rule impI, rule allI, rule impI)
     apply (erule (1) b)
    apply (rule allI, rule allI, rule impI)
    apply (erule c)
    done
qed

theorem buildFKChecksForUpdate_deletion_checks_witness:
  "buildFKChecksForUpdate exPairParent =
     Inr (exPairParent
            \<lparr>md := \<lparr>mdNumCols = 14, mdNumTables = 2, mdCurUniqueID = 2, mdCurWithID = 1\<rparr>,
             checks := [\<lparr>Check = SemiJoinExpr
                           (ExceptExpr (WithScanExpr 1 [3, 4] [7, 8] 1)
                              (WithScanExpr 1 [3, 6] [9, 10] 2) [7, 8] [9, 10] [7, 8])
                           (ScanExpr \<lparr>tabIndex = 2, firstColID = 11\<rparr> [0, 1])
                           [EqExpr (VariableExpr 7) (VariableExpr 11),
                            EqExpr (VariableExpr 8) (VariableExpr 12)],
                         OriginTable = \<lparr>tabIndex = 2, firstColID = 11\<rparr>,
                         ReferencedTable = \<lparr>tabIndex = 1, firstColID = 1\<rparr>,
                         FKOutbound = False, FKOrdinal = 0, KeyCols = [7, 8],
                         OpName = ''update''\<rparr>],
             withID := 1\<rparr>)
   \<and> updateOrds exPairParent = [- 1, 3]
   \<and> FKColumns (InboundFKs (tab exPairParent) ! 0) = [(0, 0), (1, 1)]
   \<and> FKColumns (InboundFKs (tab exPairParent) ! 1) = [(0, 0)]
   \<and> relevantInbound exPairParent 0
   \<and> referencedColUpdated exPairParent 0
   \<and> isRestrict (UpdateReferenceAction (InboundFKs (tab exPairParent) ! 0))
   \<and> \<not> referencedColUpdated exPairParent 1
   \<and> evalRel exPairBuf
        (ExceptExpr (WithScanExpr 1 [3, 4] [7, 8] 1) (WithScanExpr 1 [3, 6] [9, 10] 2)
           [7, 8] [9, 10] [7, 8]) =
       Some [[Some 1, Some 5]]
   \<and> map (exPairRow (Some 1) (Some 2) (Some 2)) [3, 4] =
       map (exPairRow (Some 1) (Some 2) (Some 2)) [3, 6]"
proof -
  let ?c = "\<lparr>Check = SemiJoinExpr
                           (ExceptExpr (WithScanExpr 1 [3, 4] [7, 8] 1)
                              (WithScanExpr 1 [3, 6] [9, 10] 2) [7, 8] [9, 10] [7, 8])
                           (ScanExpr \<lparr>tabIndex = 2, firstColID = 11\<rparr> [0, 1])
                           [EqExpr (VariableExpr 7) (VariableExpr 11),
                            EqExpr (VariableExpr 8) (VariableExpr 12)],
                         OriginTable = \<lparr>tabIndex = 2, firstColID = 11\<rparr>,
                         ReferencedTable = \<lparr>tabIndex = 1, firstColID = 1\<rparr>,
                         FKOutbound = False, FKOrdinal = 0, KeyCols = [7, 8],
                         OpName = ''update''\<rparr>"
  let ?x = "exPairParent
            \<lparr>md := \<lparr>mdNumCols = 14, mdNumTables = 2, mdCurUniqueID = 2, mdCurWithID = 1\<rparr>,
             checks := [?c], withID := 1\<rparr>"
  have c0: "checks exPairParent = []"
    by (simp add: exPairParent_def exParent_def ex_defs Let_def)
  have m: "?c \<in> set (checks ?x)" and o: "\<not> FKOutbound ?c" and z: "FKOrdinal ?c = 0"
    by simp_all
  note t = buildFKChecksForUpdate_deletion_checks [OF c0 exPair_build, THEN conjunct1,
      rule_format, OF m o]
  from t have r: "relevantInbound exPairParent 0" unfolding z by (rule conjunct1)
  from t have u: "referencedColUpdated exPairParent 0"
    unfolding z by (rule conjunct2 [THEN conjunct1])
  from t have a: "isRestrict (UpdateReferenceAction (InboundFKs (tab exPairParent) ! 0))"
    unfolding z by (rule conjunct2 [THEN conjunct2, THEN conjunct1])
  have uo: "updateOrds exPairParent = [- 1, 3]"
    and k0: "FKColumns (InboundFKs (tab exPairParent) ! 0) = [(0, 0), (1, 1)]"
    and k1: "FKColumns (InboundFKs (tab exPairParent) ! 1) = [(0, 0)]"
    by (simp_all add: exPairParent_def exParent_def exParentTab_def ex_defs Let_def)
  have n: "\<not> referencedColUpdated exPairParent 1"
    unfolding referencedColUpdated_def uo k1 by simp
  have e: "map (exPairRow (Some 1) (Some 2) (Some 2)) [3, 4] =
       map (exPairRow (Some 1) (Some 2) (Some 2)) [3, 6]"
    by (simp add: exPairRow_def)
  from exPair_build uo k0 k1 r u a n exPairBuf_except e show ?thesis by (intro conjI)
qed

end
